theory Spec2Isabelle
  imports Main "HOL-Library.AList"
begin

section \<open>Field tree model\<close>

text \<open>
  The field kinds of the configuration (\<^verbatim>\<open>field.type\<close>).  \<^verbatim>\<open>ty_tab\<close> is the tag the
  path-map builder gives a tab when it asks for its paths; \<^verbatim>\<open>ty_join\<close> and \<^verbatim>\<open>ty_ui\<close> have no
  storage generator.
\<close>

datatype field_type =
    ty_array | ty_blocks | ty_checkbox | ty_code | ty_collapsible | ty_date | ty_email
  | ty_group | ty_join | ty_json | ty_number | ty_point | ty_radio | ty_relationship
  | ty_richText | ty_row | ty_select | ty_tab | ty_tabs | ty_text | ty_textarea | ty_ui
  | ty_upload

text \<open>Static configuration data (a default value that is not a function).\<close>

datatype json =
    JNull | JBool bool | JNum int | JStr string | JArr "json list" | JObj "(string \<times> json) list"

text \<open>\<^verbatim>\<open>field.defaultValue\<close>: absent, a generator function, or a static value.\<close>

datatype default_value = DefaultUndefined | DefaultFunction | DefaultStatic json

text \<open>A select or radio option: a bare string or a label/value pair.\<close>

datatype option_def = OptionString string | OptionObject (option_label: string) (option_val: string)

text \<open>\<^verbatim>\<open>relationTo\<close>: one target collection or a list of them.\<close>

datatype relation_to = RelationOne string | RelationMany "string list"

text \<open>
  The rich-text editor of a field as the path-map builder sees it: missing, still an
  unsanitised function, or a sanitised adapter with or without the \<^verbatim>\<open>generateSchemaMap\<close>
  capability.
\<close>

datatype editor = EditorMissing | EditorFunction | EditorPlain | EditorWithSchemaMap

text \<open>
  The attributes a field or a tab may carry.  A flag that is absent in the configuration
  is \<open>False\<close>; \<open>index\<close> keeps the difference between absent and \<^verbatim>\<open>false\<close>, which the
  geo-point generator reads, and \<open>name\<close> is \<open>None\<close> for an unnamed group or tab.
\<close>

record attrs =
  name :: "string option"
  localized :: bool
  unique :: bool
  index :: "bool option"
  required :: bool
  hidden :: bool
  virtual :: bool
  hasMany :: bool
  defaultValue :: default_value
  options :: "option_def list"
  relationTo :: relation_to
  editor :: editor

datatype field =
  Field (ftype: field_type) (attrs: attrs) (field_fields: "field list")
        (field_blocks: "block list") (blockReferences: block_references)
        (field_tabs: "tab list")
and block = Block (slug: string) (block_fields: "field list")
and tab = Tab (tab_attrs: attrs) (tab_fields: "field list")
and block_references = NoReferences | GlobalBlocks | References "block_ref list"
and block_ref = SlugRef string | BlockRef block

text \<open>\<^verbatim>\<open>typeof ref === 'string' ? ref : ref.slug\<close>\<close>

fun ref_slug :: "block_ref \<Rightarrow> string" where
  "ref_slug (SlugRef s) = s"
| "ref_slug (BlockRef b) = slug b"

text \<open>A computed key \<^verbatim>\<open>[field.name]\<close>; JavaScript turns an absent name into the key "undefined".\<close>

definition field_name :: "attrs \<Rightarrow> string" where
  "field_name a = (case name a of Some n \<Rightarrow> n | None \<Rightarrow> ''undefined'')"

section \<open>Helpers of the shared package\<close>

text \<open>
  Modelled from the spec: \<^verbatim>\<open>fieldAffectsData\<close> of \<^verbatim>\<open>payload/shared\<close> is not among the sources.
  The spec speaks of a field that "persists data": a field with a name that is not
  presentation-only.
\<close>

definition fieldAffectsData :: "field \<Rightarrow> bool" where
  "fieldAffectsData f = (name (attrs f) \<noteq> None \<and> ftype f \<noteq> ty_ui)"

text \<open>
  Modelled from the spec: \<^verbatim>\<open>fieldIsPresentationalOnly\<close> of \<^verbatim>\<open>payload/shared\<close> is not among
  the sources.  The presentation-only kind is \<^verbatim>\<open>ui\<close>.
\<close>

definition fieldIsPresentationalOnly :: "field \<Rightarrow> bool" where
  "fieldIsPresentationalOnly f = (ftype f = ty_ui)"

text \<open>
  Modelled from the spec: \<^verbatim>\<open>fieldIsVirtual\<close> of \<^verbatim>\<open>payload/shared\<close> is not among the sources.
  It reads the \<^verbatim>\<open>virtual\<close> attribute of a field or a tab.
\<close>

definition fieldIsVirtual :: "attrs \<Rightarrow> bool" where
  "fieldIsVirtual a = virtual a"

text \<open>
  Modelled from the spec: \<^verbatim>\<open>tabHasName\<close> of \<^verbatim>\<open>payload/shared\<close> is not among the sources.
\<close>

definition tabHasName :: "tab \<Rightarrow> bool" where
  "tabHasName t = (name (tab_attrs t) \<noteq> None)"

text \<open>
  Modelled from the spec: \<^verbatim>\<open>fieldShouldBeLocalized\<close> of \<^verbatim>\<open>payload/shared\<close> is not among the
  sources.  Every call passes the field (or tab) and \<^verbatim>\<open>parentIsLocalized\<close> and nothing of
  the localization configuration, which the callers test themselves where they need it:
  the field is marked localized and no ancestor has localized it already.
\<close>

definition fieldShouldBeLocalized :: "attrs \<Rightarrow> bool \<Rightarrow> bool" where
  "fieldShouldBeLocalized a parentIsLocalized = (localized a \<and> \<not> parentIsLocalized)"

section \<open>Storage schema values\<close>

text \<open>The type constructors a descriptor names.\<close>

datatype schema_type = TString | TNumber | TBoolean | TDate | TMixed | TObjectId | TBigInt

text \<open>\<^verbatim>\<open>1\<close> in a compound index, \<^verbatim>\<open>'2dsphere'\<close> in a spatial one.\<close>

datatype index_kind = Ascending | Sphere2d

record index_def =
  index_fields :: "(string \<times> index_kind) list"
  index_options :: "(string \<times> bool) list"

text \<open>
  A descriptor is the object literal a generator hands to \<^verbatim>\<open>schema.add\<close>: an object is an
  association list in key order (a spread followed by a key is \<open>AList.update\<close>).  A
  \<^verbatim>\<open>mongoose.Schema\<close> is the options it was constructed with and what has been added to it
  since: paths, indexes and discriminators.  A schema that a generator builds and embeds is
  never touched again and is embedded by value; a shell of the global registry is shared and
  filled later, so a discriminator that uses one holds its address in the store.
\<close>

datatype descriptor =
    Undefined
  | Null
  | Bool bool
  | Str string
  | Data json
  | Type schema_type
  | Arr "descriptor list"
  | Obj "(string \<times> descriptor) list"
  | Sub schema
and schema =
  Schema (schema_options: "(string \<times> descriptor) list option")
         (paths: "(string \<times> descriptor) list")
         (indexes: "index_def list")
         (discriminators: "(string \<times> string \<times> schema_ref) list")
and schema_ref = Inline schema | Shell nat

text \<open>\<^verbatim>\<open>new mongoose.Schema(fields, options)\<close>\<close>

definition new_Schema ::
  "(string \<times> descriptor) list \<Rightarrow> (string \<times> descriptor) list option \<Rightarrow> schema" where
  "new_Schema fs opts = Schema opts fs [] []"

text \<open>\<^verbatim>\<open>schema.add({ [key]: descriptor })\<close>\<close>

definition schema_add :: "string \<Rightarrow> descriptor \<Rightarrow> schema \<Rightarrow> schema" where
  "schema_add key d s =
     Schema (schema_options s) (paths s @ [(key, d)]) (indexes s) (discriminators s)"

text \<open>\<^verbatim>\<open>schema.index(fields, options)\<close>\<close>

definition schema_index ::
  "(string \<times> index_kind) list \<Rightarrow> (string \<times> bool) list \<Rightarrow> schema \<Rightarrow> schema" where
  "schema_index fs opts s =
     Schema (schema_options s) (paths s)
       (indexes s @ [\<lparr>index_fields = fs, index_options = opts\<rparr>]) (discriminators s)"

text \<open>\<^verbatim>\<open>schema.path(path).discriminator(slug, blockSchema)\<close>\<close>

definition schema_discriminator :: "string \<Rightarrow> string \<Rightarrow> schema_ref \<Rightarrow> schema \<Rightarrow> schema" where
  "schema_discriminator path sl r s =
     Schema (schema_options s) (paths s) (indexes s) (discriminators s @ [(path, sl, r)])"

section \<open>The environment of a compilation\<close>

text \<open>
  \<^verbatim>\<open>payload.config.localization\<close> when it is not \<^verbatim>\<open>false\<close>: the codes of its \<^verbatim>\<open>locales\<close> and its
  \<^verbatim>\<open>localeCodes\<close>.
\<close>

record localization_config =
  locales :: "string list"
  localeCodes :: "string list"

text \<open>\<^verbatim>\<open>customIDType\<close> of a collection.\<close>

datatype id_type = IdNumber | IdText

text \<open>
  What the builder reads of \<^verbatim>\<open>payload\<close>: the localization configuration, the global blocks
  \<^verbatim>\<open>payload.config.blocks\<close>, the custom identifier type of each collection,
  \<^verbatim>\<open>payload.db.useBigIntForNumberIDs\<close>, and the registry \<^verbatim>\<open>payload.db.globalBlockSchemas\<close>, a map
  from slug to shell that this module reads and never writes.
\<close>

record payload =
  localization :: "localization_config option"
  config_blocks :: "block list option"
  collections :: "(string \<times> id_type option) list"
  useBigIntForNumberIDs :: bool
  globalBlockSchemas :: "(string \<times> nat) list"

record buildSchemaOptions =
  allowIDField :: bool
  disableUnique :: bool
  draftsEnabled :: bool
  indexSortableFields :: bool
  raw_options :: "(string \<times> descriptor) list option"

section \<open>Leaf descriptors\<close>

definition formatDefaultValue :: "attrs \<Rightarrow> descriptor" where
  "formatDefaultValue a =
     (case defaultValue a of
        DefaultStatic v \<Rightarrow> Data v
      | DefaultFunction \<Rightarrow> Undefined
      | DefaultUndefined \<Rightarrow> Undefined)"

definition formatBaseSchema ::
  "buildSchemaOptions \<Rightarrow> field \<Rightarrow> bool \<Rightarrow> (string \<times> descriptor) list" where
  "formatBaseSchema buildSchemaOptions field parentIsLocalized =
     (let a = attrs field;
          is_unique = (\<not> disableUnique buildSchemaOptions \<and> unique a);
          schema0 =
            [(''default'', formatDefaultValue a),
             (''index'', Bool (index a = Some True \<or> is_unique
                                 \<or> indexSortableFields buildSchemaOptions)),
             (''required'', Bool False),
             (''unique'', Bool is_unique)];
          schema1 =
            (if is_unique \<and>
                (fieldShouldBeLocalized a parentIsLocalized \<or>
                 draftsEnabled buildSchemaOptions \<or>
                 (fieldAffectsData field \<and> ftype field \<noteq> ty_group \<and>
                  ftype field \<noteq> ty_tab \<and> \<not> required a))
             then AList.update ''sparse'' (Bool True) schema0
             else schema0)
      in if hidden a then AList.update ''hidden'' (Bool True) schema1 else schema1)"

definition localizeSchema ::
  "attrs \<Rightarrow> descriptor \<Rightarrow> localization_config option \<Rightarrow> bool \<Rightarrow> descriptor" where
  "localizeSchema entity d loc parentIsLocalized =
     (case loc of
        Some l \<Rightarrow>
          if fieldShouldBeLocalized entity parentIsLocalized
          then Obj [(''type'',
                     Obj (foldl (\<lambda>localeSchema locale. AList.update locale d localeSchema)
                            [(''_id'', Bool False)] (localeCodes l))),
                    (''localized'', Bool True)]
          else d
      | None \<Rightarrow> d)"

section \<open>Generators of the leaf kinds\<close>

text \<open>
  Every generator has the signature of \<^verbatim>\<open>FieldSchemaGenerator\<close>: it takes the field, the
  schema under construction, the payload, the build options and \<^verbatim>\<open>parentIsLocalized\<close>, and
  returns the schema as the calls of \<^verbatim>\<open>schema.add\<close> and \<^verbatim>\<open>schema.index\<close> leave it.
\<close>

definition checkbox :: "field \<Rightarrow> schema \<Rightarrow> payload \<Rightarrow> buildSchemaOptions \<Rightarrow> bool \<Rightarrow> schema" where
  "checkbox field schema payload buildSchemaOptions parentIsLocalized =
     (let baseSchema =
            AList.update ''type'' (Type TBoolean)
              (formatBaseSchema buildSchemaOptions field parentIsLocalized)
      in schema_add (field_name (attrs field))
           (localizeSchema (attrs field) (Obj baseSchema) (localization payload)
              parentIsLocalized)
           schema)"

definition code :: "field \<Rightarrow> schema \<Rightarrow> payload \<Rightarrow> buildSchemaOptions \<Rightarrow> bool \<Rightarrow> schema" where
  "code field schema payload buildSchemaOptions parentIsLocalized =
     (let baseSchema =
            AList.update ''type'' (Type TString)
              (formatBaseSchema buildSchemaOptions field parentIsLocalized)
      in schema_add (field_name (attrs field))
           (localizeSchema (attrs field) (Obj baseSchema) (localization payload)
              parentIsLocalized)
           schema)"

definition date :: "field \<Rightarrow> schema \<Rightarrow> payload \<Rightarrow> buildSchemaOptions \<Rightarrow> bool \<Rightarrow> schema" where
  "date field schema payload buildSchemaOptions parentIsLocalized =
     (let baseSchema =
            AList.update ''type'' (Type TDate)
              (formatBaseSchema buildSchemaOptions field parentIsLocalized)
      in schema_add (field_name (attrs field))
           (localizeSchema (attrs field) (Obj baseSchema) (localization payload)
              parentIsLocalized)
           schema)"

definition email :: "field \<Rightarrow> schema \<Rightarrow> payload \<Rightarrow> buildSchemaOptions \<Rightarrow> bool \<Rightarrow> schema" where
  "email field schema payload buildSchemaOptions parentIsLocalized =
     (let baseSchema =
            AList.update ''type'' (Type TString)
              (formatBaseSchema buildSchemaOptions field parentIsLocalized)
      in schema_add (field_name (attrs field))
           (localizeSchema (attrs field) (Obj baseSchema) (localization payload)
              parentIsLocalized)
           schema)"

definition json :: "field \<Rightarrow> schema \<Rightarrow> payload \<Rightarrow> buildSchemaOptions \<Rightarrow> bool \<Rightarrow> schema" where
  "json field schema payload buildSchemaOptions parentIsLocalized =
     (let baseSchema =
            AList.update ''type'' (Type TMixed)
              (formatBaseSchema buildSchemaOptions field parentIsLocalized)
      in schema_add (field_name (attrs field))
           (localizeSchema (attrs field) (Obj baseSchema) (localization payload)
              parentIsLocalized)
           schema)"

definition number :: "field \<Rightarrow> schema \<Rightarrow> payload \<Rightarrow> buildSchemaOptions \<Rightarrow> bool \<Rightarrow> schema" where
  "number field schema payload buildSchemaOptions parentIsLocalized =
     (let baseSchema =
            AList.update ''type'' (if hasMany (attrs field) then Arr [Type TNumber] else Type TNumber)
              (formatBaseSchema buildSchemaOptions field parentIsLocalized)
      in schema_add (field_name (attrs field))
           (localizeSchema (attrs field) (Obj baseSchema) (localization payload)
              parentIsLocalized)
           schema)"

definition point :: "field \<Rightarrow> schema \<Rightarrow> payload \<Rightarrow> buildSchemaOptions \<Rightarrow> bool \<Rightarrow> schema" where
  "point field schema payload buildSchemaOptions parentIsLocalized =
     (let a = attrs field;
          coordinates0 =
            [(''type'', Arr [Type TNumber]),
             (''default'', formatDefaultValue a),
             (''required'', Bool False)];
          coordinates =
            (if disableUnique buildSchemaOptions \<and> unique a \<and>
                fieldShouldBeLocalized a parentIsLocalized
             then AList.update ''sparse'' (Bool True) coordinates0
             else coordinates0);
          baseSchema =
            [(''type'',
              Obj ([(''type'', Type TString), (''enum'', Arr [Str ''Point''])] @
                   (if defaultValue a \<noteq> DefaultUndefined
                    then [(''default'', Str ''Point'')] else []))),
             (''coordinates'', Obj coordinates)];
          schema1 =
            schema_add (field_name a)
              (localizeSchema a (Obj baseSchema) (localization payload) parentIsLocalized)
              schema
      in if index a = Some True \<or> index a = None
         then
           (let indexOptions =
                  (if \<not> disableUnique buildSchemaOptions \<and> unique a
                   then [(''sparse'', True), (''unique'', True)] else [])
            in case localization payload of
                 Some l \<Rightarrow>
                   if fieldShouldBeLocalized a parentIsLocalized
                   then fold (\<lambda>locale. schema_index
                                 [(field_name a @ ''.'' @ locale, Sphere2d)] indexOptions)
                          (locales l) schema1
                   else schema_index [(field_name a, Sphere2d)] indexOptions schema1
               | None \<Rightarrow> schema_index [(field_name a, Sphere2d)] indexOptions schema1)
         else schema1)"

text \<open>\<^verbatim>\<open>typeof option === 'object' ? option.value : option\<close>\<close>

fun option_value :: "option_def \<Rightarrow> string" where
  "option_value (OptionObject l v) = v"
| "option_value (OptionString v) = v"

definition radio :: "field \<Rightarrow> schema \<Rightarrow> payload \<Rightarrow> buildSchemaOptions \<Rightarrow> bool \<Rightarrow> schema" where
  "radio field schema payload buildSchemaOptions parentIsLocalized =
     (let baseSchema =
            AList.update ''enum''
              (Arr (map (\<lambda>option. Str (option_value option)) (options (attrs field))))
              (AList.update ''type'' (Type TString)
                 (formatBaseSchema buildSchemaOptions field parentIsLocalized))
      in schema_add (field_name (attrs field))
           (localizeSchema (attrs field) (Obj baseSchema) (localization payload)
              parentIsLocalized)
           schema)"

definition getRelationshipValueType :: "field \<Rightarrow> payload \<Rightarrow> schema_type" where
  "getRelationshipValueType field payload =
     (case relationTo (attrs field) of
        RelationOne rel \<Rightarrow>
          (case map_of (collections payload) rel of
             Some (Some customIDType) \<Rightarrow>
               if customIDType = IdNumber
               then (if useBigIntForNumberIDs payload then TBigInt else TNumber)
               else TString
           | _ \<Rightarrow> TObjectId)
      | RelationMany rels \<Rightarrow>
          if list_ex (\<lambda>rel. case map_of (collections payload) rel of
                                Some (Some customIDType) \<Rightarrow> True | _ \<Rightarrow> False) rels
          then TMixed
          else TObjectId)"

text \<open>\<^verbatim>\<open>field.relationTo\<close> as a descriptor value: a string or an array of strings.\<close>

fun relationTo_value :: "relation_to \<Rightarrow> descriptor" where
  "relationTo_value (RelationOne rel) = Str rel"
| "relationTo_value (RelationMany rels) = Arr (map Str rels)"

text \<open>\<^verbatim>\<open>Array.isArray(field.relationTo)\<close>\<close>

fun hasManyRelations :: "relation_to \<Rightarrow> bool" where
  "hasManyRelations (RelationOne rel) = False"
| "hasManyRelations (RelationMany rels) = True"

definition relationship ::
  "field \<Rightarrow> schema \<Rightarrow> payload \<Rightarrow> buildSchemaOptions \<Rightarrow> bool \<Rightarrow> schema" where
  "relationship field schema payload buildSchemaOptions parentIsLocalized =
     (let a = attrs field;
          valueType = getRelationshipValueType field payload;
          base = formatBaseSchema buildSchemaOptions field parentIsLocalized;
          union_of = (\<lambda>refPath.
            AList.update ''value'' (Obj [(''type'', Type valueType), (''refPath'', Str refPath)])
              (AList.update ''relationTo''
                 (Obj [(''type'', Type TString), (''enum'', relationTo_value (relationTo a))])
                 (AList.update ''type'' (Type TMixed)
                    (AList.update ''_id'' (Bool False) base))));
          single =
            AList.update ''ref'' (relationTo_value (relationTo a))
              (AList.update ''type'' (Type valueType) base);
          many = (\<lambda>d. if hasMany a
                       then Obj [(''type'', Arr [d]), (''default'', formatDefaultValue a)]
                       else d);
          localized_return = (\<lambda>l.
            Obj [(''_id'', Bool False),
                 (''type'',
                  Obj (foldl
                         (\<lambda>ls locale.
                            AList.update locale
                              (many (Obj (if hasManyRelations (relationTo a)
                                          then union_of (field_name a @ ''.'' @ locale
                                                          @ ''.relationTo'')
                                          else single)))
                              ls)
                         [] (localeCodes l))),
                 (''localized'', Bool True)]);
          schemaToReturn =
            (case localization payload of
               Some l \<Rightarrow>
                 if fieldShouldBeLocalized a parentIsLocalized then localized_return l
                 else if hasManyRelations (relationTo a)
                 then many (Obj (union_of (field_name a @ ''.relationTo'')))
                 else many (Obj single)
             | None \<Rightarrow>
                 if hasManyRelations (relationTo a)
                 then many (Obj (union_of (field_name a @ ''.relationTo'')))
                 else many (Obj single))
      in schema_add (field_name a) schemaToReturn schema)"

definition richText :: "field \<Rightarrow> schema \<Rightarrow> payload \<Rightarrow> buildSchemaOptions \<Rightarrow> bool \<Rightarrow> schema" where
  "richText field schema payload buildSchemaOptions parentIsLocalized =
     (let baseSchema =
            AList.update ''type'' (Type TMixed)
              (formatBaseSchema buildSchemaOptions field parentIsLocalized)
      in schema_add (field_name (attrs field))
           (localizeSchema (attrs field) (Obj baseSchema) (localization payload)
              parentIsLocalized)
           schema)"

definition select :: "field \<Rightarrow> schema \<Rightarrow> payload \<Rightarrow> buildSchemaOptions \<Rightarrow> bool \<Rightarrow> schema" where
  "select field schema payload buildSchemaOptions parentIsLocalized =
     (let a = attrs field;
          enum0 = map (\<lambda>option. Str (option_value option)) (options a);
          enum1 =
            (if draftsEnabled buildSchemaOptions \<or> \<not> required a
             then enum0 @ [Null] else enum0);
          baseSchema =
            AList.update ''enum'' (Arr enum1)
              (AList.update ''type'' (Type TString)
                 (formatBaseSchema buildSchemaOptions field parentIsLocalized))
      in schema_add (field_name a)
           (localizeSchema a
              (if hasMany a then Arr [Obj baseSchema] else Obj baseSchema)
              (localization payload) parentIsLocalized)
           schema)"

definition text_field :: "field \<Rightarrow> schema \<Rightarrow> payload \<Rightarrow> buildSchemaOptions \<Rightarrow> bool \<Rightarrow> schema" where
  "text_field field schema payload buildSchemaOptions parentIsLocalized =
     (let baseSchema =
            AList.update ''type'' (if hasMany (attrs field) then Arr [Type TString] else Type TString)
              (formatBaseSchema buildSchemaOptions field parentIsLocalized)
      in schema_add (field_name (attrs field))
           (localizeSchema (attrs field) (Obj baseSchema) (localization payload)
              parentIsLocalized)
           schema)"

definition textarea :: "field \<Rightarrow> schema \<Rightarrow> payload \<Rightarrow> buildSchemaOptions \<Rightarrow> bool \<Rightarrow> schema" where
  "textarea field schema payload buildSchemaOptions parentIsLocalized =
     (let baseSchema =
            AList.update ''type'' (Type TString)
              (formatBaseSchema buildSchemaOptions field parentIsLocalized)
      in schema_add (field_name (attrs field))
           (localizeSchema (attrs field) (Obj baseSchema) (localization payload)
              parentIsLocalized)
           schema)"

text \<open>The body of \<^verbatim>\<open>upload\<close> is the body of \<^verbatim>\<open>relationship\<close>, statement for statement.\<close>

definition upload :: "field \<Rightarrow> schema \<Rightarrow> payload \<Rightarrow> buildSchemaOptions \<Rightarrow> bool \<Rightarrow> schema" where
  "upload field schema payload buildSchemaOptions parentIsLocalized =
     relationship field schema payload buildSchemaOptions parentIsLocalized"

section \<open>Variant resolver\<close>

text \<open>
  The loop of \<^verbatim>\<open>resolveBlock\<close> over an explicit list of references: the first entry whose
  slug is the wanted one decides, a string through the global blocks, an object by itself.
\<close>

fun resolve_references :: "string \<Rightarrow> block_ref list \<Rightarrow> payload \<Rightarrow> block option" where
  "resolve_references blockType [] payload = None"
| "resolve_references blockType (SlugRef r # refs) payload =
     (if r = blockType
      then (case config_blocks payload of
              Some bs \<Rightarrow> find (\<lambda>b. slug b = blockType) bs
            | None \<Rightarrow> None)
      else resolve_references blockType refs payload)"
| "resolve_references blockType (BlockRef r # refs) payload =
     (if slug r = blockType then Some r
      else resolve_references blockType refs payload)"

text \<open>\<^verbatim>\<open>undefined\<close>, the not-found result, is \<open>None\<close>.\<close>

definition resolveBlock :: "string \<Rightarrow> field \<Rightarrow> payload \<Rightarrow> block option" where
  "resolveBlock blockType field payload =
     (case find (\<lambda>b. slug b = blockType) (field_blocks field) of
        Some inlineBlock \<Rightarrow> Some inlineBlock
      | None \<Rightarrow>
          (case blockReferences field of
             GlobalBlocks \<Rightarrow>
               (case config_blocks payload of
                  Some bs \<Rightarrow> find (\<lambda>b. slug b = blockType) bs
                | None \<Rightarrow> None)
           | References refs \<Rightarrow> resolve_references blockType refs payload
           | NoReferences \<Rightarrow> None))"

definition getBlocksForField :: "field \<Rightarrow> payload \<Rightarrow> block_ref list" where
  "getBlocksForField field payload =
     (case blockReferences field of
        NoReferences \<Rightarrow> map BlockRef (field_blocks field)
      | GlobalBlocks \<Rightarrow>
          (let inlineSlugs = set (map slug (field_blocks field));
               globalBlocks = (case config_blocks payload of Some bs \<Rightarrow> bs | None \<Rightarrow> [])
           in fold (\<lambda>globalBlock result.
                      if slug globalBlock \<notin> inlineSlugs
                      then result @ [BlockRef globalBlock] else result)
                globalBlocks (map BlockRef (field_blocks field)))
      | References refs \<Rightarrow>
          (let inlineSlugs = set (map slug (field_blocks field))
           in fold (\<lambda>r result.
                      if ref_slug r \<notin> inlineSlugs then result @ [r] else result)
                refs (map BlockRef (field_blocks field))))"

section \<open>Storage schema builder\<close>

text \<open>A sanitised compound index: each field with its path, its per-locale path pattern
  and whether the path runs under a localized ancestor.\<close>

record compound_field =
  cf_path :: string
  localizedPath :: string
  pathHasLocalized :: bool

record compound_index =
  ci_fields :: "compound_field list"
  ci_unique :: bool

text \<open>\<^verbatim>\<open>string.replace(pattern, replacement)\<close> with a string pattern: the first occurrence.\<close>

fun replace_first :: "string \<Rightarrow> string \<Rightarrow> string \<Rightarrow> string" where
  "replace_first pat rep [] = (if pat = [] then rep else [])"
| "replace_first pat rep (c # cs) =
     (if take (length pat) (c # cs) = pat then rep @ drop (length pat) (c # cs)
      else c # replace_first pat rep cs)"

text \<open>The options of every nested schema: \<^verbatim>\<open>{ _id: false, id: false, minimize: false }\<close>.\<close>

definition nested_options :: "(string \<times> descriptor) list" where
  "nested_options = [(''_id'', Bool False), (''id'', Bool False), (''minimize'', Bool False)]"

text \<open>The options of a variant's schema: \<^verbatim>\<open>{ _id: false, id: false }\<close>.\<close>

definition block_options :: "(string \<times> descriptor) list" where
  "block_options = [(''_id'', Bool False), (''id'', Bool False)]"

type_synonym blocks_to_add = "(string \<times> bool \<times> schema_ref) list \<times> string set"

definition blocks_global :: "payload \<Rightarrow> blocks_to_add \<Rightarrow> blocks_to_add" where
  "blocks_global payload st =
     (case config_blocks payload of
        Some bs \<Rightarrow>
          fold (\<lambda>block (blocksToAdd, processedSlugs).
                  if slug block \<notin> processedSlugs
                  then (case map_of (globalBlockSchemas payload) (slug block) of
                          Some preBuiltSchema \<Rightarrow>
                            (blocksToAdd @ [(slug block, False, Shell preBuiltSchema)],
                             insert (slug block) processedSlugs)
                        | None \<Rightarrow> (blocksToAdd, processedSlugs))
                  else (blocksToAdd, processedSlugs))
            bs st
      | None \<Rightarrow> st)"

definition blocks_discriminators ::
  "attrs \<Rightarrow> payload \<Rightarrow> bool \<Rightarrow> (string \<times> bool \<times> schema_ref) list \<Rightarrow> schema \<Rightarrow> schema" where
  "blocks_discriminators a payload parentIsLocalized blocksToAdd schema =
     fold (\<lambda>(sl, isInline, blockSchema) s.
             case localization payload of
               Some l \<Rightarrow>
                 if fieldShouldBeLocalized a parentIsLocalized
                 then fold (\<lambda>localeCode.
                              schema_discriminator (field_name a @ ''.'' @ localeCode) sl blockSchema)
                        (localeCodes l) s
                 else schema_discriminator (field_name a) sl blockSchema s
             | None \<Rightarrow> schema_discriminator (field_name a) sl blockSchema s)
       blocksToAdd schema"

definition compound_indexes :: "compound_index list \<Rightarrow> payload \<Rightarrow> buildSchemaOptions \<Rightarrow> schema \<Rightarrow> schema" where
  "compound_indexes cis payload buildSchemaOptions schema =
     fold (\<lambda>ci s.
             let indexDefinition =
                   fold (\<lambda>cf def.
                           case localization payload of
                             Some l \<Rightarrow>
                               if pathHasLocalized cf
                               then fold (\<lambda>locale.
                                            AList.update
                                              (replace_first ''<locale>'' locale (localizedPath cf))
                                              Ascending)
                                      (locales l) def
                               else AList.update (cf_path cf) Ascending def
                           | None \<Rightarrow> AList.update (cf_path cf) Ascending def)
                     (ci_fields ci) []
             in schema_index indexDefinition
                  [(''unique'', if disableUnique buildSchemaOptions then False else ci_unique ci)] s)
       cis schema"

function addFieldSchema :: "field \<Rightarrow> schema \<Rightarrow> payload \<Rightarrow> buildSchemaOptions \<Rightarrow> bool \<Rightarrow> schema"
and buildSchema ::
  "buildSchemaOptions \<Rightarrow> compound_index list \<Rightarrow> field list \<Rightarrow> bool \<Rightarrow> payload \<Rightarrow> schema"
and array :: "field \<Rightarrow> schema \<Rightarrow> payload \<Rightarrow> buildSchemaOptions \<Rightarrow> bool \<Rightarrow> schema"
and blocks :: "field \<Rightarrow> schema \<Rightarrow> payload \<Rightarrow> buildSchemaOptions \<Rightarrow> bool \<Rightarrow> schema"
and collapsible :: "field \<Rightarrow> schema \<Rightarrow> payload \<Rightarrow> buildSchemaOptions \<Rightarrow> bool \<Rightarrow> schema"
and group :: "field \<Rightarrow> schema \<Rightarrow> payload \<Rightarrow> buildSchemaOptions \<Rightarrow> bool \<Rightarrow> schema"
and row :: "field \<Rightarrow> schema \<Rightarrow> payload \<Rightarrow> buildSchemaOptions \<Rightarrow> bool \<Rightarrow> schema"
and tabs :: "field \<Rightarrow> schema \<Rightarrow> payload \<Rightarrow> buildSchemaOptions \<Rightarrow> bool \<Rightarrow> schema"
where
  "addFieldSchema (Field ty a fs bs refs ts) schema payload buildSchemaOptions parentIsLocalized =
     (let field = Field ty a fs bs refs ts in
      case ty of
        ty_array \<Rightarrow> array (Field ty a fs bs refs ts) schema payload buildSchemaOptions parentIsLocalized
      | ty_blocks \<Rightarrow> blocks (Field ty a fs bs refs ts) schema payload buildSchemaOptions parentIsLocalized
      | ty_checkbox \<Rightarrow> checkbox field schema payload buildSchemaOptions parentIsLocalized
      | ty_code \<Rightarrow> code field schema payload buildSchemaOptions parentIsLocalized
      | ty_collapsible \<Rightarrow>
          collapsible (Field ty a fs bs refs ts) schema payload buildSchemaOptions parentIsLocalized
      | ty_date \<Rightarrow> date field schema payload buildSchemaOptions parentIsLocalized
      | ty_email \<Rightarrow> email field schema payload buildSchemaOptions parentIsLocalized
      | ty_group \<Rightarrow> group (Field ty a fs bs refs ts) schema payload buildSchemaOptions parentIsLocalized
      | ty_json \<Rightarrow> json field schema payload buildSchemaOptions parentIsLocalized
      | ty_number \<Rightarrow> number field schema payload buildSchemaOptions parentIsLocalized
      | ty_point \<Rightarrow> point field schema payload buildSchemaOptions parentIsLocalized
      | ty_radio \<Rightarrow> radio field schema payload buildSchemaOptions parentIsLocalized
      | ty_relationship \<Rightarrow> relationship field schema payload buildSchemaOptions parentIsLocalized
      | ty_richText \<Rightarrow> richText field schema payload buildSchemaOptions parentIsLocalized
      | ty_row \<Rightarrow> row (Field ty a fs bs refs ts) schema payload buildSchemaOptions parentIsLocalized
      | ty_select \<Rightarrow> select field schema payload buildSchemaOptions parentIsLocalized
      | ty_tabs \<Rightarrow> tabs (Field ty a fs bs refs ts) schema payload buildSchemaOptions parentIsLocalized
      | ty_text \<Rightarrow> text_field field schema payload buildSchemaOptions parentIsLocalized
      | ty_textarea \<Rightarrow> textarea field schema payload buildSchemaOptions parentIsLocalized
      | ty_upload \<Rightarrow> upload field schema payload buildSchemaOptions parentIsLocalized
      | _ \<Rightarrow> schema)"
| "buildSchema buildSchemaOptions compoundIndexes configFields parentIsLocalized payload =
     (let is_id = (\<lambda>field. fieldAffectsData field \<and> name (attrs field) = Some ''id'');
          idField = (if \<not> allowIDField buildSchemaOptions then find is_id configFields else None);
          fields =
            (case idField of
               Some f \<Rightarrow>
                 [(''_id'',
                   Type (if ftype f = ty_number
                         then (if useBigIntForNumberIDs payload then TBigInt else TNumber)
                         else TString))]
             | None \<Rightarrow> []);
          schemaFields =
            (case idField of
               Some f \<Rightarrow> filter (\<lambda>field. \<not> is_id field) configFields
             | None \<Rightarrow> configFields);
          schema = new_Schema fields (raw_options buildSchemaOptions);
          schema1 =
            fold (\<lambda>field s.
                    if fieldIsVirtual (attrs field) then s
                    else if \<not> fieldIsPresentationalOnly field
                    then addFieldSchema field s payload buildSchemaOptions parentIsLocalized
                    else s)
              schemaFields schema
      in compound_indexes compoundIndexes payload buildSchemaOptions schema1)"
| "array (Field ty a fs bs refs ts) schema payload buildSchemaOptions parentIsLocalized =
     (let field = Field ty a fs bs refs ts;
          baseSchema =
            AList.update ''type''
              (Arr [Sub (buildSchema
                 \<lparr>allowIDField = True, disableUnique = disableUnique buildSchemaOptions,
                  draftsEnabled = draftsEnabled buildSchemaOptions,
                  indexSortableFields = False, raw_options = Some nested_options\<rparr>
                 [] fs (parentIsLocalized \<or> localized a) payload)])
              (formatBaseSchema buildSchemaOptions field parentIsLocalized)
      in schema_add (field_name a)
           (localizeSchema a (Obj baseSchema) (localization payload) parentIsLocalized) schema)"
| "blocks (Field ty a fs bs refs ts) schema payload buildSchemaOptions parentIsLocalized =
     (let field = Field ty a fs bs refs ts;
          fieldSchema =
            AList.update ''type''
              (Arr [Sub (new_Schema []
                      (Some [(''_id'', Bool False), (''discriminatorKey'', Str ''blockType'')]))])
              (formatBaseSchema buildSchemaOptions field parentIsLocalized);
          schema1 =
            schema_add (field_name a)
              (localizeSchema a (Obj fieldSchema) (localization payload) parentIsLocalized) schema;
          step1 =
            fold (\<lambda>block (blocksToAdd, processedSlugs).
                    case block of Block sl bfs \<Rightarrow>
                      let blockSchema =
                            fold (\<lambda>blockField s.
                                    addFieldSchema blockField s payload buildSchemaOptions
                                      (parentIsLocalized \<or> localized a))
                              bfs (new_Schema [] (Some block_options))
                      in (blocksToAdd @ [(sl, True, Inline blockSchema)],
                          insert sl processedSlugs))
              bs ([], {});
          step2 =
            (case refs of
               NoReferences \<Rightarrow> step1
             | GlobalBlocks \<Rightarrow> blocks_global payload step1
             | References blockRefs \<Rightarrow>
                 fold (\<lambda>blockRef (blocksToAdd, processedSlugs).
                         case blockRef of
                           BlockRef (Block sl bfs) \<Rightarrow>
                             if sl \<notin> processedSlugs
                             then
                               let blockSchema =
                                     fold (\<lambda>blockField s.
                                             addFieldSchema blockField s payload buildSchemaOptions
                                               (parentIsLocalized \<or> localized a))
                                       bfs (new_Schema [] (Some block_options))
                               in (blocksToAdd @ [(sl, True, Inline blockSchema)],
                                   insert sl processedSlugs)
                             else (blocksToAdd, processedSlugs)
                         | SlugRef sl \<Rightarrow>
                             if sl \<notin> processedSlugs
                             then (case map_of (globalBlockSchemas payload) sl of
                                     Some preBuiltSchema \<Rightarrow>
                                       (blocksToAdd @ [(sl, False, Shell preBuiltSchema)],
                                        insert sl processedSlugs)
                                   | None \<Rightarrow> (blocksToAdd, processedSlugs))
                             else (blocksToAdd, processedSlugs))
                   blockRefs step1)
      in blocks_discriminators a payload parentIsLocalized (fst step2) schema1)"
| "collapsible (Field ty a fs bs refs ts) schema payload buildSchemaOptions parentIsLocalized =
     fold (\<lambda>subField s.
             if fieldIsVirtual (attrs subField) then s
             else addFieldSchema subField s payload buildSchemaOptions parentIsLocalized)
       fs schema"
| "group (Field ty a fs bs refs ts) schema payload buildSchemaOptions parentIsLocalized =
     (let field = Field ty a fs bs refs ts in
      if fieldAffectsData field
      then
        (let formattedBaseSchema = formatBaseSchema buildSchemaOptions field parentIsLocalized;
             indexSortable =
               (indexSortableFields buildSchemaOptions \<and> name a = Some ''version'' \<and>
                draftsEnabled buildSchemaOptions);
             baseSchema =
               AList.update ''type''
                 (Sub (buildSchema
                    \<lparr>allowIDField = False, disableUnique = disableUnique buildSchemaOptions,
                     draftsEnabled = draftsEnabled buildSchemaOptions,
                     indexSortableFields = indexSortable, raw_options = Some nested_options\<rparr>
                    [] fs (parentIsLocalized \<or> localized a) payload))
                 formattedBaseSchema
         in schema_add (field_name a)
              (localizeSchema a (Obj baseSchema) (localization payload) parentIsLocalized) schema)
      else
        fold (\<lambda>subField s.
                if fieldIsVirtual (attrs subField) then s
                else addFieldSchema subField s payload buildSchemaOptions
                       (parentIsLocalized \<or> localized a))
          fs schema)"
| "row (Field ty a fs bs refs ts) schema payload buildSchemaOptions parentIsLocalized =
     fold (\<lambda>subField s.
             if fieldIsVirtual (attrs subField) then s
             else addFieldSchema subField s payload buildSchemaOptions parentIsLocalized)
       fs schema"
| "tabs (Field ty a fs bs refs ts) schema payload buildSchemaOptions parentIsLocalized =
     fold (\<lambda>tab s.
             case tab of Tab ta tfs \<Rightarrow>
               if name ta \<noteq> None
               then
                 if fieldIsVirtual ta then s
                 else
                   (let baseSchema =
                          [(''type'',
                            Sub (buildSchema
                              \<lparr>allowIDField = False,
                               disableUnique = disableUnique buildSchemaOptions,
                               draftsEnabled = draftsEnabled buildSchemaOptions,
                               indexSortableFields = False,
                               raw_options = Some nested_options\<rparr>
                              [] tfs (parentIsLocalized \<or> localized ta) payload))]
                    in schema_add (field_name ta)
                         (localizeSchema ta (Obj baseSchema) (localization payload)
                            parentIsLocalized) s)
               else
                 fold (\<lambda>subField s'.
                         if fieldIsVirtual (attrs subField) then s'
                         else addFieldSchema subField s' payload buildSchemaOptions
                                (parentIsLocalized \<or> localized ta))
                   tfs s)
       ts schema"

  by pat_completeness auto


termination
  apply (relation "measure (\<lambda>x. case x of
            Inl (Inl (Inl (f, _))) \<Rightarrow> 3 * size f + 1
          | Inl (Inl (Inr (_, _, fs, _))) \<Rightarrow> 3 * size_list size fs + 2
          | Inl (Inr (Inl (f, _))) \<Rightarrow> 3 * size f
          | Inl (Inr (Inr (f, _))) \<Rightarrow> 3 * size f
          | Inr (Inl (Inl (f, _))) \<Rightarrow> 3 * size f
          | Inr (Inl (Inr (f, _))) \<Rightarrow> 3 * size f
          | Inr (Inr (Inl (f, _))) \<Rightarrow> 3 * size f
          | Inr (Inr (Inr (f, _))) \<Rightarrow> 3 * size f)")
                  apply simp
                 apply simp
                apply simp
               apply simp
              apply simp
             apply simp
            apply simp
  subgoal for buildSchemaOptions compoundIndexes configFields parentIsLocalized payload x xa xb xc xd xe xf
    using size_list_estimation'[of xe configFields "size xe" size]
    by (auto split: option.splits)
          apply (auto dest!: size_list_estimation'[where f = size, OF _ order_refl])
  done

section \<open>Polymorphic variant registry\<close>

text \<open>
  The store holds the schemas that are shared by reference, each at its address; a
  \<^verbatim>\<open>new mongoose.Schema\<close> for a shell takes the next free address.  The registry \<^verbatim>\<open>schemas\<close> is
  the \<^verbatim>\<open>Map\<close> from slug to shell.  Pass 1 creates an empty shell per global block, pass 2 runs
  the generators of each block's fields on the shell the registry holds for its slug.
\<close>

definition buildGlobalBlockSchemas ::
  "payload \<Rightarrow> buildSchemaOptions \<Rightarrow> schema list \<Rightarrow> (string \<times> nat) list \<times> schema list" where
  "buildGlobalBlockSchemas payload buildSchemaOptions store =
     (case config_blocks payload of
        None \<Rightarrow> ([], store)
      | Some bs \<Rightarrow>
          if length bs = 0 then ([], store)
          else
            (let pass1 =
                   fold (\<lambda>block (schemas, st).
                           (AList.update (slug block) (length st) schemas,
                            st @ [new_Schema [] (Some block_options)]))
                     bs ([], store);
                 schemas = fst pass1;
                 pass2 =
                   fold (\<lambda>block st.
                           case map_of schemas (slug block) of
                             Some blockSchema \<Rightarrow>
                               st[blockSchema :=
                                    fold (\<lambda>field s.
                                            if fieldIsVirtual (attrs field) then s
                                            else if \<not> fieldIsPresentationalOnly field
                                            then addFieldSchema field s payload
                                                   buildSchemaOptions False
                                            else s)
                                      (block_fields block) (st ! blockSchema)]
                           | None \<Rightarrow> st)
                     bs (snd pass1)
             in (schemas, pass2)))"

section \<open>Path map builder\<close>

text \<open>What a path map holds: a field, a variant, a tab, or a bare field list
  (\<^verbatim>\<open>{ fields }\<close>, the entry of a collection or global).\<close>

datatype entry = FieldEntry field | BlockEntry block | TabEntry tab | FieldsEntry "field list"

type_synonym schemaMap = "(string \<times> entry) list"

datatype error = MissingEditorProp | UnsanitizedEditor

text \<open>
  What a traversal is given besides the fields.  \<^verbatim>\<open>getFieldPaths\<close> of \<^verbatim>\<open>payload/shared\<close> is not
  among the sources and is a parameter: from the field, its index, the parent index path
  and the parent schema path it gives the index path and the schema path.  \<open>richText_case\<close>
  is the \<^verbatim>\<open>richText\<close> arm of the switch, the one arm in which the server and the client
  traversal differ.  \<open>env_blocks\<close> is \<^verbatim>\<open>config.blocks\<close>.
\<close>

record traverse_env =
  getFieldPaths :: "field \<Rightarrow> nat \<Rightarrow> string \<Rightarrow> string \<Rightarrow> string \<times> string"
  richText_case :: "field \<Rightarrow> string \<Rightarrow> schemaMap \<Rightarrow> error + schemaMap"
  env_blocks :: "block list option"

text \<open>The reserved root of the global variants: \<^verbatim>\<open>`__global_blocks__.${slug}`\<close>.\<close>

definition globalBlockSchemaPath :: "string \<Rightarrow> string" where
  "globalBlockSchemaPath sl = ''__global_blocks__.'' @ sl"

text \<open>
  The all-global arm: for every global block whose slug is not an inline slug, the entry
  stored under the reserved root, when there is one, is stored under the synthetic path too.
\<close>

definition reference_global_blocks ::
  "block list option \<Rightarrow> string set \<Rightarrow> string \<Rightarrow> schemaMap \<Rightarrow> schemaMap" where
  "reference_global_blocks config_bs inlineSlugs schemaPath m =
     (case config_bs of
        Some globals \<Rightarrow>
          fold (\<lambda>globalBlock sm.
                  if slug globalBlock \<notin> inlineSlugs
                  then (case map_of sm (globalBlockSchemaPath (slug globalBlock)) of
                          Some globalBlockSchema \<Rightarrow>
                            AList.update (schemaPath @ ''.'' @ slug globalBlock)
                              globalBlockSchema sm
                        | None \<Rightarrow> sm)
                  else sm)
            globals m
      | None \<Rightarrow> m)"

text \<open>
  \<^verbatim>\<open>traverseFields\<close>, from the field at position \<open>index\<close> on.  The server traversal
  (\<^verbatim>\<open>buildFieldSchemaMap\<close>) and the client traversal (\<^verbatim>\<open>buildClientFieldSchemaMap\<close>) are the same
  statements but for the \<^verbatim>\<open>richText\<close> arm, which the environment supplies.  An exception
  thrown in an arm ends the traversal: the result is \<open>Inl\<close> of it.
\<close>

function traverseFields ::
  "traverse_env \<Rightarrow> nat \<Rightarrow> field list \<Rightarrow> string \<Rightarrow> string \<Rightarrow> schemaMap \<Rightarrow> error + schemaMap"
and traverse_blocks ::
  "traverse_env \<Rightarrow> string \<Rightarrow> block list \<Rightarrow> schemaMap \<Rightarrow> error + schemaMap"
and traverse_references ::
  "traverse_env \<Rightarrow> string \<Rightarrow> string set \<Rightarrow> block_ref list \<Rightarrow> schemaMap \<Rightarrow> error + schemaMap"
and traverse_tabs ::
  "traverse_env \<Rightarrow> nat \<Rightarrow> tab list \<Rightarrow> string \<Rightarrow> string \<Rightarrow> schemaMap \<Rightarrow> error + schemaMap"
where
  "traverseFields env i [] parentIndexPath parentSchemaPath m = Inr m"
| "traverseFields env i (Field ty a fs bs refs ts # rest) parentIndexPath parentSchemaPath m =
     (let field = Field ty a fs bs refs ts;
          ps = getFieldPaths env field i (if name a \<noteq> None then [] else parentIndexPath)
                 parentSchemaPath;
          indexPath = fst ps;
          schemaPath = snd ps;
          m1 = AList.update schemaPath (FieldEntry field) m;
          r =
            (case ty of
               ty_array \<Rightarrow> traverseFields env 0 fs [] schemaPath m1
             | ty_blocks \<Rightarrow>
                 (case traverse_blocks env schemaPath bs m1 of
                    Inl e \<Rightarrow> Inl e
                  | Inr m2 \<Rightarrow>
                      (case refs of
                         GlobalBlocks \<Rightarrow>
                           Inr (reference_global_blocks (env_blocks env) (set (map slug bs))
                                  schemaPath m2)
                       | References rs \<Rightarrow>
                           traverse_references env schemaPath (set (map slug bs)) rs m2
                       | NoReferences \<Rightarrow> Inr m2))
             | ty_collapsible \<Rightarrow> traverseFields env 0 fs indexPath parentSchemaPath m1
             | ty_row \<Rightarrow> traverseFields env 0 fs indexPath parentSchemaPath m1
             | ty_group \<Rightarrow>
                 if fieldAffectsData field
                 then traverseFields env 0 fs [] schemaPath m1
                 else traverseFields env 0 fs indexPath parentSchemaPath m1
             | ty_richText \<Rightarrow> richText_case env field schemaPath m1
             | ty_tabs \<Rightarrow> traverse_tabs env 0 ts indexPath parentSchemaPath m1
             | _ \<Rightarrow> Inr m1)
      in case r of
           Inl e \<Rightarrow> Inl e
         | Inr m2 \<Rightarrow> traverseFields env (Suc i) rest parentIndexPath parentSchemaPath m2)"
| "traverse_blocks env schemaPath [] m = Inr m"
| "traverse_blocks env schemaPath (Block sl bfs # rest) m =
     (let blockSchemaPath = schemaPath @ ''.'' @ sl;
          m1 = AList.update blockSchemaPath (BlockEntry (Block sl bfs)) m
      in case traverseFields env 0 bfs [] blockSchemaPath m1 of
           Inl e \<Rightarrow> Inl e
         | Inr m2 \<Rightarrow> traverse_blocks env schemaPath rest m2)"
| "traverse_references env schemaPath inlineSlugs [] m = Inr m"
| "traverse_references env schemaPath inlineSlugs (SlugRef sl # rest) m =
     (if sl \<notin> inlineSlugs
      then (case map_of m (globalBlockSchemaPath sl) of
              Some globalBlockSchema \<Rightarrow>
                traverse_references env schemaPath inlineSlugs rest
                  (AList.update (schemaPath @ ''.'' @ sl) globalBlockSchema m)
            | None \<Rightarrow> traverse_references env schemaPath inlineSlugs rest m)
      else traverse_references env schemaPath inlineSlugs rest m)"
| "traverse_references env schemaPath inlineSlugs (BlockRef (Block sl bfs) # rest) m =
     (if sl \<notin> inlineSlugs
      then
        (let blockSchemaPath = schemaPath @ ''.'' @ sl;
             m1 = AList.update blockSchemaPath (BlockEntry (Block sl bfs)) m
         in case traverseFields env 0 bfs [] blockSchemaPath m1 of
              Inl e \<Rightarrow> Inl e
            | Inr m2 \<Rightarrow> traverse_references env schemaPath inlineSlugs rest m2)
      else traverse_references env schemaPath inlineSlugs rest m)"
| "traverse_tabs env tabIndex [] indexPath parentSchemaPath m = Inr m"
| "traverse_tabs env tabIndex (Tab ta tfs # rest) indexPath parentSchemaPath m =
     (let isNamedTab = (name ta \<noteq> None);
          ps = getFieldPaths env (Field ty_tab ta tfs [] NoReferences []) tabIndex indexPath
                 parentSchemaPath;
          tabIndexPath = fst ps;
          tabSchemaPath = snd ps;
          m1 = AList.update tabSchemaPath (TabEntry (Tab ta tfs)) m
      in case traverseFields env 0 tfs (if isNamedTab then [] else tabIndexPath)
                (if isNamedTab then tabSchemaPath else parentSchemaPath) m1 of
           Inl e \<Rightarrow> Inl e
         | Inr m2 \<Rightarrow> traverse_tabs env (Suc tabIndex) rest indexPath parentSchemaPath m2)"
  by pat_completeness auto

termination
  by (relation "measure (\<lambda>x. case x of
          Inl (Inl (_, _, fs, _)) \<Rightarrow> size_list size fs
        | Inl (Inr (_, _, bs, _)) \<Rightarrow> size_list size bs
        | Inr (Inl (_, _, _, rs, _)) \<Rightarrow> size_list size rs
        | Inr (Inr (_, _, ts, _)) \<Rightarrow> size_list size ts)") auto

text \<open>
  The \<^verbatim>\<open>richText\<close> arm of the server traversal.  \<open>generateSchemaMap\<close> stands for the editor's
  capability of that name, which ships with the editor and not with this repository.
\<close>

definition server_richText ::
  "(field \<Rightarrow> string \<Rightarrow> schemaMap \<Rightarrow> schemaMap) \<Rightarrow> field \<Rightarrow> string \<Rightarrow> schemaMap
     \<Rightarrow> error + schemaMap" where
  "server_richText generateSchemaMap field schemaPath m =
     (case editor (attrs field) of
        EditorMissing \<Rightarrow> Inl MissingEditorProp
      | EditorFunction \<Rightarrow> Inl UnsanitizedEditor
      | EditorWithSchemaMap \<Rightarrow> Inr (generateSchemaMap field schemaPath m)
      | EditorPlain \<Rightarrow> Inr m)"

text \<open>
  The \<^verbatim>\<open>richText\<close> arm of the client traversal: every entry of the server map under the
  field's path is converted and stored under the same path.  \<open>toClient\<close> stands for the
  conversion through \<^verbatim>\<open>createClientFields\<close>, which is not among the sources.
\<close>

definition client_richText ::
  "(entry \<Rightarrow> entry) \<Rightarrow> schemaMap \<Rightarrow> field \<Rightarrow> string \<Rightarrow> schemaMap \<Rightarrow> error + schemaMap" where
  "client_richText toClient serverMap field schemaPath m =
     (let richTextFieldSchemaMap =
            fold (\<lambda>(path, subField) rm.
                    if take (length (schemaPath @ ''.'')) path = schemaPath @ ''.''
                    then AList.update path subField rm else rm)
              serverMap []
      in Inr (fold (\<lambda>(path, subField). AList.update path (toClient subField))
                richTextFieldSchemaMap m))"

text \<open>A collection of the client configuration: its slug, its fields, and whether it
  authenticates with the local strategy (\<^verbatim>\<open>auth && !auth.disableLocalStrategy\<close>).\<close>

record client_collection =
  collection_slug :: string
  collection_fields :: "field list"
  local_auth :: bool

record client_global =
  global_slug :: string
  global_fields :: "field list"

record client_config =
  client_blocks :: "block list option"
  client_collections :: "client_collection list"
  client_globals :: "client_global list"

definition baseAuthFields :: "field list" where
  "baseAuthFields =
     [Field ty_text
        \<lparr>name = Some ''password'', localized = False, unique = False, index = None,
         required = True, hidden = False, virtual = False, hasMany = False,
         defaultValue = DefaultUndefined, options = [], relationTo = RelationMany [],
         editor = EditorMissing\<rparr> [] [] NoReferences [],
      Field ty_text
        \<lparr>name = Some ''confirm-password'', localized = False, unique = False, index = None,
         required = True, hidden = False, virtual = False, hasMany = False,
         defaultValue = DefaultUndefined, options = [], relationTo = RelationMany [],
         editor = EditorMissing\<rparr> [] [] NoReferences []]"

text \<open>
  \<^verbatim>\<open>buildClientFieldSchemaMap\<close>: the global blocks first, each under the reserved root and
  traversed there, then the fields of the collection or of the global.  An absent or empty
  slug is falsy.
\<close>

definition buildClientFieldSchemaMap ::
  "traverse_env \<Rightarrow> client_config \<Rightarrow> string option \<Rightarrow> string option \<Rightarrow> error + schemaMap" where
  "buildClientFieldSchemaMap env config collectionSlug globalSlug =
     (let globals_done =
            (case client_blocks config of
               Some bs \<Rightarrow>
                 fold (\<lambda>block r.
                         case r of
                           Inl e \<Rightarrow> Inl e
                         | Inr m \<Rightarrow>
                             traverseFields env 0 (block_fields block) []
                               (globalBlockSchemaPath (slug block))
                               (AList.update (globalBlockSchemaPath (slug block))
                                  (BlockEntry block) m))
                   bs (Inr [])
             | None \<Rightarrow> Inr [])
      in case globals_done of
           Inl e \<Rightarrow> Inl e
         | Inr m \<Rightarrow>
             (case (if collectionSlug = Some [] then None else collectionSlug) of
                Some cs \<Rightarrow>
                  (case find (\<lambda>c. collection_slug c = cs) (client_collections config) of
                     Some matchedCollection \<Rightarrow>
                       (let fieldsToSet =
                              (if local_auth matchedCollection
                               then collection_fields matchedCollection @ baseAuthFields
                               else collection_fields matchedCollection)
                        in traverseFields env 0 fieldsToSet [] cs
                             (AList.update cs (FieldsEntry fieldsToSet) m))
                   | None \<Rightarrow> Inr m)
              | None \<Rightarrow>
                  (case (if globalSlug = Some [] then None else globalSlug) of
                     Some gs \<Rightarrow>
                       (case find (\<lambda>g. global_slug g = gs) (client_globals config) of
                          Some matchedGlobal \<Rightarrow>
                            traverseFields env 0 (global_fields matchedGlobal) [] gs
                              (AList.update gs (FieldsEntry (global_fields matchedGlobal)) m)
                        | None \<Rightarrow> Inr m)
                   | None \<Rightarrow> Inr m)))"

section \<open>Reading a compiled schema\<close>

text \<open>A property read \<^verbatim>\<open>object.key\<close>: \<^verbatim>\<open>undefined\<close> when the key is absent or the value no object.\<close>

definition get_key :: "string \<Rightarrow> descriptor \<Rightarrow> descriptor" where
  "get_key key d =
     (case d of
        Obj kvs \<Rightarrow> (case map_of kvs key of Some v \<Rightarrow> v | None \<Rightarrow> Undefined)
      | _ \<Rightarrow> Undefined)"

text \<open>The descriptor a schema holds for a path: the one added last.\<close>

definition schema_path :: "schema \<Rightarrow> string \<Rightarrow> descriptor" where
  "schema_path s key =
     (case map_of (rev (paths s)) key of Some d \<Rightarrow> d | None \<Rightarrow> Undefined)"

text \<open>
  Whether a descriptor, or a descriptor anywhere below it, says \<^verbatim>\<open>required: true\<close>.  Default
  values are data, not descriptors, and are not searched; a shell is looked at where it is
  stored, not where it is referenced.
\<close>

fun enforces_required :: "descriptor \<Rightarrow> bool"
and schema_enforces_required :: "schema \<Rightarrow> bool"
and ref_enforces_required :: "schema_ref \<Rightarrow> bool" where
  "enforces_required (Arr ds) = (\<exists>d \<in> set ds. enforces_required d)"
| "enforces_required (Obj kvs) =
     (\<exists>kv \<in> set kvs. (fst kv = ''required'' \<and> snd kv = Bool True) \<or> enforces_required (snd kv))"
| "enforces_required (Sub s) = schema_enforces_required s"
| "enforces_required d = False"
| "schema_enforces_required (Schema so ps is ds) =
     ((\<exists>kv \<in> set ps. enforces_required (snd kv)) \<or>
      (\<exists>d \<in> set ds. ref_enforces_required (snd (snd d))))"
| "ref_enforces_required (Inline s) = schema_enforces_required s"
| "ref_enforces_required (Shell a) = False"

text \<open>
  Whether a descriptor, or a descriptor anywhere below it, says \<^verbatim>\<open>sparse: true\<close>: in the
  descriptor itself, in the element of an array type, or in the copy held for a locale.
\<close>

fun carries_sparse :: "descriptor \<Rightarrow> bool"
and schema_carries_sparse :: "schema \<Rightarrow> bool"
and ref_carries_sparse :: "schema_ref \<Rightarrow> bool" where
  "carries_sparse (Arr ds) = (\<exists>d \<in> set ds. carries_sparse d)"
| "carries_sparse (Obj kvs) =
     (\<exists>kv \<in> set kvs. (fst kv = ''sparse'' \<and> snd kv = Bool True) \<or> carries_sparse (snd kv))"
| "carries_sparse (Sub s) = schema_carries_sparse s"
| "carries_sparse d = False"
| "schema_carries_sparse (Schema so ps is ds) =
     ((\<exists>kv \<in> set ps. carries_sparse (snd kv)) \<or>
      (\<exists>d \<in> set ds. ref_carries_sparse (snd (snd d))))"
| "ref_carries_sparse (Inline s) = schema_carries_sparse s"
| "ref_carries_sparse (Shell a) = False"

text \<open>A descriptor with the key \<^verbatim>\<open>sparse\<close> removed from every object in it.\<close>

fun erase_sparse :: "descriptor \<Rightarrow> descriptor"
and schema_erase_sparse :: "schema \<Rightarrow> schema"
and ref_erase_sparse :: "schema_ref \<Rightarrow> schema_ref" where
  "erase_sparse (Arr ds) = Arr (map erase_sparse ds)"
| "erase_sparse (Obj kvs) =
     Obj (map (\<lambda>kv. (fst kv, erase_sparse (snd kv))) (filter (\<lambda>kv. fst kv \<noteq> ''sparse'') kvs))"
| "erase_sparse (Sub s) = Sub (schema_erase_sparse s)"
| "erase_sparse d = d"
| "schema_erase_sparse (Schema so ps is ds) =
     Schema so (map (\<lambda>kv. (fst kv, erase_sparse (snd kv))) ps) is
       (map (\<lambda>d. (fst d, fst (snd d), ref_erase_sparse (snd (snd d)))) ds)"
| "ref_erase_sparse (Inline s) = Inline (schema_erase_sparse s)"
| "ref_erase_sparse (Shell a) = Shell a"


text \<open>A field tree with every \<^verbatim>\<open>localized\<close> flag cleared, on fields and on tabs alike.\<close>

fun unlocalize :: "field \<Rightarrow> field"
and unlocalize_block :: "block \<Rightarrow> block"
and unlocalize_tab :: "tab \<Rightarrow> tab"
and unlocalize_references :: "block_references \<Rightarrow> block_references"
and unlocalize_ref :: "block_ref \<Rightarrow> block_ref" where
  "unlocalize (Field ty a fs bs refs ts) =
     Field ty (a\<lparr>localized := False\<rparr>) (map unlocalize fs) (map unlocalize_block bs)
       (unlocalize_references refs) (map unlocalize_tab ts)"
| "unlocalize_block (Block sl bfs) = Block sl (map unlocalize bfs)"
| "unlocalize_tab (Tab ta tfs) = Tab (ta\<lparr>localized := False\<rparr>) (map unlocalize tfs)"
| "unlocalize_references NoReferences = NoReferences"
| "unlocalize_references GlobalBlocks = GlobalBlocks"
| "unlocalize_references (References rs) = References (map unlocalize_ref rs)"
| "unlocalize_ref (SlugRef sl) = SlugRef sl"
| "unlocalize_ref (BlockRef b) = BlockRef (unlocalize_block b)"

section \<open>Terms of the specification\<close>

text \<open>
  Modelled from the spec: the glossary's term \<^emph>\<open>localization-effective\<close>, "true when a field is
  marked localized and the model has an active locale set".  It is no function of the code;
  it is here to be compared with what the code tests.
\<close>

definition spec_localization_effective :: "attrs \<Rightarrow> payload \<Rightarrow> bool" where
  "spec_localization_effective a payload = (localized a \<and> localization payload \<noteq> None)"

section \<open>Example configurations\<close>

text \<open>A field with no attribute set, the payload of a configuration that declares nothing,
  and the build options all absent.\<close>

definition empty_attrs :: attrs where
  "empty_attrs =
     \<lparr>name = None, localized = False, unique = False, index = None, required = False,
      hidden = False, virtual = False, hasMany = False, defaultValue = DefaultUndefined,
      options = [], relationTo = RelationMany [], editor = EditorMissing\<rparr>"

definition named :: "string \<Rightarrow> attrs" where
  "named n = empty_attrs\<lparr>name := Some n\<rparr>"

definition bare_payload :: payload where
  "bare_payload =
     \<lparr>localization = None, config_blocks = None, collections = [],
      useBigIntForNumberIDs = False, globalBlockSchemas = []\<rparr>"

definition no_options :: buildSchemaOptions where
  "no_options =
     \<lparr>allowIDField = False, disableUnique = False, draftsEnabled = False,
      indexSortableFields = False, raw_options = None\<rparr>"

text \<open>A traversal environment for the examples: a named field lies under its parent's schema
  path at its name, an unnamed one at its parent's paths; rich text fields add nothing and
  there are no global blocks.\<close>

definition example_env :: traverse_env where
  "example_env =
     \<lparr>getFieldPaths =
        (\<lambda>field i parentIndexPath parentSchemaPath.
           case name (attrs field) of
             Some n \<Rightarrow> ([], parentSchemaPath @ ''.'' @ n)
           | None \<Rightarrow> (parentIndexPath, parentSchemaPath)),
      richText_case = (\<lambda>field schemaPath m. Inr m),
      env_blocks = None\<rparr>"

section \<open>Properties of the variant resolver\<close>

lemma resolve_references_find:
  "resolve_references blockType refs payload =
     (case find (\<lambda>r. ref_slug r = blockType) refs of
        None \<Rightarrow> None
      | Some (SlugRef r) \<Rightarrow>
          find (\<lambda>b. slug b = blockType)
            (case config_blocks payload of Some bs \<Rightarrow> bs | None \<Rightarrow> [])
      | Some (BlockRef b) \<Rightarrow> Some b)"
  by (induction blockType refs payload rule: resolve_references.induct)
     (simp_all split: option.split)

lemma find_slug_None_iff:
  "find (\<lambda>b. slug b = blockType) bs = None \<longleftrightarrow> blockType \<notin> set (map slug bs)"
  by (auto simp: find_None_iff)

lemma resolveBlock_find:
  "resolveBlock blockType field payload =
     (case find (\<lambda>b. slug b = blockType) (field_blocks field) of
        Some inlineBlock \<Rightarrow> Some inlineBlock
      | None \<Rightarrow>
          (case blockReferences field of
             NoReferences \<Rightarrow> None
           | GlobalBlocks \<Rightarrow>
               find (\<lambda>b. slug b = blockType)
                 (case config_blocks payload of Some bs \<Rightarrow> bs | None \<Rightarrow> [])
           | References refs \<Rightarrow>
               (case find (\<lambda>r. ref_slug r = blockType) refs of
                  None \<Rightarrow> None
                | Some (SlugRef r) \<Rightarrow>
                    find (\<lambda>b. slug b = blockType)
                      (case config_blocks payload of Some bs \<Rightarrow> bs | None \<Rightarrow> [])
                | Some (BlockRef b) \<Rightarrow> Some b)))"
proof -
  have g: "(case config_blocks payload of
                  Some bs \<Rightarrow> find (\<lambda>b. slug b = blockType) bs
                | None \<Rightarrow> None)
         = find (\<lambda>b. slug b = blockType)
                 (case config_blocks payload of Some bs \<Rightarrow> bs | None \<Rightarrow> [])"
    by (cases "config_blocks payload") simp_all
  show ?thesis
    unfolding resolveBlock_def g resolve_references_find
    by (cases "blockReferences field") simp_all
qed


lemma resolveBlock_None_iff:
  "resolveBlock blockType field payload = None \<longleftrightarrow>
        blockType \<notin> set (map slug (field_blocks field)) \<and>
        (case blockReferences field of
           NoReferences \<Rightarrow> True
         | GlobalBlocks \<Rightarrow>
             blockType \<notin> set (map slug (case config_blocks payload of Some bs \<Rightarrow> bs | None \<Rightarrow> []))
         | References refs \<Rightarrow>
             (case find (\<lambda>r. ref_slug r = blockType) refs of
                None \<Rightarrow> True
              | Some (SlugRef r) \<Rightarrow>
                  blockType \<notin> set (map slug (case config_blocks payload of
                                                 Some bs \<Rightarrow> bs | None \<Rightarrow> []))
              | Some (BlockRef b) \<Rightarrow> False))"
proof (cases "find (\<lambda>b. slug b = blockType) (field_blocks field)")
  case (Some inlineBlock)
  have "blockType \<in> set (map slug (field_blocks field))"
    using find_slug_None_iff[of blockType "field_blocks field"] Some by simp
  then show ?thesis by (simp only: resolveBlock_find Some option.case) simp
next
  case None
  have inl: "blockType \<notin> set (map slug (field_blocks field))"
    using find_slug_None_iff[of blockType "field_blocks field"] None by blast
  show ?thesis
  proof (cases "blockReferences field")
    case NoReferences
    show ?thesis
      by (simp only: resolveBlock_find None NoReferences option.case block_references.case inl)
         simp
  next
    case GlobalBlocks
    show ?thesis
      by (simp only: resolveBlock_find None GlobalBlocks option.case block_references.case
            find_slug_None_iff inl) simp
  next
    case (References refs)
    show ?thesis
    proof (cases "find (\<lambda>r. ref_slug r = blockType) refs")
      case none: None
      show ?thesis
        by (simp only: resolveBlock_find None References none option.case
              block_references.case inl) simp
    next
      case (Some r)
      show ?thesis
      proof (cases r)
        case (SlugRef x)
        show ?thesis
          by (simp only: resolveBlock_find None References Some SlugRef option.case
                block_references.case block_ref.case find_slug_None_iff inl) simp
      next
        case (BlockRef b)
        show ?thesis
          by (simp only: resolveBlock_find None References Some BlockRef option.case
                block_references.case block_ref.case inl) simp
      qed
    qed
  qed
qed


lemma resolve_references_None:
  "blockType \<notin> set (map ref_slug refs) \<Longrightarrow> resolve_references blockType refs payload = None"
  by (induction blockType refs payload rule: resolve_references.induct) auto

lemma resolve_references_slug:
  "resolve_references blockType refs payload = Some b \<Longrightarrow> slug b = blockType"
  by (induction blockType refs payload rule: resolve_references.induct)
     (auto split: if_splits option.splits dest: find_Some_iff[THEN iffD1])

lemma find_slug_None: "blockType \<notin> set (map slug bs) \<Longrightarrow> find (\<lambda>b. slug b = blockType) bs = None"
  by (auto simp: find_None_iff)

lemma resolve_references_unregistered:
  assumes "blockType \<notin> set (map slug (case config_blocks payload of Some bs \<Rightarrow> bs | None \<Rightarrow> []))"
    and "blockType \<notin> set (map slug [b. BlockRef b \<leftarrow> refs])"
  shows "resolve_references blockType refs payload = None"
  using assms
proof (induction blockType refs payload rule: resolve_references.induct)
  case (1 blockType payload)
  then show ?case by simp
next
  case (2 blockType r refs payload)
  then show ?case
    by (cases "config_blocks payload") (simp_all add: find_slug_None del: set_map)
next
  case (3 blockType r refs payload)
  then show ?case by auto
qed

text \<open>
  Claim C7.  Every path of \<^verbatim>\<open>resolveBlock\<close> returns a variant or the not-found value; none
  raises.  The result is not-found exactly when no inline variant of the field has the wanted
  slug and the reference policy gives none either: the field has no policy; the policy is
  all-global and no global variant has the slug; or the policy is an explicit subset in which
  no entry has the slug, or in which the first entry with the slug is a slug string and no
  global variant has the slug.  In particular, for a slug that is not an inline slug, an
  explicit subset that does not list the slug resolves to not-found whatever the global
  variants are (so also when one of them has the slug), and so does an explicit subset when
  neither a global variant nor a listed object has the slug, listed as a string or not.
  Whatever is returned carries the wanted slug.
\<close>

theorem resolveBlock_not_found:
  "(resolveBlock blockType field payload = None \<longleftrightarrow>
        blockType \<notin> set (map slug (field_blocks field)) \<and>
        (case blockReferences field of
           NoReferences \<Rightarrow> True
         | GlobalBlocks \<Rightarrow>
             blockType \<notin> set (map slug (case config_blocks payload of Some bs \<Rightarrow> bs | None \<Rightarrow> []))
         | References refs \<Rightarrow>
             (case find (\<lambda>r. ref_slug r = blockType) refs of
                None \<Rightarrow> True
              | Some (SlugRef r) \<Rightarrow>
                  blockType \<notin> set (map slug (case config_blocks payload of
                                                 Some bs \<Rightarrow> bs | None \<Rightarrow> []))
              | Some (BlockRef b) \<Rightarrow> False)))
   \<and> (blockType \<notin> set (map slug (field_blocks field)) \<longrightarrow>
        (blockReferences field = NoReferences \<longrightarrow> resolveBlock blockType field payload = None)
      \<and> (blockReferences field = GlobalBlocks \<and>
            blockType \<notin> set (map slug (case config_blocks payload of Some bs \<Rightarrow> bs | None \<Rightarrow> []))
            \<longrightarrow> resolveBlock blockType field payload = None)
      \<and> (\<forall>refs. blockReferences field = References refs \<and> blockType \<notin> set (map ref_slug refs)
            \<longrightarrow> resolveBlock blockType field payload = None)
      \<and> (\<forall>refs. blockReferences field = References refs \<and>
            blockType \<notin> set (map slug (case config_blocks payload of Some bs \<Rightarrow> bs | None \<Rightarrow> [])) \<and>
            blockType \<notin> set (map slug [b. BlockRef b \<leftarrow> refs])
            \<longrightarrow> resolveBlock blockType field payload = None))
   \<and> (\<forall>b. resolveBlock blockType field payload = Some b \<longrightarrow> slug b = blockType)"
proof (intro conjI)
  show "resolveBlock blockType field payload = None \<longleftrightarrow>
        blockType \<notin> set (map slug (field_blocks field)) \<and>
        (case blockReferences field of
           NoReferences \<Rightarrow> True
         | GlobalBlocks \<Rightarrow>
             blockType \<notin> set (map slug (case config_blocks payload of Some bs \<Rightarrow> bs | None \<Rightarrow> []))
         | References refs \<Rightarrow>
             (case find (\<lambda>r. ref_slug r = blockType) refs of
                None \<Rightarrow> True
              | Some (SlugRef r) \<Rightarrow>
                  blockType \<notin> set (map slug (case config_blocks payload of
                                                 Some bs \<Rightarrow> bs | None \<Rightarrow> []))
              | Some (BlockRef b) \<Rightarrow> False))"
    by (rule resolveBlock_None_iff)
  have found: "slug b = blockType" if "resolveBlock blockType field payload = Some b" for b
    using that
    by (auto simp: resolveBlock_def split: option.splits block_references.splits
          dest: resolve_references_slug find_Some_iff[THEN iffD1])
  then show "\<forall>b. resolveBlock blockType field payload = Some b \<longrightarrow> slug b = blockType"
    by blast
  show "blockType \<notin> set (map slug (field_blocks field)) \<longrightarrow>
        (blockReferences field = NoReferences \<longrightarrow> resolveBlock blockType field payload = None)
      \<and> (blockReferences field = GlobalBlocks \<and>
            blockType \<notin> set (map slug (case config_blocks payload of Some bs \<Rightarrow> bs | None \<Rightarrow> []))
            \<longrightarrow> resolveBlock blockType field payload = None)
      \<and> (\<forall>refs. blockReferences field = References refs \<and> blockType \<notin> set (map ref_slug refs)
            \<longrightarrow> resolveBlock blockType field payload = None)
      \<and> (\<forall>refs. blockReferences field = References refs \<and>
            blockType \<notin> set (map slug (case config_blocks payload of Some bs \<Rightarrow> bs | None \<Rightarrow> [])) \<and>
            blockType \<notin> set (map slug [b. BlockRef b \<leftarrow> refs])
            \<longrightarrow> resolveBlock blockType field payload = None)"
  proof (intro impI conjI allI)
    assume "blockType \<notin> set (map slug (field_blocks field))"
    then have inline: "find (\<lambda>b. slug b = blockType) (field_blocks field) = None"
      by (rule find_slug_None)
    show "resolveBlock blockType field payload = None" if "blockReferences field = NoReferences"
      using that by (simp add: resolveBlock_def inline)
    show "resolveBlock blockType field payload = None"
      if "blockReferences field = GlobalBlocks \<and>
          blockType \<notin> set (map slug (case config_blocks payload of Some bs \<Rightarrow> bs | None \<Rightarrow> []))"
      using that
      by (cases "config_blocks payload") (simp_all add: resolveBlock_def inline find_slug_None)
    show "resolveBlock blockType field payload = None"
      if "blockReferences field = References refs \<and> blockType \<notin> set (map ref_slug refs)" for refs
      using that by (simp add: resolveBlock_def inline resolve_references_None)
    show "resolveBlock blockType field payload = None"
      if "blockReferences field = References refs \<and>
            blockType \<notin> set (map slug (case config_blocks payload of Some bs \<Rightarrow> bs | None \<Rightarrow> [])) \<and>
            blockType \<notin> set (map slug [b. BlockRef b \<leftarrow> refs])" for refs
      using that resolve_references_unregistered[of blockType payload refs]
      by (simp add: resolveBlock_def inline)
  qed
qed


theorem resolveBlock_not_found_witness:
  "resolveBlock ''block3''
     (Field ty_blocks (named ''layout'') [] [] (References [SlugRef ''block2'']) [])
     (bare_payload\<lparr>config_blocks := Some [Block ''block2'' [], Block ''block3'' []]\<rparr>) = None
   \<and> resolveBlock ''ghost''
     (Field ty_blocks (named ''layout'') [] [] (References [SlugRef ''ghost'']) [])
     (bare_payload\<lparr>config_blocks := Some [Block ''block2'' [], Block ''block3'' []]\<rparr>) = None"
proof
  show "resolveBlock ''block3''
     (Field ty_blocks (named ''layout'') [] [] (References [SlugRef ''block2'']) [])
     (bare_payload\<lparr>config_blocks := Some [Block ''block2'' [], Block ''block3'' []]\<rparr>) = None"
    using resolveBlock_not_found
      [of "''block3''"
          "Field ty_blocks (named ''layout'') [] [] (References [SlugRef ''block2'']) []"
          "bare_payload\<lparr>config_blocks := Some [Block ''block2'' [], Block ''block3'' []]\<rparr>",
       THEN conjunct1]
    by simp
  show "resolveBlock ''ghost''
     (Field ty_blocks (named ''layout'') [] [] (References [SlugRef ''ghost'']) [])
     (bare_payload\<lparr>config_blocks := Some [Block ''block2'' [], Block ''block3'' []]\<rparr>) = None"
    using resolveBlock_not_found
      [of "''ghost''"
          "Field ty_blocks (named ''layout'') [] [] (References [SlugRef ''ghost'']) []"
          "bare_payload\<lparr>config_blocks := Some [Block ''block2'' [], Block ''block3'' []]\<rparr>",
       THEN conjunct1]
    by simp
qed

lemma fold_push_filter:
  "fold (\<lambda>x result. if P x then result @ [f x] else result) xs acc = acc @ map f (filter P xs)"
  by (induction xs arbitrary: acc) auto

lemma getBlocksForField_list:
  "getBlocksForField field payload =
     map BlockRef (field_blocks field) @
     (case blockReferences field of
        NoReferences \<Rightarrow> []
      | GlobalBlocks \<Rightarrow>
          map BlockRef
            (filter (\<lambda>globalBlock. slug globalBlock \<notin> set (map slug (field_blocks field)))
               (case config_blocks payload of Some bs \<Rightarrow> bs | None \<Rightarrow> []))
      | References refs \<Rightarrow>
          filter (\<lambda>r. ref_slug r \<notin> set (map slug (field_blocks field))) refs)"
  using fold_push_filter[where f = "\<lambda>r. r"]
  by (simp add: getBlocksForField_def fold_push_filter split: block_references.split)

lemma getBlocksForField_slugs:
  "map ref_slug (getBlocksForField field payload) =
     map slug (field_blocks field) @
     (case blockReferences field of
        NoReferences \<Rightarrow> []
      | GlobalBlocks \<Rightarrow>
          filter (\<lambda>s. s \<notin> set (map slug (field_blocks field)))
            (map slug (case config_blocks payload of Some bs \<Rightarrow> bs | None \<Rightarrow> []))
      | References refs \<Rightarrow>
          filter (\<lambda>s. s \<notin> set (map slug (field_blocks field))) (map ref_slug refs))"
  by (simp add: getBlocksForField_list comp_def filter_map split: block_references.split)

lemma getBlocksForField_slug_set:
  "set (map ref_slug (getBlocksForField field payload)) =
     set (map slug (field_blocks field)) \<union>
     (case blockReferences field of
        NoReferences \<Rightarrow> {}
      | GlobalBlocks \<Rightarrow>
          set (map slug (case config_blocks payload of Some bs \<Rightarrow> bs | None \<Rightarrow> []))
      | References refs \<Rightarrow> set (map ref_slug refs))"
  unfolding getBlocksForField_slugs
  by (cases "blockReferences field") auto

lemma find_distinct_slug:
  "distinct (map slug bs) \<Longrightarrow> b \<in> set bs \<Longrightarrow> find (\<lambda>x. slug x = slug b) bs = Some b"
  by (induction bs) (auto simp: image_iff)

lemma count_list_distinct: "distinct xs \<Longrightarrow> x \<in> set xs \<Longrightarrow> count_list xs x = 1"
  by (induction xs) auto

text \<open>
  Claim C2, as amended.  When the inline variants of a field have pairwise distinct slugs,
  every inline variant resolves to itself under its slug, whatever the reference policy and
  the global variants are, and its slug is listed exactly once by \<^verbatim>\<open>getBlocksForField\<close>.  The
  list is the inline variants in declaration order followed by the referenced entries whose
  slug is not an inline slug, in their own order: the global variants under the all-global
  policy, the listed entries under an explicit subset; its slugs are the inline slugs and
  the referenced slugs.  The list has no repeated slug provided the referenced entries have
  pairwise distinct slugs themselves: the function filters referenced entries against the
  inline slugs only.
\<close>

theorem getBlocksForField_precedence:
  assumes "distinct (map slug (field_blocks field))"
  shows "(\<forall>b \<in> set (field_blocks field).
            resolveBlock (slug b) field payload = Some b \<and>
            count_list (map ref_slug (getBlocksForField field payload)) (slug b) = 1)
       \<and> getBlocksForField field payload =
            map BlockRef (field_blocks field) @
            (case blockReferences field of
               NoReferences \<Rightarrow> []
             | GlobalBlocks \<Rightarrow>
                 map BlockRef
                   (filter (\<lambda>globalBlock.
                              slug globalBlock \<notin> set (map slug (field_blocks field)))
                      (case config_blocks payload of Some bs \<Rightarrow> bs | None \<Rightarrow> []))
             | References refs \<Rightarrow>
                 filter (\<lambda>r. ref_slug r \<notin> set (map slug (field_blocks field))) refs)
       \<and> set (map ref_slug (getBlocksForField field payload)) =
            set (map slug (field_blocks field)) \<union>
            (case blockReferences field of
               NoReferences \<Rightarrow> {}
             | GlobalBlocks \<Rightarrow>
                 set (map slug (case config_blocks payload of Some bs \<Rightarrow> bs | None \<Rightarrow> []))
             | References refs \<Rightarrow> set (map ref_slug refs))
       \<and> (blockReferences field = NoReferences \<longrightarrow>
            distinct (map ref_slug (getBlocksForField field payload)))
       \<and> (blockReferences field = GlobalBlocks \<and>
            distinct (map slug (case config_blocks payload of Some bs \<Rightarrow> bs | None \<Rightarrow> []))
            \<longrightarrow> distinct (map ref_slug (getBlocksForField field payload)))
       \<and> (\<forall>refs. blockReferences field = References refs \<and> distinct (map ref_slug refs)
            \<longrightarrow> distinct (map ref_slug (getBlocksForField field payload)))
       \<and> take (length (field_blocks field)) (getBlocksForField field payload)
            = map BlockRef (field_blocks field)"
proof -
  let ?inline = "map slug (field_blocks field)"
  have resolve: "resolveBlock (slug b) field payload = Some b" if "b \<in> set (field_blocks field)" for b
    using assms that by (simp add: resolveBlock_def find_distinct_slug)
  have once: "count_list (map ref_slug (getBlocksForField field payload)) (slug b) = 1"
    if "b \<in> set (field_blocks field)" for b
  proof -
    have "slug b \<in> set ?inline" using that by simp
    then have "count_list ?inline (slug b) = 1"
      using assms by (simp add: count_list_distinct)
    moreover have "count_list (filter (\<lambda>s. s \<notin> set ?inline) xs) (slug b) = 0" for xs
      using \<open>slug b \<in> set ?inline\<close> by (simp add: count_list_0_iff)
    ultimately show ?thesis
      by (simp add: getBlocksForField_slugs split: block_references.split)
  qed
  have dist: "distinct (?inline @ filter (\<lambda>s. s \<notin> set ?inline) xs)" if "distinct xs" for xs
    using assms that by auto
  have prefix: "take (length (field_blocks field)) (getBlocksForField field payload)
            = map BlockRef (field_blocks field)"
    by (simp add: getBlocksForField_list)
  have d1: "blockReferences field = NoReferences \<longrightarrow>
            distinct (map ref_slug (getBlocksForField field payload))"
    using assms by (simp add: getBlocksForField_slugs)
  have d2: "blockReferences field = GlobalBlocks \<and>
            distinct (map slug (case config_blocks payload of Some bs \<Rightarrow> bs | None \<Rightarrow> []))
            \<longrightarrow> distinct (map ref_slug (getBlocksForField field payload))"
    using dist by (simp add: getBlocksForField_slugs del: distinct_append set_map)
  have d3: "\<forall>refs. blockReferences field = References refs \<and> distinct (map ref_slug refs)
            \<longrightarrow> distinct (map ref_slug (getBlocksForField field payload))"
    using dist by (simp add: getBlocksForField_slugs del: distinct_append set_map)
  show ?thesis
    using resolve once getBlocksForField_list[of field payload]
      getBlocksForField_slug_set[of field payload] d1 d2 d3 prefix
    by blast
qed

theorem getBlocksForField_precedence_witness:
  "resolveBlock ''block2''
     (Field ty_blocks (named ''layout'') []
        [Block ''block2'' [Field ty_text (named ''customField'') [] [] NoReferences []]]
        GlobalBlocks [])
     (bare_payload\<lparr>config_blocks := Some [Block ''block2'' [], Block ''block3'' []]\<rparr>)
     = Some (Block ''block2'' [Field ty_text (named ''customField'') [] [] NoReferences []])
   \<and> getBlocksForField
        (Field ty_blocks (named ''layout'') []
          [Block ''block2'' [Field ty_text (named ''customField'') [] [] NoReferences []]]
          GlobalBlocks [])
        (bare_payload\<lparr>config_blocks := Some [Block ''block2'' [], Block ''block3'' []]\<rparr>)
     = [BlockRef (Block ''block2'' [Field ty_text (named ''customField'') [] [] NoReferences []]),
        BlockRef (Block ''block3'' [])]"
proof -
  let ?f = "Field ty_blocks (named ''layout'') []
          [Block ''block2'' [Field ty_text (named ''customField'') [] [] NoReferences []]]
          GlobalBlocks []"
  let ?p = "bare_payload\<lparr>config_blocks := Some [Block ''block2'' [], Block ''block3'' []]\<rparr>"
  have d: "distinct (map slug (field_blocks ?f))" by simp
  note t = getBlocksForField_precedence[OF d, of ?p]
  have 1: "resolveBlock ''block2'' ?f ?p
     = Some (Block ''block2'' [Field ty_text (named ''customField'') [] [] NoReferences []])"
    using t[THEN conjunct1] by simp
  have 2: "getBlocksForField ?f ?p
     = [BlockRef (Block ''block2'' [Field ty_text (named ''customField'') [] [] NoReferences []]),
        BlockRef (Block ''block3'' [])]"
    using t[THEN conjunct2, THEN conjunct1] by simp
  show ?thesis using 1 2 by (rule conjI)
qed

text \<open>
  The claim as stated fails for an explicit subset that lists a slug and an inline object
  of the same slug: both are returned.
\<close>

theorem getBlocksForField_duplicate_counterexample:
  "\<not> distinct (map ref_slug (getBlocksForField
       (Field ty_blocks (named ''layout'') [] []
          (References [SlugRef ''hero'', BlockRef (Block ''hero'' [])]) [])
       (bare_payload\<lparr>config_blocks := Some [Block ''hero'' []]\<rparr>)))"
  by (simp add: getBlocksForField_def)

section \<open>Properties of the leaf descriptors\<close>

lemma formatBaseSchema_required:
  "map_of (formatBaseSchema buildSchemaOptions field parentIsLocalized) ''required'' = Some (Bool False)"
  by (simp add: formatBaseSchema_def Let_def update_conv')

lemma indexes_schema_add [simp]: "indexes (schema_add k d s) = indexes s"
  by (simp add: schema_add_def)

lemma indexes_schema_index [simp]:
  "indexes (schema_index fs opts s) = indexes s @ [\<lparr>index_fields = fs, index_options = opts\<rparr>]"
  by (simp add: schema_index_def)

lemma indexes_fold_schema_index:
  "indexes (fold (\<lambda>x. schema_index (f x) opts) xs s)
     = indexes s @ map (\<lambda>x. \<lparr>index_fields = f x, index_options = opts\<rparr>) xs"
  by (induction xs arbitrary: s) simp_all

lemma schema_path_schema_add: "schema_path (schema_add k d s) k = d"
  by (simp add: schema_path_def schema_add_def)

lemma paths_schema_index: "paths (schema_index fs opts s) = paths s"
  by (simp add: schema_index_def)

lemma schema_path_schema_index: "schema_path (schema_index fs opts s) k = schema_path s k"
  by (simp add: schema_path_def schema_index_def)

lemma schema_path_fold_schema_index:
  "schema_path (fold (\<lambda>x. schema_index (g x) opts) xs s) k = schema_path s k"
  by (induction xs arbitrary: s) (simp_all add: schema_path_schema_index)

lemma update_fresh: "k \<notin> fst ` set al \<Longrightarrow> AList.update k v al = al @ [(k, v)]"
  by (induction al) auto

lemma carries_update_fresh:
  "k \<notin> fst ` set al \<Longrightarrow>
   carries_sparse (Obj (AList.update k v al)) \<longleftrightarrow>
     (k = ''sparse'' \<and> v = Bool True) \<or> carries_sparse v \<or> carries_sparse (Obj al)"
  by (auto simp: update_fresh)

lemma keys_update: "fst ` set (AList.update k v al) = insert k (fst ` set al)"
  by (induction al) auto

lemma keys_formatBaseSchema:
  "fst ` set (formatBaseSchema opts f p)
     \<subseteq> {''default'', ''index'', ''required'', ''unique'', ''sparse'', ''hidden''}"
  by (simp add: formatBaseSchema_def Let_def keys_update)

lemma carries_formatDefaultValue [simp]: "\<not> carries_sparse (formatDefaultValue a)"
  by (simp add: formatDefaultValue_def split: default_value.splits)

lemma formatBaseSchema_sparse_iff:
  "map_of (formatBaseSchema opts f p) ''sparse'' = Some (Bool True) \<longleftrightarrow>
     (\<not> disableUnique opts \<and> unique (attrs f)) \<and>
     (fieldShouldBeLocalized (attrs f) p \<or> draftsEnabled opts \<or>
      (fieldAffectsData f \<and> ftype f \<noteq> ty_group \<and> ftype f \<noteq> ty_tab \<and>
       \<not> required (attrs f)))"
  by (simp add: formatBaseSchema_def Let_def update_conv')

lemma carries_formatBaseSchema:
  "carries_sparse (Obj (formatBaseSchema opts f p)) \<longleftrightarrow>
     (\<not> disableUnique opts \<and> unique (attrs f)) \<and>
     (fieldShouldBeLocalized (attrs f) p \<or> draftsEnabled opts \<or>
      (fieldAffectsData f \<and> ftype f \<noteq> ty_group \<and> ftype f \<noteq> ty_tab \<and>
       \<not> required (attrs f)))"
  by (simp add: formatBaseSchema_def Let_def)


lemma set_update_subset': "set (AList.update k v al) \<subseteq> insert (k, v) (set al)"
  by (induction al) auto

lemma update_member: "(k, v) \<in> set (AList.update k v al)"
  by (induction al) auto

lemma not_carries_locales:
  "\<not> carries_sparse (Obj acc) \<Longrightarrow> (\<And>c. \<not> carries_sparse (d c)) \<Longrightarrow> (\<And>c. d c \<noteq> Bool True) \<Longrightarrow>
     \<not> carries_sparse (Obj (foldl (\<lambda>ls locale. AList.update locale (d locale) ls) acc codes))"
proof (induction codes arbitrary: acc)
  case Nil
  then show ?case by simp
next
  case (Cons c codes)
  have step: "\<not> carries_sparse (Obj (AList.update c (d c) acc))"
    using Cons.prems(1) Cons.prems(2)[of c] Cons.prems(3)[of c] set_update_subset'[of c "d c" acc]
    by fastforce
  show ?case
    unfolding foldl_Cons by (rule Cons.IH[OF step Cons.prems(2,3)])
qed

lemma carries_locales:
  assumes "codes \<noteq> []" and "\<And>c. carries_sparse (d c)"
  shows "carries_sparse (Obj (foldl (\<lambda>ls locale. AList.update locale (d locale) ls) acc codes))"
proof -
  obtain cs c where codes: "codes = cs @ [c]"
    using assms(1) by (metis rev_exhaust)
  have "(c, d c) \<in> set (foldl (\<lambda>ls locale. AList.update locale (d locale) ls) acc codes)"
    unfolding codes by (simp add: update_member)
  then show ?thesis using assms(2)[of c] by (simp del: foldl.simps) (metis snd_conv)
qed

lemma carries_locales_iff:
  assumes "codes \<noteq> []" and "\<And>c. carries_sparse (d c) = b" and "\<And>c. d c \<noteq> Bool True"
    and "\<not> carries_sparse (Obj acc)"
  shows "carries_sparse (Obj (foldl (\<lambda>ls locale. AList.update locale (d locale) ls) acc codes)) = b"
proof (cases b)
  case True
  then show ?thesis using carries_locales[OF assms(1), of d acc] assms(2) by simp
next
  case False
  then show ?thesis using not_carries_locales[OF assms(4), of d codes] assms(2,3) by simp
qed

lemma carries_localizeSchema:
  assumes "\<forall>l. loc = Some l \<longrightarrow> localeCodes l \<noteq> []" and "d \<noteq> Bool True"
  shows "carries_sparse (localizeSchema a d loc p) = carries_sparse d"
proof (cases loc)
  case None
  then show ?thesis by (simp add: localizeSchema_def)
next
  case (Some l)
  have ne: "localeCodes l \<noteq> []" using assms(1) Some by simp
  have "carries_sparse
          (Obj (foldl (\<lambda>localeSchema locale. AList.update locale d localeSchema)
                  [(''_id'', Bool False)] (localeCodes l))) = carries_sparse d"
    by (rule carries_locales_iff[OF ne, where d = "\<lambda>c. d"]) (simp_all add: assms(2))
  then show ?thesis using Some by (simp add: localizeSchema_def)
qed

lemma carries_typed_base:
  assumes "\<not> carries_sparse t"
  shows "carries_sparse (Obj (AList.update ''type'' t (formatBaseSchema opts f p)))
       = carries_sparse (Obj (formatBaseSchema opts f p))"
proof -
  have "''type'' \<notin> fst ` set (formatBaseSchema opts f p)"
    using keys_formatBaseSchema[of opts f p] by auto
  from carries_update_fresh[OF this, of t] show ?thesis using assms by simp
qed

lemma carries_leaf:
  assumes "\<forall>l. loc = Some l \<longrightarrow> localeCodes l \<noteq> []" and "\<not> carries_sparse t"
  shows "carries_sparse
           (schema_path
              (schema_add k
                 (localizeSchema a (Obj (AList.update ''type'' t (formatBaseSchema opts f p)))
                    loc p') s) k)
       = carries_sparse (Obj (formatBaseSchema opts f p))"
  unfolding schema_path_schema_add
  using carries_localizeSchema[OF assms(1), of "Obj (AList.update ''type'' t (formatBaseSchema opts f p))" a p']
    carries_typed_base[OF assms(2), of opts f p]
  by simp


lemma carries_checkbox:
  assumes "\<forall>l. localization pl = Some l \<longrightarrow> localeCodes l \<noteq> []"
  shows "carries_sparse (schema_path (checkbox f s pl opts p) (field_name (attrs f)))
       = carries_sparse (Obj (formatBaseSchema opts f p))"
  unfolding checkbox_def Let_def by (rule carries_leaf[OF assms]) simp

lemma carries_code:
  assumes "\<forall>l. localization pl = Some l \<longrightarrow> localeCodes l \<noteq> []"
  shows "carries_sparse (schema_path (code f s pl opts p) (field_name (attrs f)))
       = carries_sparse (Obj (formatBaseSchema opts f p))"
  unfolding code_def Let_def by (rule carries_leaf[OF assms]) simp

lemma carries_date:
  assumes "\<forall>l. localization pl = Some l \<longrightarrow> localeCodes l \<noteq> []"
  shows "carries_sparse (schema_path (date f s pl opts p) (field_name (attrs f)))
       = carries_sparse (Obj (formatBaseSchema opts f p))"
  unfolding date_def Let_def by (rule carries_leaf[OF assms]) simp

lemma carries_email:
  assumes "\<forall>l. localization pl = Some l \<longrightarrow> localeCodes l \<noteq> []"
  shows "carries_sparse (schema_path (email f s pl opts p) (field_name (attrs f)))
       = carries_sparse (Obj (formatBaseSchema opts f p))"
  unfolding email_def Let_def by (rule carries_leaf[OF assms]) simp

lemma carries_json:
  assumes "\<forall>l. localization pl = Some l \<longrightarrow> localeCodes l \<noteq> []"
  shows "carries_sparse (schema_path (json f s pl opts p) (field_name (attrs f)))
       = carries_sparse (Obj (formatBaseSchema opts f p))"
  unfolding json_def Let_def by (rule carries_leaf[OF assms]) simp

lemma carries_number:
  assumes "\<forall>l. localization pl = Some l \<longrightarrow> localeCodes l \<noteq> []"
  shows "carries_sparse (schema_path (number f s pl opts p) (field_name (attrs f)))
       = carries_sparse (Obj (formatBaseSchema opts f p))"
  unfolding number_def Let_def by (rule carries_leaf[OF assms]) simp

lemma carries_richText:
  assumes "\<forall>l. localization pl = Some l \<longrightarrow> localeCodes l \<noteq> []"
  shows "carries_sparse (schema_path (richText f s pl opts p) (field_name (attrs f)))
       = carries_sparse (Obj (formatBaseSchema opts f p))"
  unfolding richText_def Let_def by (rule carries_leaf[OF assms]) simp

lemma carries_text_field:
  assumes "\<forall>l. localization pl = Some l \<longrightarrow> localeCodes l \<noteq> []"
  shows "carries_sparse (schema_path (text_field f s pl opts p) (field_name (attrs f)))
       = carries_sparse (Obj (formatBaseSchema opts f p))"
  unfolding text_field_def Let_def by (rule carries_leaf[OF assms]) simp

lemma carries_textarea:
  assumes "\<forall>l. localization pl = Some l \<longrightarrow> localeCodes l \<noteq> []"
  shows "carries_sparse (schema_path (textarea f s pl opts p) (field_name (attrs f)))
       = carries_sparse (Obj (formatBaseSchema opts f p))"
  unfolding textarea_def Let_def by (rule carries_leaf[OF assms]) simp

lemma carries_Arr_Str [simp]: "\<not> carries_sparse (Arr (map (\<lambda>x. Str (g x)) xs))"
  by (induction xs) simp_all

lemma carries_radio:
  assumes "\<forall>l. localization pl = Some l \<longrightarrow> localeCodes l \<noteq> []"
  shows "carries_sparse (schema_path (radio f s pl opts p) (field_name (attrs f)))
       = carries_sparse (Obj (formatBaseSchema opts f p))"
proof -
  let ?typed = "AList.update ''type'' (Type TString) (formatBaseSchema opts f p)"
  let ?base = "AList.update ''enum''
              (Arr (map (\<lambda>option. Str (option_value option)) (options (attrs f)))) ?typed"
  have fresh: "''enum'' \<notin> fst ` set ?typed"
    using keys_formatBaseSchema[of opts f p] by (auto simp: keys_update)
  have "carries_sparse (Obj ?base) = carries_sparse (Obj ?typed)"
    using carries_update_fresh[OF fresh] by simp
  also have "\<dots> = carries_sparse (Obj (formatBaseSchema opts f p))"
    by (rule carries_typed_base) simp
  finally have b: "carries_sparse (Obj ?base) = carries_sparse (Obj (formatBaseSchema opts f p))" .
  have "carries_sparse (localizeSchema (attrs f) (Obj ?base) (localization pl) p)
      = carries_sparse (Obj ?base)"
    by (rule carries_localizeSchema[OF assms]) simp
  then show ?thesis
    unfolding radio_def Let_def schema_path_schema_add using b by simp
qed

lemma carries_select:
  assumes "\<forall>l. localization pl = Some l \<longrightarrow> localeCodes l \<noteq> []"
  shows "carries_sparse (schema_path (select f s pl opts p) (field_name (attrs f)))
       = carries_sparse (Obj (formatBaseSchema opts f p))"
proof -
  let ?enum0 = "map (\<lambda>option. Str (option_value option)) (options (attrs f))"
  let ?enum1 = "if draftsEnabled opts \<or> \<not> required (attrs f) then ?enum0 @ [Null] else ?enum0"
  let ?typed = "AList.update ''type'' (Type TString) (formatBaseSchema opts f p)"
  let ?base = "AList.update ''enum'' (Arr ?enum1) ?typed"
  let ?d = "if hasMany (attrs f) then Arr [Obj ?base] else Obj ?base"
  have e: "\<not> carries_sparse (Arr ?enum1)" by auto
  have fresh: "''enum'' \<notin> fst ` set ?typed"
    using keys_formatBaseSchema[of opts f p] by (auto simp: keys_update)
  have "carries_sparse (Obj ?base) = carries_sparse (Obj ?typed)"
    using carries_update_fresh[OF fresh, of "Arr ?enum1"] e by simp
  also have "\<dots> = carries_sparse (Obj (formatBaseSchema opts f p))"
    by (rule carries_typed_base) simp
  finally have b: "carries_sparse (Obj ?base) = carries_sparse (Obj (formatBaseSchema opts f p))" .
  have d: "carries_sparse ?d = carries_sparse (Obj ?base)"
    by (simp del: carries_sparse.simps(2))
  have "carries_sparse (localizeSchema (attrs f) ?d (localization pl) p) = carries_sparse ?d"
    by (rule carries_localizeSchema[OF assms]) (simp split: if_splits)
  then show ?thesis
    unfolding select_def Let_def schema_path_schema_add using b d by simp
qed


lemma carries_relationTo_value [simp]: "\<not> carries_sparse (relationTo_value r)"
  by (cases r) simp_all

lemma carries_relationship:
  assumes "\<forall>l. localization pl = Some l \<longrightarrow> localeCodes l \<noteq> []"
  shows "carries_sparse (schema_path (relationship f s pl opts p) (field_name (attrs f)))
       = carries_sparse (Obj (formatBaseSchema opts f p))"
proof -
  let ?a = "attrs f"
  define valueType where "valueType = getRelationshipValueType f pl"
  define base where "base = formatBaseSchema opts f p"
  define union_of where "union_of = (\<lambda>refPath.
            AList.update ''value'' (Obj [(''type'', Type valueType), (''refPath'', Str refPath)])
              (AList.update ''relationTo''
                 (Obj [(''type'', Type TString), (''enum'', relationTo_value (relationTo ?a))])
                 (AList.update ''type'' (Type TMixed)
                    (AList.update ''_id'' (Bool False) base))))"
  define single where "single =
            AList.update ''ref'' (relationTo_value (relationTo ?a))
              (AList.update ''type'' (Type valueType) base)"
  define many where "many = (\<lambda>d. if hasMany ?a
                       then Obj [(''type'', Arr [d]), (''default'', formatDefaultValue ?a)]
                       else d)"
  define localized_return where "localized_return = (\<lambda>l :: localization_config.
            Obj [(''_id'', Bool False),
                 (''type'',
                  Obj (foldl
                         (\<lambda>ls locale.
                            AList.update locale
                              (many (Obj (if hasManyRelations (relationTo ?a)
                                          then union_of (field_name ?a @ ''.'' @ locale
                                                          @ ''.relationTo'')
                                          else single)))
                              ls)
                         [] (localeCodes l))),
                 (''localized'', Bool True)])"
  define schemaToReturn where "schemaToReturn =
            (case localization pl of
               Some l \<Rightarrow>
                 if fieldShouldBeLocalized ?a p then localized_return l
                 else if hasManyRelations (relationTo ?a)
                 then many (Obj (union_of (field_name ?a @ ''.relationTo'')))
                 else many (Obj single)
             | None \<Rightarrow>
                 if hasManyRelations (relationTo ?a)
                 then many (Obj (union_of (field_name ?a @ ''.relationTo'')))
                 else many (Obj single))"
  have eq: "relationship f s pl opts p = schema_add (field_name ?a) schemaToReturn s"
    unfolding relationship_def Let_def schemaToReturn_def localized_return_def many_def
      single_def union_of_def base_def valueType_def by (rule refl)
  have keys: "fst ` set base
       \<subseteq> {''default'', ''index'', ''required'', ''unique'', ''sparse'', ''hidden''}"
    unfolding base_def by (rule keys_formatBaseSchema)
  have single: "carries_sparse (Obj single) = carries_sparse (Obj base)"
  proof -
    have 1: "''type'' \<notin> fst ` set base" using keys by auto
    have 2: "''ref'' \<notin> fst ` set (AList.update ''type'' (Type valueType) base)"
      using keys by (auto simp: keys_update)
    show ?thesis
      unfolding single_def
      using carries_update_fresh[OF 2, of "relationTo_value (relationTo ?a)"]
        carries_update_fresh[OF 1, of "Type valueType"]
      by simp
  qed
  have union: "carries_sparse (Obj (union_of path)) = carries_sparse (Obj base)" for path
  proof -
    let ?u1 = "AList.update ''_id'' (Bool False) base"
    let ?u2 = "AList.update ''type'' (Type TMixed) ?u1"
    let ?u3 = "AList.update ''relationTo''
                 (Obj [(''type'', Type TString), (''enum'', relationTo_value (relationTo ?a))]) ?u2"
    have 1: "''_id'' \<notin> fst ` set base" using keys by auto
    have 2: "''type'' \<notin> fst ` set ?u1" using keys by (auto simp: keys_update)
    have 3: "''relationTo'' \<notin> fst ` set ?u2" using keys by (auto simp: keys_update)
    have 4: "''value'' \<notin> fst ` set ?u3" using keys by (auto simp: keys_update)
    have a1: "carries_sparse (Obj ?u1) = carries_sparse (Obj base)"
      using carries_update_fresh[OF 1, of "Bool False"] by simp
    have a2: "carries_sparse (Obj ?u2) = carries_sparse (Obj ?u1)"
      using carries_update_fresh[OF 2, of "Type TMixed"] by simp
    have a3: "carries_sparse (Obj ?u3) = carries_sparse (Obj ?u2)"
      using carries_update_fresh[OF 3,
          of "Obj [(''type'', Type TString), (''enum'', relationTo_value (relationTo ?a))]"]
      by simp
    have a4: "carries_sparse (Obj (union_of path)) = carries_sparse (Obj ?u3)"
      unfolding union_of_def
      using carries_update_fresh[OF 4,
          of "Obj [(''type'', Type valueType), (''refPath'', Str path)]"]
      by simp
    show ?thesis using a1 a2 a3 a4 by simp
  qed
  have many: "carries_sparse (many d) = carries_sparse d" for d
    unfolding many_def by simp
  have many_ne: "many (Obj kvs) \<noteq> Bool True" for kvs
    unfolding many_def by simp
  define per where "per = (\<lambda>lc. many (Obj (if hasManyRelations (relationTo ?a)
                                          then union_of (field_name ?a @ ''.'' @ lc
                                                          @ ''.relationTo'')
                                          else single)))"
  have per_carries: "carries_sparse (per lc) = carries_sparse (Obj base)" for lc
    unfolding per_def many using single union by (simp del: carries_sparse.simps(2))
  have per_ne: "per lc \<noteq> Bool True" for lc
    unfolding per_def by (rule many_ne)
  have types: "carries_sparse (Obj (foldl (\<lambda>ls locale. AList.update locale (per locale) ls)
                                      [] codes)) = carries_sparse (Obj base)"
    if "codes \<noteq> []" for codes
    by (rule carries_locales_iff[OF that]) (simp_all add: per_carries per_ne)
  have loc: "carries_sparse (localized_return l) = carries_sparse (Obj base)"
    if "localeCodes l \<noteq> []" for l
    unfolding localized_return_def using types[OF that, unfolded per_def]
    by (simp del: carries_sparse.simps(2) add: carries_sparse.simps(2)[of "[_, _, _]"])
  have "carries_sparse schemaToReturn = carries_sparse (Obj base)"
  proof (cases "localization pl")
    case None
    then show ?thesis
      unfolding schemaToReturn_def using many single union
      by (simp del: carries_sparse.simps(2))
  next
    case (Some l)
    have "localeCodes l \<noteq> []" using assms Some by simp
    from loc[OF this] show ?thesis
      unfolding schemaToReturn_def using many single union Some
      by (simp del: carries_sparse.simps(2))
  qed
  then show ?thesis
    unfolding eq schema_path_schema_add base_def .
qed

lemma carries_upload:
  assumes "\<forall>l. localization pl = Some l \<longrightarrow> localeCodes l \<noteq> []"
  shows "carries_sparse (schema_path (upload f s pl opts p) (field_name (attrs f)))
       = carries_sparse (Obj (formatBaseSchema opts f p))"
  unfolding upload_def by (rule carries_relationship[OF assms])

lemma carries_point:
  assumes "\<forall>l. localization pl = Some l \<longrightarrow> localeCodes l \<noteq> []"
  shows "carries_sparse (schema_path (point f s pl opts p) (field_name (attrs f)))
       \<longleftrightarrow> disableUnique opts \<and> unique (attrs f) \<and> fieldShouldBeLocalized (attrs f) p"
proof -
  let ?a = "attrs f"
  let ?c0 = "[(''type'', Arr [Type TNumber]), (''default'', formatDefaultValue ?a),
              (''required'', Bool False)]"
  let ?c = "if disableUnique opts \<and> unique ?a \<and> fieldShouldBeLocalized ?a p
            then AList.update ''sparse'' (Bool True) ?c0 else ?c0"
  let ?base = "[(''type'',
              Obj ([(''type'', Type TString), (''enum'', Arr [Str ''Point''])] @
                   (if defaultValue ?a \<noteq> DefaultUndefined
                    then [(''default'', Str ''Point'')] else []))),
             (''coordinates'', Obj ?c)]"
  let ?d = "localizeSchema ?a (Obj ?base) (localization pl) p"
  define s1 where "s1 = schema_add (field_name ?a) ?d s"
  define io where "io = (if \<not> disableUnique opts \<and> unique ?a
                   then [(''sparse'', True), (''unique'', True)] else [])"
  have eq: "point f s pl opts p =
     (if index ?a = Some True \<or> index ?a = None
      then (case localization pl of
              Some l \<Rightarrow>
                if fieldShouldBeLocalized ?a p
                then fold (\<lambda>locale. schema_index [(field_name ?a @ ''.'' @ locale, Sphere2d)] io)
                       (locales l) s1
                else schema_index [(field_name ?a, Sphere2d)] io s1
            | None \<Rightarrow> schema_index [(field_name ?a, Sphere2d)] io s1)
      else s1)"
    unfolding point_def Let_def s1_def io_def by (rule refl)
  have path: "schema_path (point f s pl opts p) (field_name ?a) = ?d"
    unfolding eq
    by (simp add: schema_path_schema_index schema_path_fold_schema_index s1_def
          schema_path_schema_add split: option.split)
  have c: "carries_sparse (Obj ?c)
             \<longleftrightarrow> disableUnique opts \<and> unique ?a \<and> fieldShouldBeLocalized ?a p"
    by simp
  have t: "\<not> carries_sparse (Obj ([(''type'', Type TString), (''enum'', Arr [Str ''Point''])] @
                   (if defaultValue ?a \<noteq> DefaultUndefined
                    then [(''default'', Str ''Point'')] else [])))"
    by simp
  have b: "carries_sparse (Obj ?base)
             \<longleftrightarrow> disableUnique opts \<and> unique ?a \<and> fieldShouldBeLocalized ?a p"
    using c t by (simp del: carries_sparse.simps(2) add: carries_sparse.simps(2)[of "[_, _]"])
  have "carries_sparse ?d = carries_sparse (Obj ?base)"
    by (rule carries_localizeSchema[OF assms]) simp
  then show ?thesis unfolding path using b by simp
qed

lemma addFieldSchema_unfold:
  "addFieldSchema f s pl opts p =
     (case ftype f of
        ty_array \<Rightarrow> array f s pl opts p
      | ty_blocks \<Rightarrow> blocks f s pl opts p
      | ty_checkbox \<Rightarrow> checkbox f s pl opts p
      | ty_code \<Rightarrow> code f s pl opts p
      | ty_collapsible \<Rightarrow> collapsible f s pl opts p
      | ty_date \<Rightarrow> date f s pl opts p
      | ty_email \<Rightarrow> email f s pl opts p
      | ty_group \<Rightarrow> group f s pl opts p
      | ty_json \<Rightarrow> json f s pl opts p
      | ty_number \<Rightarrow> number f s pl opts p
      | ty_point \<Rightarrow> point f s pl opts p
      | ty_radio \<Rightarrow> radio f s pl opts p
      | ty_relationship \<Rightarrow> relationship f s pl opts p
      | ty_richText \<Rightarrow> richText f s pl opts p
      | ty_row \<Rightarrow> row f s pl opts p
      | ty_select \<Rightarrow> select f s pl opts p
      | ty_tabs \<Rightarrow> tabs f s pl opts p
      | ty_text \<Rightarrow> text_field f s pl opts p
      | ty_textarea \<Rightarrow> textarea f s pl opts p
      | ty_upload \<Rightarrow> upload f s pl opts p
      | _ \<Rightarrow> s)"
proof (cases f)
  case (Field ty a fs bs refs ts)
  show ?thesis
    unfolding Field field.sel addFieldSchema.simps Let_def by (rule refl)
qed

lemma carries_addFieldSchema_leaf:
  assumes "\<forall>l. localization pl = Some l \<longrightarrow> localeCodes l \<noteq> []"
    and "ftype f \<in> {ty_checkbox, ty_code, ty_date, ty_email, ty_json, ty_number,
             ty_radio, ty_relationship, ty_richText, ty_select, ty_text, ty_textarea,
             ty_upload}"
  shows "carries_sparse (schema_path (addFieldSchema f s pl opts p) (field_name (attrs f)))
       = carries_sparse (Obj (formatBaseSchema opts f p))"
proof -
  note gens = carries_checkbox[OF assms(1)] carries_code[OF assms(1)] carries_date[OF assms(1)]
    carries_email[OF assms(1)] carries_json[OF assms(1)] carries_number[OF assms(1)]
    carries_radio[OF assms(1)] carries_relationship[OF assms(1)] carries_richText[OF assms(1)]
    carries_select[OF assms(1)] carries_text_field[OF assms(1)] carries_textarea[OF assms(1)]
    carries_upload[OF assms(1)]
  show ?thesis
    using assms(2) unfolding addFieldSchema_unfold
    by (cases "ftype f") (simp_all only: field_type.case gens, simp_all)
qed

text \<open>
  Claim C4, as amended.  Let a configured localization have at least one locale code.  For a
  leaf field of a kind compiled through the base-descriptor routine (checkbox, code, date,
  email, json, number, radio, relationship, rich text, select, text, textarea, upload), the
  descriptor compiled for the field carries a sparse marker exactly when uniqueness is
  effective (\<^verbatim>\<open>unique\<close> set and \<^verbatim>\<open>disableUnique\<close> not set) and one of these holds: the field is
  flagged localized and no ancestor has localized it, which is what \<^verbatim>\<open>fieldShouldBeLocalized\<close>
  answers, whether or not the configuration has locales; drafts are enabled; or the field
  persists data, is neither a group nor a tab, and is not required.  The base descriptor
  itself has the key \<^verbatim>\<open>sparse\<close>, with the value \<^verbatim>\<open>true\<close>, under exactly this condition and lacks
  it otherwise.  In particular a unique, non-required field of these kinds compiled with
  drafts enabled gets the marker.  A geo-point is not compiled through the routine: its
  descriptor carries the marker, on \<^verbatim>\<open>coordinates\<close>, exactly when \<^verbatim>\<open>unique\<close> is set, uniqueness
  is disabled and the field is flagged localized with no localized ancestor.
\<close>

theorem leaf_descriptor_sparse:
  assumes "\<forall>l. localization payload = Some l \<longrightarrow> localeCodes l \<noteq> []"
  shows "(ftype field \<in> {ty_checkbox, ty_code, ty_date, ty_email, ty_json, ty_number,
             ty_radio, ty_relationship, ty_richText, ty_select, ty_text, ty_textarea,
             ty_upload} \<longrightarrow>
          (carries_sparse
             (schema_path (addFieldSchema field schema payload buildSchemaOptions parentIsLocalized)
                (field_name (attrs field)))
           \<longleftrightarrow> (\<not> disableUnique buildSchemaOptions \<and> unique (attrs field)) \<and>
            (fieldShouldBeLocalized (attrs field) parentIsLocalized \<or>
             draftsEnabled buildSchemaOptions \<or>
             (fieldAffectsData field \<and> ftype field \<noteq> ty_group \<and> ftype field \<noteq> ty_tab \<and>
              \<not> required (attrs field)))))
       \<and> (ftype field = ty_point \<longrightarrow>
          (carries_sparse
             (schema_path (addFieldSchema field schema payload buildSchemaOptions parentIsLocalized)
                (field_name (attrs field)))
           \<longleftrightarrow> disableUnique buildSchemaOptions \<and> unique (attrs field) \<and>
               fieldShouldBeLocalized (attrs field) parentIsLocalized))
       \<and> (map_of (formatBaseSchema buildSchemaOptions field parentIsLocalized) ''sparse''
            = Some (Bool True)
           \<longleftrightarrow> (\<not> disableUnique buildSchemaOptions \<and> unique (attrs field)) \<and>
            (fieldShouldBeLocalized (attrs field) parentIsLocalized \<or>
             draftsEnabled buildSchemaOptions \<or>
             (fieldAffectsData field \<and> ftype field \<noteq> ty_group \<and> ftype field \<noteq> ty_tab \<and>
              \<not> required (attrs field))))
       \<and> (map_of (formatBaseSchema buildSchemaOptions field parentIsLocalized) ''sparse'' = None
           \<longleftrightarrow> \<not> ((\<not> disableUnique buildSchemaOptions \<and> unique (attrs field)) \<and>
            (fieldShouldBeLocalized (attrs field) parentIsLocalized \<or>
             draftsEnabled buildSchemaOptions \<or>
             (fieldAffectsData field \<and> ftype field \<noteq> ty_group \<and> ftype field \<noteq> ty_tab \<and>
              \<not> required (attrs field)))))
       \<and> (ftype field \<in> {ty_checkbox, ty_code, ty_date, ty_email, ty_json, ty_number,
             ty_radio, ty_relationship, ty_richText, ty_select, ty_text, ty_textarea,
             ty_upload} \<and>
          unique (attrs field) \<and> \<not> disableUnique buildSchemaOptions \<and>
          \<not> required (attrs field) \<and> draftsEnabled buildSchemaOptions
          \<longrightarrow> carries_sparse
                (schema_path
                   (addFieldSchema field schema payload buildSchemaOptions parentIsLocalized)
                   (field_name (attrs field))))"
proof -
  have leaf: "carries_sparse
             (schema_path (addFieldSchema field schema payload buildSchemaOptions parentIsLocalized)
                (field_name (attrs field)))
           \<longleftrightarrow> (\<not> disableUnique buildSchemaOptions \<and> unique (attrs field)) \<and>
            (fieldShouldBeLocalized (attrs field) parentIsLocalized \<or>
             draftsEnabled buildSchemaOptions \<or>
             (fieldAffectsData field \<and> ftype field \<noteq> ty_group \<and> ftype field \<noteq> ty_tab \<and>
              \<not> required (attrs field)))"
    if "ftype field \<in> {ty_checkbox, ty_code, ty_date, ty_email, ty_json, ty_number,
             ty_radio, ty_relationship, ty_richText, ty_select, ty_text, ty_textarea,
             ty_upload}"
    using carries_addFieldSchema_leaf[OF assms that, of schema buildSchemaOptions parentIsLocalized]
    by (simp only: carries_formatBaseSchema)
  have pt: "carries_sparse
             (schema_path (addFieldSchema field schema payload buildSchemaOptions parentIsLocalized)
                (field_name (attrs field)))
           \<longleftrightarrow> disableUnique buildSchemaOptions \<and> unique (attrs field) \<and>
               fieldShouldBeLocalized (attrs field) parentIsLocalized"
    if "ftype field = ty_point"
    using carries_point[OF assms, of field schema buildSchemaOptions parentIsLocalized] that
    by (simp only: addFieldSchema_unfold field_type.case)
  have none: "map_of (formatBaseSchema buildSchemaOptions field parentIsLocalized) ''sparse'' = None
           \<longleftrightarrow> \<not> ((\<not> disableUnique buildSchemaOptions \<and> unique (attrs field)) \<and>
            (fieldShouldBeLocalized (attrs field) parentIsLocalized \<or>
             draftsEnabled buildSchemaOptions \<or>
             (fieldAffectsData field \<and> ftype field \<noteq> ty_group \<and> ftype field \<noteq> ty_tab \<and>
              \<not> required (attrs field))))"
    by (simp add: formatBaseSchema_def Let_def update_conv')
  show ?thesis
    using leaf pt none
      formatBaseSchema_sparse_iff[of buildSchemaOptions field parentIsLocalized]
    by blast
qed


theorem leaf_descriptor_sparse_witness:
  "carries_sparse
     (schema_path
        (addFieldSchema (Field ty_text ((named ''title'')\<lparr>unique := True\<rparr>) [] [] NoReferences [])
           (new_Schema [] None)
           (bare_payload\<lparr>localization :=
              Some \<lparr>locales = [''en'', ''es''], localeCodes = [''en'', ''es'']\<rparr>\<rparr>)
           (no_options\<lparr>draftsEnabled := True\<rparr>) False)
        ''title'')"
proof -
  let ?pl = "bare_payload\<lparr>localization :=
              Some \<lparr>locales = [''en'', ''es''], localeCodes = [''en'', ''es'']\<rparr>\<rparr>"
  have codes: "\<forall>l. localization ?pl = Some l \<longrightarrow> localeCodes l \<noteq> []" by auto
  show ?thesis
    using leaf_descriptor_sparse
      [OF codes,
       of "Field ty_text ((named ''title'')\<lparr>unique := True\<rparr>) [] [] NoReferences []"
          "new_Schema [] None" "no_options\<lparr>draftsEnabled := True\<rparr>" False,
       THEN conjunct1]
    by (simp add: named_def empty_attrs_def no_options_def field_name_def)
qed

text \<open>
  Claim C4 as stated, with localization-effective in the sense of the glossary, fails four
  ways: a unique, required text field flagged localized carries the marker although the
  configuration has no locales; the same field below a localized ancestor carries none
  although it is flagged and the configuration has locales; a unique geo-point compiled
  with drafts enabled carries none; and a unique, optional text field flagged localized
  carries none when the configured localization has no locale, there being no copy of the
  base descriptor in what is compiled.
\<close>

theorem sparse_localization_effective_counterexample:
  "\<not> (carries_sparse
        (schema_path
           (addFieldSchema
              (Field ty_text ((named ''title'')\<lparr>unique := True, required := True,
                                localized := True\<rparr>) [] [] NoReferences [])
              (new_Schema [] None) bare_payload no_options False)
           ''title'')
      \<longleftrightarrow>
        (\<not> disableUnique no_options \<and>
         unique ((named ''title'')\<lparr>unique := True, required := True, localized := True\<rparr>)) \<and>
        (spec_localization_effective
           ((named ''title'')\<lparr>unique := True, required := True, localized := True\<rparr>)
           bare_payload \<or>
         draftsEnabled no_options \<or>
         (fieldAffectsData
            (Field ty_text ((named ''title'')\<lparr>unique := True, required := True,
                              localized := True\<rparr>) [] [] NoReferences []) \<and>
          ty_text \<noteq> ty_group \<and> ty_text \<noteq> ty_tab \<and>
          \<not> required ((named ''title'')\<lparr>unique := True, required := True,
                         localized := True\<rparr>))))
   \<and> \<not> (carries_sparse
        (schema_path
           (addFieldSchema
              (Field ty_text ((named ''title'')\<lparr>unique := True, required := True,
                                localized := True\<rparr>) [] [] NoReferences [])
              (new_Schema [] None)
              (bare_payload\<lparr>localization :=
                 Some \<lparr>locales = [''en'', ''es''], localeCodes = [''en'', ''es'']\<rparr>\<rparr>)
              no_options True)
           ''title'')
      \<longleftrightarrow>
        (\<not> disableUnique no_options \<and>
         unique ((named ''title'')\<lparr>unique := True, required := True, localized := True\<rparr>)) \<and>
        (spec_localization_effective
           ((named ''title'')\<lparr>unique := True, required := True, localized := True\<rparr>)
           (bare_payload\<lparr>localization :=
              Some \<lparr>locales = [''en'', ''es''], localeCodes = [''en'', ''es'']\<rparr>\<rparr>) \<or>
         draftsEnabled no_options \<or>
         (fieldAffectsData
            (Field ty_text ((named ''title'')\<lparr>unique := True, required := True,
                              localized := True\<rparr>) [] [] NoReferences []) \<and>
          ty_text \<noteq> ty_group \<and> ty_text \<noteq> ty_tab \<and>
          \<not> required ((named ''title'')\<lparr>unique := True, required := True,
                         localized := True\<rparr>))))
   \<and> \<not> (carries_sparse
        (schema_path
           (addFieldSchema
              (Field ty_point ((named ''location'')\<lparr>unique := True\<rparr>) [] [] NoReferences [])
              (new_Schema [] None) bare_payload (no_options\<lparr>draftsEnabled := True\<rparr>) False)
           ''location'')
      \<longleftrightarrow>
        (\<not> disableUnique (no_options\<lparr>draftsEnabled := True\<rparr>) \<and>
         unique ((named ''location'')\<lparr>unique := True\<rparr>)) \<and>
        (spec_localization_effective ((named ''location'')\<lparr>unique := True\<rparr>) bare_payload \<or>
         draftsEnabled (no_options\<lparr>draftsEnabled := True\<rparr>) \<or>
         (fieldAffectsData
            (Field ty_point ((named ''location'')\<lparr>unique := True\<rparr>) [] [] NoReferences []) \<and>
          ty_point \<noteq> ty_group \<and> ty_point \<noteq> ty_tab \<and>
          \<not> required ((named ''location'')\<lparr>unique := True\<rparr>))))
   \<and> \<not> (carries_sparse
        (schema_path
           (addFieldSchema
              (Field ty_text ((named ''title'')\<lparr>unique := True, localized := True\<rparr>)
                 [] [] NoReferences [])
              (new_Schema [] None)
              (bare_payload\<lparr>localization := Some \<lparr>locales = [], localeCodes = []\<rparr>\<rparr>)
              no_options False)
           ''title'')
      \<longleftrightarrow>
        (\<not> disableUnique no_options \<and>
         unique ((named ''title'')\<lparr>unique := True, localized := True\<rparr>)) \<and>
        (spec_localization_effective ((named ''title'')\<lparr>unique := True, localized := True\<rparr>)
           (bare_payload\<lparr>localization := Some \<lparr>locales = [], localeCodes = []\<rparr>\<rparr>) \<or>
         draftsEnabled no_options \<or>
         (fieldAffectsData
            (Field ty_text ((named ''title'')\<lparr>unique := True, localized := True\<rparr>)
               [] [] NoReferences []) \<and>
          ty_text \<noteq> ty_group \<and> ty_text \<noteq> ty_tab \<and>
          \<not> required ((named ''title'')\<lparr>unique := True, localized := True\<rparr>))))"
  by (simp add: text_field_def point_def named_def empty_attrs_def no_options_def
        bare_payload_def new_Schema_def field_name_def schema_path_def schema_add_def
        schema_index_def localizeSchema_def formatBaseSchema_def formatDefaultValue_def
        fieldShouldBeLocalized_def fieldAffectsData_def spec_localization_effective_def
        Let_def)

text \<open>
  Claim C10.  For a geo-point field whose \<^verbatim>\<open>index\<close> is not \<^verbatim>\<open>false\<close>, with \<^verbatim>\<open>unique\<close> set and
  \<^verbatim>\<open>disableUnique\<close> not set, the generator adds one spatial index per indexed path (the field's
  name, or one path per locale when the field is localized and the configuration has
  locales), and every one of them carries the options \<^verbatim>\<open>sparse: true, unique: true\<close>, whatever
  \<^verbatim>\<open>required\<close>, \<^verbatim>\<open>draftsEnabled\<close> and the localization are.
\<close>

theorem point_index_sparse_unique:
  assumes "index (attrs field) \<noteq> Some False"
    and "unique (attrs field)" and "\<not> disableUnique buildSchemaOptions"
  shows "indexes (point field schema payload buildSchemaOptions parentIsLocalized) =
           indexes schema @
           map (\<lambda>path. \<lparr>index_fields = [(path, Sphere2d)],
                        index_options = [(''sparse'', True), (''unique'', True)]\<rparr>)
             (case localization payload of
                Some l \<Rightarrow>
                  if fieldShouldBeLocalized (attrs field) parentIsLocalized
                  then map (\<lambda>locale. field_name (attrs field) @ ''.'' @ locale) (locales l)
                  else [field_name (attrs field)]
              | None \<Rightarrow> [field_name (attrs field)])"
proof -
  have idx: "index (attrs field) = Some True \<or> index (attrs field) = None"
    using assms(1) by (cases "index (attrs field)") auto
  show ?thesis
    using idx assms(2,3)
    by (auto simp: point_def Let_def indexes_fold_schema_index comp_def split: option.splits)
qed

theorem point_index_sparse_unique_witness:
  "indexes (point (Field ty_point ((named ''location'')\<lparr>unique := True, required := True\<rparr>)
                     [] [] NoReferences [])
              (new_Schema [] None) bare_payload no_options False)
     = [\<lparr>index_fields = [(''location'', Sphere2d)],
         index_options = [(''sparse'', True), (''unique'', True)]\<rparr>]"
  using point_index_sparse_unique
    [of "Field ty_point ((named ''location'')\<lparr>unique := True, required := True\<rparr>)
           [] [] NoReferences []"
        no_options "new_Schema [] None" bare_payload False]
  by (simp add: named_def empty_attrs_def no_options_def bare_payload_def new_Schema_def
        field_name_def)

text \<open>
  Claim C6, as amended.  The descriptor that \<^verbatim>\<open>select\<close> adds is built around a base object
  whose \<^verbatim>\<open>enum\<close> is the option values, label/value pairs unwrapped, followed by \<^verbatim>\<open>null\<close> exactly
  when drafts are enabled or the field is not required.  The descriptor that \<^verbatim>\<open>radio\<close> adds
  has the unwrapped option values as its \<^verbatim>\<open>enum\<close> and never a \<^verbatim>\<open>null\<close>.
\<close>

theorem select_radio_enum:
  "(\<exists>baseSchema enum.
      select field schema payload buildSchemaOptions parentIsLocalized =
        schema_add (field_name (attrs field))
          (localizeSchema (attrs field)
             (if hasMany (attrs field) then Arr [Obj baseSchema] else Obj baseSchema)
             (localization payload) parentIsLocalized)
          schema
      \<and> map_of baseSchema ''enum'' = Some (Arr enum)
      \<and> enum = map (\<lambda>option. Str (option_value option)) (options (attrs field)) @
                 (if draftsEnabled buildSchemaOptions \<or> \<not> required (attrs field)
                  then [Null] else [])
      \<and> filter (\<lambda>v. v \<noteq> Null) enum = map (\<lambda>option. Str (option_value option)) (options (attrs field))
      \<and> (Null \<in> set enum \<longleftrightarrow>
           draftsEnabled buildSchemaOptions \<or> \<not> required (attrs field)))
   \<and> (\<exists>baseSchema enum.
      radio field schema payload buildSchemaOptions parentIsLocalized =
        schema_add (field_name (attrs field))
          (localizeSchema (attrs field) (Obj baseSchema) (localization payload)
             parentIsLocalized)
          schema
      \<and> map_of baseSchema ''enum'' = Some (Arr enum)
      \<and> enum = map (\<lambda>option. Str (option_value option)) (options (attrs field))
      \<and> Null \<notin> set enum)"
proof (intro conjI)
  have no_null: "filter (\<lambda>v. v \<noteq> Null) (map (\<lambda>option. Str (option_value option)) os)
                   = map (\<lambda>option. Str (option_value option)) os" for os
    by (induction os) simp_all
  have not_in: "Null \<notin> set (map (\<lambda>option. Str (option_value option)) os)" for os
    by auto
  show "\<exists>baseSchema enum.
      select field schema payload buildSchemaOptions parentIsLocalized =
        schema_add (field_name (attrs field))
          (localizeSchema (attrs field)
             (if hasMany (attrs field) then Arr [Obj baseSchema] else Obj baseSchema)
             (localization payload) parentIsLocalized)
          schema
      \<and> map_of baseSchema ''enum'' = Some (Arr enum)
      \<and> enum = map (\<lambda>option. Str (option_value option)) (options (attrs field)) @
                 (if draftsEnabled buildSchemaOptions \<or> \<not> required (attrs field)
                  then [Null] else [])
      \<and> filter (\<lambda>v. v \<noteq> Null) enum = map (\<lambda>option. Str (option_value option)) (options (attrs field))
      \<and> (Null \<in> set enum \<longleftrightarrow>
           draftsEnabled buildSchemaOptions \<or> \<not> required (attrs field))"
    unfolding select_def Let_def
    apply (intro exI conjI)
       apply (rule refl)
      apply (simp add: update_conv')
    using no_null not_in by auto
  show "\<exists>baseSchema enum.
      radio field schema payload buildSchemaOptions parentIsLocalized =
        schema_add (field_name (attrs field))
          (localizeSchema (attrs field) (Obj baseSchema) (localization payload)
             parentIsLocalized)
          schema
      \<and> map_of baseSchema ''enum'' = Some (Arr enum)
      \<and> enum = map (\<lambda>option. Str (option_value option)) (options (attrs field))
      \<and> Null \<notin> set enum"
    unfolding radio_def Let_def
    apply (intro exI conjI)
       apply (rule refl)
      apply (simp add: update_conv')
    using not_in by auto
qed

text \<open>
  The claim as stated fails for \<^verbatim>\<open>radio\<close>: an optional radio field compiled without drafts
  has no \<^verbatim>\<open>null\<close> in its enumeration.
\<close>

theorem radio_optional_counterexample:
  "get_key ''enum''
     (schema_path
        (radio (Field ty_radio ((named ''color'')\<lparr>options := [OptionString ''red'',
                   OptionObject ''Blue'' ''blue'']\<rparr>) [] [] NoReferences [])
           (new_Schema [] None) bare_payload no_options False)
        ''color'')
   = Arr [Str ''red'', Str ''blue'']
   \<and> \<not> required ((named ''color'')\<lparr>options := [OptionString ''red'',
                   OptionObject ''Blue'' ''blue'']\<rparr>)"
  by (simp add: radio_def named_def empty_attrs_def no_options_def bare_payload_def
        new_Schema_def field_name_def get_key_def schema_path_def schema_add_def
        localizeSchema_def formatBaseSchema_def formatDefaultValue_def fieldShouldBeLocalized_def
        fieldAffectsData_def)

section \<open>Requiredness in the compiled schema\<close>

lemma set_update_subset: "set (AList.update k v al) \<subseteq> insert (k, v) (set al)"
  by (induction al) auto

lemma enforces_update:
  "enforces_required (Obj (AList.update k v al)) \<Longrightarrow>
     (k = ''required'' \<and> v = Bool True) \<or> enforces_required v \<or> enforces_required (Obj al)"
  using set_update_subset[of k v al] by fastforce

lemma ser_schema_add [simp]:
  "schema_enforces_required (schema_add k d s) = (schema_enforces_required s \<or> enforces_required d)"
  by (cases s) (auto simp: schema_add_def)

lemma ser_schema_index [simp]:
  "schema_enforces_required (schema_index fs opts s) = schema_enforces_required s"
  by (cases s) (auto simp: schema_index_def)

lemma ser_schema_discriminator [simp]:
  "schema_enforces_required (schema_discriminator p sl r s)
     = (schema_enforces_required s \<or> ref_enforces_required r)"
  by (cases s) (auto simp: schema_discriminator_def)

lemma ser_new_Schema [simp]:
  "schema_enforces_required (new_Schema fs opts) = (\<exists>kv \<in> set fs. enforces_required (snd kv))"
  by (simp add: new_Schema_def)

lemma fold_invariant:
  "(\<And>x s. x \<in> set xs \<Longrightarrow> P s \<Longrightarrow> P (f x s)) \<Longrightarrow> P s \<Longrightarrow> P (fold f xs s)"
  by (induction xs arbitrary: s) auto

lemma not_enforces_update:
  "\<not> enforces_required (Obj al) \<Longrightarrow> \<not> enforces_required v \<Longrightarrow> k \<noteq> ''required'' \<Longrightarrow>
     \<not> enforces_required (Obj (AList.update k v al))"
  using enforces_update[of k v al] by blast

lemma not_enforces_formatDefaultValue [simp]: "\<not> enforces_required (formatDefaultValue a)"
  by (simp add: formatDefaultValue_def split: default_value.splits)

lemma not_enforces_formatBaseSchema [simp]:
  "\<not> enforces_required (Obj (formatBaseSchema opts f p))"
  by (simp add: formatBaseSchema_def Let_def)

lemma not_enforces_locales:
  "\<not> enforces_required (Obj acc) \<Longrightarrow> \<not> enforces_required d \<Longrightarrow> d \<noteq> Bool True \<Longrightarrow>
     \<not> enforces_required (Obj (foldl (\<lambda>ls locale. AList.update locale d ls) acc codes))"
proof (induction codes arbitrary: acc)
  case Nil
  then show ?case by simp
next
  case (Cons c codes)
  have step: "\<not> enforces_required (Obj (AList.update c d acc))"
    using Cons.prems(1,2,3) enforces_update[of c d acc] by blast
  show ?case
    unfolding foldl_Cons by (rule Cons.IH[OF step Cons.prems(2,3)])
qed

lemma not_enforces_localizeSchema:
  "\<not> enforces_required d \<Longrightarrow> d \<noteq> Bool True \<Longrightarrow> \<not> enforces_required (localizeSchema a d loc p)"
  using not_enforces_locales[of "[(''_id'', Bool False)]" d]
  by (auto simp: localizeSchema_def split: option.splits)

lemma not_enforces_leaf:
  "\<not> enforces_required t \<Longrightarrow> \<not> schema_enforces_required s \<Longrightarrow>
   \<not> schema_enforces_required
       (schema_add k (localizeSchema a (Obj (AList.update ''type'' t (formatBaseSchema opts f p))) loc p') s)"
proof -
  assume t: "\<not> enforces_required t" and s: "\<not> schema_enforces_required s"
  have "\<not> enforces_required (Obj (AList.update ''type'' t (formatBaseSchema opts f p)))"
    by (rule not_enforces_update[OF not_enforces_formatBaseSchema t]) simp
  then have "\<not> enforces_required
      (localizeSchema a (Obj (AList.update ''type'' t (formatBaseSchema opts f p))) loc p')"
    by (rule not_enforces_localizeSchema) simp
  then show ?thesis using s by (simp only: ser_schema_add) simp
qed

lemma not_enforces_checkbox:
  "\<not> schema_enforces_required s \<Longrightarrow> \<not> schema_enforces_required (checkbox f s pl opts p)"
  unfolding checkbox_def Let_def by (rule not_enforces_leaf) simp_all

lemma not_enforces_code:
  "\<not> schema_enforces_required s \<Longrightarrow> \<not> schema_enforces_required (code f s pl opts p)"
  unfolding code_def Let_def by (rule not_enforces_leaf) simp_all

lemma not_enforces_date:
  "\<not> schema_enforces_required s \<Longrightarrow> \<not> schema_enforces_required (date f s pl opts p)"
  unfolding date_def Let_def by (rule not_enforces_leaf) simp_all

lemma not_enforces_email:
  "\<not> schema_enforces_required s \<Longrightarrow> \<not> schema_enforces_required (email f s pl opts p)"
  unfolding email_def Let_def by (rule not_enforces_leaf) simp_all

lemma not_enforces_json:
  "\<not> schema_enforces_required s \<Longrightarrow> \<not> schema_enforces_required (json f s pl opts p)"
  unfolding json_def Let_def by (rule not_enforces_leaf) simp_all

lemma not_enforces_number:
  "\<not> schema_enforces_required s \<Longrightarrow> \<not> schema_enforces_required (number f s pl opts p)"
  unfolding number_def Let_def by (rule not_enforces_leaf) simp_all

lemma not_enforces_richText:
  "\<not> schema_enforces_required s \<Longrightarrow> \<not> schema_enforces_required (richText f s pl opts p)"
  unfolding richText_def Let_def by (rule not_enforces_leaf) simp_all

lemma not_enforces_text_field:
  "\<not> schema_enforces_required s \<Longrightarrow> \<not> schema_enforces_required (text_field f s pl opts p)"
  unfolding text_field_def Let_def by (rule not_enforces_leaf) simp_all

lemma not_enforces_textarea:
  "\<not> schema_enforces_required s \<Longrightarrow> \<not> schema_enforces_required (textarea f s pl opts p)"
  unfolding textarea_def Let_def by (rule not_enforces_leaf) simp_all

lemma not_enforces_Arr_Str [simp]: "\<not> enforces_required (Arr (map (\<lambda>x. Str (g x)) xs))"
  by (induction xs) simp_all

lemma not_enforces_radio:
  assumes "\<not> schema_enforces_required s"
  shows "\<not> schema_enforces_required (radio f s pl opts p)"
proof -
  let ?base = "AList.update ''enum''
              (Arr (map (\<lambda>option. Str (option_value option)) (options (attrs f))))
              (AList.update ''type'' (Type TString) (formatBaseSchema opts f p))"
  have "\<not> enforces_required (Obj (AList.update ''type'' (Type TString) (formatBaseSchema opts f p)))"
    by (rule not_enforces_update[OF not_enforces_formatBaseSchema]) simp_all
  then have "\<not> enforces_required (Obj ?base)"
    by (rule not_enforces_update) simp_all
  then have "\<not> enforces_required (localizeSchema (attrs f) (Obj ?base) (localization pl) p)"
    by (rule not_enforces_localizeSchema) simp
  then show ?thesis
    unfolding radio_def Let_def using assms by (simp only: ser_schema_add) simp
qed

lemma not_enforces_select:
  assumes "\<not> schema_enforces_required s"
  shows "\<not> schema_enforces_required (select f s pl opts p)"
proof -
  let ?enum0 = "map (\<lambda>option. Str (option_value option)) (options (attrs f))"
  let ?enum1 = "if draftsEnabled opts \<or> \<not> required (attrs f) then ?enum0 @ [Null] else ?enum0"
  let ?base = "AList.update ''enum'' (Arr ?enum1)
              (AList.update ''type'' (Type TString) (formatBaseSchema opts f p))"
  have e: "\<not> enforces_required (Arr ?enum1)" by auto
  have "\<not> enforces_required (Obj (AList.update ''type'' (Type TString) (formatBaseSchema opts f p)))"
    by (rule not_enforces_update[OF not_enforces_formatBaseSchema]) simp_all
  then have b: "\<not> enforces_required (Obj ?base)"
    by (rule not_enforces_update[OF _ e]) simp
  then have "\<not> enforces_required (if hasMany (attrs f) then Arr [Obj ?base] else Obj ?base)"
    by (simp del: enforces_required.simps(2))
  then have "\<not> enforces_required (localizeSchema (attrs f)
               (if hasMany (attrs f) then Arr [Obj ?base] else Obj ?base) (localization pl) p)"
    by (rule not_enforces_localizeSchema) (simp split: if_splits)
  then show ?thesis
    unfolding select_def Let_def using assms by (simp only: ser_schema_add) simp
qed

lemma not_enforces_point:
  assumes "\<not> schema_enforces_required s"
  shows "\<not> schema_enforces_required (point f s pl opts p)"
proof -
  let ?a = "attrs f"
  let ?c0 = "[(''type'', Arr [Type TNumber]), (''default'', formatDefaultValue ?a),
              (''required'', Bool False)]"
  let ?c = "if disableUnique opts \<and> unique ?a \<and> fieldShouldBeLocalized ?a p
            then AList.update ''sparse'' (Bool True) ?c0 else ?c0"
  let ?base = "[(''type'',
              Obj ([(''type'', Type TString), (''enum'', Arr [Str ''Point''])] @
                   (if defaultValue ?a \<noteq> DefaultUndefined
                    then [(''default'', Str ''Point'')] else []))),
             (''coordinates'', Obj ?c)]"
  let ?s1 = "schema_add (field_name ?a) (localizeSchema ?a (Obj ?base) (localization pl) p) s"
  have c0: "\<not> enforces_required (Obj ?c0)" by simp
  have c: "\<not> enforces_required (Obj ?c)"
    using c0 not_enforces_update[OF c0, of "Bool True" "''sparse''"] by simp
  have t: "\<not> enforces_required (Obj ([(''type'', Type TString), (''enum'', Arr [Str ''Point''])] @
                   (if defaultValue ?a \<noteq> DefaultUndefined
                    then [(''default'', Str ''Point'')] else [])))"
    by simp
  have "\<not> enforces_required (Obj ?base)"
    using c t by (simp del: enforces_required.simps(2) add: enforces_required.simps(2)[of "[_, _]"])
  then have "\<not> enforces_required (localizeSchema ?a (Obj ?base) (localization pl) p)"
    by (rule not_enforces_localizeSchema) simp
  then have s1': "\<not> schema_enforces_required ?s1"
    using assms by (simp only: ser_schema_add) simp
  define s1 where "s1 = ?s1"
  define io where "io = (if \<not> disableUnique opts \<and> unique ?a
                   then [(''sparse'', True), (''unique'', True)] else [])"
  have s1: "\<not> schema_enforces_required s1" unfolding s1_def by (rule s1')
  have idx: "\<not> schema_enforces_required (fold (\<lambda>x. schema_index (g x) io) xs s')"
    if "\<not> schema_enforces_required s'" for g :: "string \<Rightarrow> (string \<times> index_kind) list" and xs s'
    using that by (induction xs arbitrary: s') simp_all
  have eq: "point f s pl opts p =
     (if index ?a = Some True \<or> index ?a = None
      then (case localization pl of
              Some l \<Rightarrow>
                if fieldShouldBeLocalized ?a p
                then fold (\<lambda>locale. schema_index [(field_name ?a @ ''.'' @ locale, Sphere2d)] io)
                       (locales l) s1
                else schema_index [(field_name ?a, Sphere2d)] io s1
            | None \<Rightarrow> schema_index [(field_name ?a, Sphere2d)] io s1)
      else s1)"
    unfolding point_def Let_def s1_def io_def by (rule refl)
  show ?thesis
    unfolding eq using s1 idx[OF s1] by (auto split: option.splits)
qed

lemma not_enforces_locales_fun:
  "\<not> enforces_required (Obj acc) \<Longrightarrow>
   (\<And>c. \<not> enforces_required (g c) \<and> g c \<noteq> Bool True) \<Longrightarrow>
     \<not> enforces_required (Obj (foldl (\<lambda>ls locale. AList.update locale (g locale) ls) acc codes))"
proof (induction codes arbitrary: acc)
  case Nil
  then show ?case by simp
next
  case (Cons c codes)
  have step: "\<not> enforces_required (Obj (AList.update c (g c) acc))"
    using Cons.prems(1) Cons.prems(2)[of c] enforces_update[of c "g c" acc] by blast
  show ?case
    unfolding foldl_Cons by (rule Cons.IH[OF step Cons.prems(2)])
qed

lemma not_enforces_relationTo_value [simp]: "\<not> enforces_required (relationTo_value r)"
  by (cases r) simp_all

lemma not_enforces_relationship:
  assumes "\<not> schema_enforces_required s"
  shows "\<not> schema_enforces_required (relationship f s pl opts p)"
proof -
  let ?a = "attrs f"
  define valueType where "valueType = getRelationshipValueType f pl"
  define base where "base = formatBaseSchema opts f p"
  define union_of where "union_of = (\<lambda>refPath.
            AList.update ''value'' (Obj [(''type'', Type valueType), (''refPath'', Str refPath)])
              (AList.update ''relationTo''
                 (Obj [(''type'', Type TString), (''enum'', relationTo_value (relationTo ?a))])
                 (AList.update ''type'' (Type TMixed)
                    (AList.update ''_id'' (Bool False) base))))"
  define single where "single =
            AList.update ''ref'' (relationTo_value (relationTo ?a))
              (AList.update ''type'' (Type valueType) base)"
  define many where "many = (\<lambda>d. if hasMany ?a
                       then Obj [(''type'', Arr [d]), (''default'', formatDefaultValue ?a)]
                       else d)"
  define localized_return where "localized_return = (\<lambda>l :: localization_config.
            Obj [(''_id'', Bool False),
                 (''type'',
                  Obj (foldl
                         (\<lambda>ls locale.
                            AList.update locale
                              (many (Obj (if hasManyRelations (relationTo ?a)
                                          then union_of (field_name ?a @ ''.'' @ locale
                                                          @ ''.relationTo'')
                                          else single)))
                              ls)
                         [] (localeCodes l))),
                 (''localized'', Bool True)])"
  define schemaToReturn where "schemaToReturn =
            (case localization pl of
               Some l \<Rightarrow>
                 if fieldShouldBeLocalized ?a p then localized_return l
                 else if hasManyRelations (relationTo ?a)
                 then many (Obj (union_of (field_name ?a @ ''.relationTo'')))
                 else many (Obj single)
             | None \<Rightarrow>
                 if hasManyRelations (relationTo ?a)
                 then many (Obj (union_of (field_name ?a @ ''.relationTo'')))
                 else many (Obj single))"
  have eq: "relationship f s pl opts p = schema_add (field_name ?a) schemaToReturn s"
    unfolding relationship_def Let_def schemaToReturn_def localized_return_def many_def
      single_def union_of_def base_def valueType_def by (rule refl)
  have b: "\<not> enforces_required (Obj base)"
    unfolding base_def by (rule not_enforces_formatBaseSchema)
  have single: "\<not> enforces_required (Obj single)"
    unfolding single_def
    by (intro not_enforces_update b) simp_all
  have union: "\<not> enforces_required (Obj (union_of path))" for path
    unfolding union_of_def
    by (intro not_enforces_update b) simp_all
  have many: "\<not> enforces_required (many d) \<and> many d \<noteq> Bool True"
    if "\<not> enforces_required d" and "d \<noteq> Bool True" for d
    using that unfolding many_def by simp
  have per_locale: "\<not> enforces_required (many (Obj (if hasManyRelations (relationTo ?a)
                                          then union_of (field_name ?a @ ''.'' @ lc
                                                          @ ''.relationTo'')
                                          else single))) \<and>
      many (Obj (if hasManyRelations (relationTo ?a)
                                          then union_of (field_name ?a @ ''.'' @ lc
                                                          @ ''.relationTo'')
                                          else single)) \<noteq> Bool True" for lc
    by (rule many) (use single union in \<open>simp_all del: enforces_required.simps(2) split: if_splits\<close>)
  have types: "\<not> enforces_required (Obj (foldl
                         (\<lambda>ls locale.
                            AList.update locale
                              (many (Obj (if hasManyRelations (relationTo ?a)
                                          then union_of (field_name ?a @ ''.'' @ locale
                                                          @ ''.relationTo'')
                                          else single)))
                              ls)
                         [] codes))" for codes
    by (rule not_enforces_locales_fun) (simp, rule per_locale)
  have loc: "\<not> enforces_required (localized_return l)" for l
    unfolding localized_return_def using types[of "localeCodes l"]
    by (simp del: enforces_required.simps(2) add: enforces_required.simps(2)[of "[_, _, _]"])
  have "\<not> enforces_required schemaToReturn"
    unfolding schemaToReturn_def
    using loc many[OF single] many[OF union]
    by (simp del: enforces_required.simps(2) split: option.split)
  then show ?thesis
    unfolding eq using assms by (simp only: ser_schema_add) simp
qed

lemma not_enforces_upload:
  "\<not> schema_enforces_required s \<Longrightarrow> \<not> schema_enforces_required (upload f s pl opts p)"
  unfolding upload_def by (rule not_enforces_relationship)

lemma not_enforces_compound_indexes:
  "\<not> schema_enforces_required s \<Longrightarrow> \<not> schema_enforces_required (compound_indexes cis pl opts s)"
  unfolding compound_indexes_def
  by (rule fold_invariant) (simp_all add: Let_def)

lemma not_enforces_blocks_discriminators:
  assumes "\<not> schema_enforces_required s"
    and "\<And>e. e \<in> set blocksToAdd \<Longrightarrow> \<not> ref_enforces_required (snd (snd e))"
  shows "\<not> schema_enforces_required (blocks_discriminators a pl p blocksToAdd s)"
  unfolding blocks_discriminators_def
proof (rule fold_invariant[where P = "\<lambda>s. \<not> schema_enforces_required s"])
  fix e s'
  assume e: "e \<in> set blocksToAdd" and s': "\<not> schema_enforces_required s'"
  obtain sl isInline blockSchema where [simp]: "e = (sl, isInline, blockSchema)"
    by (cases e) auto
  have r: "\<not> ref_enforces_required blockSchema" using assms(2)[OF e] by simp
  have inner: "\<not> schema_enforces_required
      (fold (\<lambda>localeCode. schema_discriminator (g localeCode) sl blockSchema) codes s')"
    for g :: "string \<Rightarrow> string" and codes
    by (rule fold_invariant[where P = "\<lambda>s. \<not> schema_enforces_required s"]) (simp_all add: r s')
  show "\<not> schema_enforces_required
         ((\<lambda>(sl, isInline, blockSchema) s.
             case localization pl of
               Some l \<Rightarrow>
                 if fieldShouldBeLocalized a p
                 then fold (\<lambda>localeCode.
                              schema_discriminator (field_name a @ ''.'' @ localeCode) sl blockSchema)
                        (localeCodes l) s
                 else schema_discriminator (field_name a) sl blockSchema s
             | None \<Rightarrow> schema_discriminator (field_name a) sl blockSchema s) e s')"
    using inner r s' by (simp split: option.split)
qed (rule assms(1))

lemma refs_ok_blocks_global:
  assumes "\<forall>e \<in> set (fst st). \<not> ref_enforces_required (snd (snd e))"
  shows "\<forall>e \<in> set (fst (blocks_global pl st)). \<not> ref_enforces_required (snd (snd e))"
proof (cases "config_blocks pl")
  case None
  then show ?thesis using assms by (simp add: blocks_global_def)
next
  case (Some bs)
  have "\<forall>e \<in> set (fst (fold (\<lambda>block (blocksToAdd, processedSlugs).
                  if slug block \<notin> processedSlugs
                  then (case map_of (globalBlockSchemas pl) (slug block) of
                          Some preBuiltSchema \<Rightarrow>
                            (blocksToAdd @ [(slug block, False, Shell preBuiltSchema)],
                             insert (slug block) processedSlugs)
                        | None \<Rightarrow> (blocksToAdd, processedSlugs))
                  else (blocksToAdd, processedSlugs)) bs st)). \<not> ref_enforces_required (snd (snd e))"
    by (rule fold_invariant[where P = "\<lambda>st. \<forall>e \<in> set (fst st). \<not> ref_enforces_required (snd (snd e))"])
       (use assms in \<open>fastforce split: option.splits if_splits\<close>)+
  then show ?thesis by (simp add: blocks_global_def Some)
qed

lemmas builder_simps =
  addFieldSchema.simps buildSchema.simps array.simps blocks.simps collapsible.simps
  group.simps row.simps tabs.simps

declare builder_simps [simp del]

lemma not_enforces_id_fields:
  "\<not> schema_enforces_required
      (new_Schema (case idField of
               Some f \<Rightarrow> [(''_id'', Type (g f))]
             | None \<Rightarrow> []) ro)"
  by (cases idField) simp_all

lemma never_required_builder:
  shows "\<not> schema_enforces_required s1 \<Longrightarrow>
           \<not> schema_enforces_required (addFieldSchema f1 s1 pl1 o1 p1)"
    and "\<not> schema_enforces_required (buildSchema o2 cis2 fs2 p2 pl2)"
    and "\<not> schema_enforces_required s3 \<Longrightarrow> \<not> schema_enforces_required (array f3 s3 pl3 o3 p3)"
    and "\<not> schema_enforces_required s4 \<Longrightarrow> \<not> schema_enforces_required (blocks f4 s4 pl4 o4 p4)"
    and "\<not> schema_enforces_required s5 \<Longrightarrow>
           \<not> schema_enforces_required (collapsible f5 s5 pl5 o5 p5)"
    and "\<not> schema_enforces_required s6 \<Longrightarrow> \<not> schema_enforces_required (group f6 s6 pl6 o6 p6)"
    and "\<not> schema_enforces_required s7 \<Longrightarrow> \<not> schema_enforces_required (row f7 s7 pl7 o7 p7)"
    and "\<not> schema_enforces_required s8 \<Longrightarrow> \<not> schema_enforces_required (tabs f8 s8 pl8 o8 p8)"
proof (induction f1 s1 pl1 o1 p1 and o2 cis2 fs2 p2 pl2 and f3 s3 pl3 o3 p3 and f4 s4 pl4 o4 p4
         and f5 s5 pl5 o5 p5 and f6 s6 pl6 o6 p6 and f7 s7 pl7 o7 p7 and f8 s8 pl8 o8 p8
       rule: addFieldSchema_buildSchema_array_blocks_collapsible_group_row_tabs.induct)
  case (1 ty a fs bs refs ts schema payload buildSchemaOptions parentIsLocalized)
  show ?case
    using "1.prems" "1.IH"
    by (cases ty)
       (simp_all add: addFieldSchema.simps not_enforces_checkbox not_enforces_code
          not_enforces_date not_enforces_email not_enforces_json not_enforces_number
          not_enforces_point not_enforces_radio not_enforces_relationship
          not_enforces_richText not_enforces_select not_enforces_text_field
          not_enforces_textarea not_enforces_upload)
next
  case (2 buildSchemaOptions compoundIndexes configFields parentIsLocalized payload)
  show ?case
    unfolding buildSchema.simps Let_def
    apply (rule not_enforces_compound_indexes)
    apply (rule fold_invariant[where P = "\<lambda>s. \<not> schema_enforces_required s"])
     apply (simp split: if_split)
     apply (intro conjI impI)
     apply (rule "2.IH"[OF refl refl refl refl refl])
        apply assumption+
    apply (rule not_enforces_id_fields)
    done
next
  case (3 ty a fs bs refs ts schema payload buildSchemaOptions parentIsLocalized)
  show ?case
    unfolding array.simps Let_def
    by (rule not_enforces_leaf) (simp_all add: "3.IH"[OF refl] "3.prems")
next
  case (4 ty a fs bs refs ts schema payload buildSchemaOptions parentIsLocalized)
  let ?compile = "\<lambda>bfs. fold (\<lambda>blockField s.
                                    addFieldSchema blockField s payload buildSchemaOptions
                                      (parentIsLocalized \<or> localized a))
                              bfs (new_Schema [] (Some block_options))"
  let ?ok = "\<lambda>st :: blocks_to_add. \<forall>e \<in> set (fst st). \<not> ref_enforces_required (snd (snd e))"
  define schema1 where "schema1 =
            schema_add (field_name a)
              (localizeSchema a (Obj (AList.update ''type''
              (Arr [Sub (new_Schema []
                      (Some [(''_id'', Bool False), (''discriminatorKey'', Str ''blockType'')]))])
              (formatBaseSchema buildSchemaOptions (Field ty a fs bs refs ts) parentIsLocalized)))
                 (localization payload) parentIsLocalized) schema"
  define step1 where "step1 =
            fold (\<lambda>block (blocksToAdd, processedSlugs).
                    case block of Block sl bfs \<Rightarrow>
                      let blockSchema = ?compile bfs
                      in (blocksToAdd @ [(sl, True, Inline blockSchema)],
                          insert sl processedSlugs))
              bs ([], {})"
  define step2 where "step2 =
            (case refs of
               NoReferences \<Rightarrow> step1
             | GlobalBlocks \<Rightarrow> blocks_global payload step1
             | References blockRefs \<Rightarrow>
                 fold (\<lambda>blockRef (blocksToAdd, processedSlugs).
                         case blockRef of
                           BlockRef (Block sl bfs) \<Rightarrow>
                             if sl \<notin> processedSlugs
                             then
                               let blockSchema = ?compile bfs
                               in (blocksToAdd @ [(sl, True, Inline blockSchema)],
                                   insert sl processedSlugs)
                             else (blocksToAdd, processedSlugs)
                         | SlugRef sl \<Rightarrow>
                             if sl \<notin> processedSlugs
                             then (case map_of (globalBlockSchemas payload) sl of
                                     Some preBuiltSchema \<Rightarrow>
                                       (blocksToAdd @ [(sl, False, Shell preBuiltSchema)],
                                        insert sl processedSlugs)
                                   | None \<Rightarrow> (blocksToAdd, processedSlugs))
                             else (blocksToAdd, processedSlugs))
                   blockRefs step1)"
  have eq: "blocks (Field ty a fs bs refs ts) schema payload buildSchemaOptions parentIsLocalized
        = blocks_discriminators a payload parentIsLocalized (fst step2) schema1"
    unfolding blocks.simps Let_def step2_def step1_def schema1_def by (rule refl)
  have s1: "\<not> schema_enforces_required schema1"
    unfolding schema1_def by (rule not_enforces_leaf) (simp_all add: "4.prems")
  have inline: "\<not> schema_enforces_required (?compile bfs)"
    if "Block sl bfs \<in> set bs" for sl bfs
    by (rule fold_invariant[where P = "\<lambda>s. \<not> schema_enforces_required s"])
       (simp_all add: "4.IH"(1)[OF refl refl refl that refl])
  have ok1: "?ok step1"
    unfolding step1_def
  proof (rule fold_invariant[where P = ?ok])
    fix b and st :: blocks_to_add
    assume b: "b \<in> set bs" and st: "?ok st"
    obtain sl bfs where [simp]: "b = Block sl bfs" by (cases b)
    obtain blocksToAdd processedSlugs where [simp]: "st = (blocksToAdd, processedSlugs)"
      by (cases st)
    show "?ok ((\<lambda>block (blocksToAdd, processedSlugs).
                    case block of Block sl bfs \<Rightarrow>
                      let blockSchema = ?compile bfs
                      in (blocksToAdd @ [(sl, True, Inline blockSchema)],
                          insert sl processedSlugs)) b st)"
      using st inline[of sl bfs] b by (auto simp: Let_def)
  qed simp
  have ok2: "?ok step2"
  proof (cases refs)
    case NoReferences
    then show ?thesis using ok1 by (simp add: step2_def)
  next
    case GlobalBlocks
    then show ?thesis using refs_ok_blocks_global[OF ok1] by (simp add: step2_def)
  next
    case (References blockRefs)
    have listed: "\<not> schema_enforces_required (?compile bfs)"
      if "BlockRef (Block sl bfs) \<in> set blockRefs" for sl bfs
      by (rule fold_invariant[where P = "\<lambda>s. \<not> schema_enforces_required s"])
         (simp_all add: "4.IH"(2)[OF refl refl refl refl References that refl refl, of "{}"])
    have "?ok (fold (\<lambda>blockRef (blocksToAdd, processedSlugs).
                         case blockRef of
                           BlockRef (Block sl bfs) \<Rightarrow>
                             if sl \<notin> processedSlugs
                             then
                               let blockSchema = ?compile bfs
                               in (blocksToAdd @ [(sl, True, Inline blockSchema)],
                                   insert sl processedSlugs)
                             else (blocksToAdd, processedSlugs)
                         | SlugRef sl \<Rightarrow>
                             if sl \<notin> processedSlugs
                             then (case map_of (globalBlockSchemas payload) sl of
                                     Some preBuiltSchema \<Rightarrow>
                                       (blocksToAdd @ [(sl, False, Shell preBuiltSchema)],
                                        insert sl processedSlugs)
                                   | None \<Rightarrow> (blocksToAdd, processedSlugs))
                             else (blocksToAdd, processedSlugs))
                   blockRefs step1)"
    proof (rule fold_invariant[where P = ?ok])
      fix r and st :: blocks_to_add
      assume r: "r \<in> set blockRefs" and st: "?ok st"
      obtain blocksToAdd processedSlugs where [simp]: "st = (blocksToAdd, processedSlugs)"
        by (cases st)
      show "?ok ((\<lambda>blockRef (blocksToAdd, processedSlugs).
                         case blockRef of
                           BlockRef (Block sl bfs) \<Rightarrow>
                             if sl \<notin> processedSlugs
                             then
                               let blockSchema = ?compile bfs
                               in (blocksToAdd @ [(sl, True, Inline blockSchema)],
                                   insert sl processedSlugs)
                             else (blocksToAdd, processedSlugs)
                         | SlugRef sl \<Rightarrow>
                             if sl \<notin> processedSlugs
                             then (case map_of (globalBlockSchemas payload) sl of
                                     Some preBuiltSchema \<Rightarrow>
                                       (blocksToAdd @ [(sl, False, Shell preBuiltSchema)],
                                        insert sl processedSlugs)
                                   | None \<Rightarrow> (blocksToAdd, processedSlugs))
                             else (blocksToAdd, processedSlugs)) r st)"
      proof (cases r)
        case (SlugRef sl)
        then show ?thesis using st by (auto split: option.splits)
      next
        case (BlockRef b)
        obtain sl bfs where b: "b = Block sl bfs" by (cases b)
        show ?thesis
          using st listed[of sl bfs] r by (auto simp: BlockRef b Let_def)
      qed
    qed (rule ok1)
    then show ?thesis by (simp add: step2_def References)
  qed
  show ?case
    unfolding eq
    by (rule not_enforces_blocks_discriminators[OF s1]) (use ok2 in blast)
next
  case (5 ty a fs bs refs ts schema payload buildSchemaOptions parentIsLocalized)
  show ?case
    unfolding collapsible.simps
    by (rule fold_invariant[where P = "\<lambda>s. \<not> schema_enforces_required s"])
       (simp_all add: "5.IH" "5.prems")
next
  case (6 ty a fs bs refs ts schema payload buildSchemaOptions parentIsLocalized)
  show ?case
  proof (cases "fieldAffectsData (Field ty a fs bs refs ts)")
    case True
    show ?thesis
      unfolding group.simps Let_def if_P[OF True]
      by (rule not_enforces_leaf) (simp_all add: "6.IH"(1)[OF refl True refl refl] "6.prems")
  next
    case False
    show ?thesis
      unfolding group.simps Let_def if_not_P[OF False]
      by (rule fold_invariant[where P = "\<lambda>s. \<not> schema_enforces_required s"])
         (simp_all add: "6.IH"(2)[OF refl False] "6.prems")
  qed
next
  case (7 ty a fs bs refs ts schema payload buildSchemaOptions parentIsLocalized)
  show ?case
    unfolding row.simps
    by (rule fold_invariant[where P = "\<lambda>s. \<not> schema_enforces_required s"])
       (simp_all add: "7.IH" "7.prems")
next
  case (8 ty a fs bs refs ts schema payload buildSchemaOptions parentIsLocalized)
  show ?case
    unfolding tabs.simps
  proof (rule fold_invariant[where P = "\<lambda>s. \<not> schema_enforces_required s"])
    fix t s
    assume t: "t \<in> set ts" and s: "\<not> schema_enforces_required s"
    obtain ta tfs where tab: "t = Tab ta tfs" by (cases t)
    show "\<not> schema_enforces_required
            ((\<lambda>tab s.
             case tab of Tab ta tfs \<Rightarrow>
               if name ta \<noteq> None
               then
                 if fieldIsVirtual ta then s
                 else
                   (let baseSchema =
                          [(''type'',
                            Sub (buildSchema
                              \<lparr>allowIDField = False,
                               disableUnique = disableUnique buildSchemaOptions,
                               draftsEnabled = draftsEnabled buildSchemaOptions,
                               indexSortableFields = False,
                               raw_options = Some nested_options\<rparr>
                              [] tfs (parentIsLocalized \<or> localized ta) payload))]
                    in schema_add (field_name ta)
                         (localizeSchema ta (Obj baseSchema) (localization payload)
                            parentIsLocalized) s)
               else
                 fold (\<lambda>subField s'.
                         if fieldIsVirtual (attrs subField) then s'
                         else addFieldSchema subField s' payload buildSchemaOptions
                                (parentIsLocalized \<or> localized ta))
                   tfs s) t s)"
    proof (cases "name ta \<noteq> None")
      case True
      have sub: "\<not> enforces_required (Obj [(''type'',
                            Sub (buildSchema
                              \<lparr>allowIDField = False,
                               disableUnique = disableUnique buildSchemaOptions,
                               draftsEnabled = draftsEnabled buildSchemaOptions,
                               indexSortableFields = False,
                               raw_options = Some nested_options\<rparr>
                              [] tfs (parentIsLocalized \<or> localized ta) payload))])"
        if "\<not> fieldIsVirtual ta"
        using "8.IH"(1)[OF t tab True that] by simp
      show ?thesis
        using True s sub not_enforces_localizeSchema
        by (simp add: tab Let_def del: enforces_required.simps(2))
    next
      case False
      have "\<not> schema_enforces_required (fold (\<lambda>subField s'.
                         if fieldIsVirtual (attrs subField) then s'
                         else addFieldSchema subField s' payload buildSchemaOptions
                                (parentIsLocalized \<or> localized ta))
                   tfs s)"
        by (rule fold_invariant[where P = "\<lambda>s. \<not> schema_enforces_required s"])
           (simp_all add: "8.IH"(2)[OF t tab False] s)
      then show ?thesis using False by (simp add: tab)
    qed
  qed (rule "8.prems")
qed

lemma not_enforces_store:
  assumes "\<forall>s \<in> set store. \<not> schema_enforces_required s"
  shows "\<forall>s \<in> set (snd (buildGlobalBlockSchemas payload opts store)). \<not> schema_enforces_required s"
proof (cases "config_blocks payload")
  case None
  then show ?thesis using assms by (simp add: buildGlobalBlockSchemas_def)
next
  case (Some bs)
  let ?ok = "\<lambda>st. \<forall>s \<in> set st. \<not> schema_enforces_required s"
  let ?p1 = "fold (\<lambda>block (schemas, st).
                           (AList.update (slug block) (length st) schemas,
                            st @ [new_Schema [] (Some block_options)]))
                     bs ([], store)"
  have p1: "?ok (snd ?p1)"
    by (rule fold_invariant[where P = "\<lambda>x. ?ok (snd x)"]) (use assms in auto)
  have populate: "\<not> schema_enforces_required
      (fold (\<lambda>field s.
                                            if fieldIsVirtual (attrs field) then s
                                            else if \<not> fieldIsPresentationalOnly field
                                            then addFieldSchema field s payload opts False
                                            else s) fs s)"
    if "\<not> schema_enforces_required s" for fs s
    by (rule fold_invariant[where P = "\<lambda>s. \<not> schema_enforces_required s"])
       (simp_all add: never_required_builder(1) that)
  have p2: "?ok (fold (\<lambda>block st.
                           case map_of (fst ?p1) (slug block) of
                             Some blockSchema \<Rightarrow>
                               st[blockSchema :=
                                    fold (\<lambda>field s.
                                            if fieldIsVirtual (attrs field) then s
                                            else if \<not> fieldIsPresentationalOnly field
                                            then addFieldSchema field s payload opts False
                                            else s)
                                      (block_fields block) (st ! blockSchema)]
                           | None \<Rightarrow> st)
                     bs (snd ?p1))"
  proof (rule fold_invariant[where P = ?ok])
    fix b st
    assume st: "?ok st"
    show "?ok (case map_of (fst ?p1) (slug b) of
                             Some blockSchema \<Rightarrow>
                               st[blockSchema :=
                                    fold (\<lambda>field s.
                                            if fieldIsVirtual (attrs field) then s
                                            else if \<not> fieldIsPresentationalOnly field
                                            then addFieldSchema field s payload opts False
                                            else s)
                                      (block_fields b) (st ! blockSchema)]
                           | None \<Rightarrow> st)"
    proof (cases "map_of (fst ?p1) (slug b)")
      case None
      then show ?thesis using st by simp
    next
      case (Some i)
      show ?thesis
      proof (cases "i < length st")
        case True
        then have "\<not> schema_enforces_required (st ! i)" using st by simp
        then have new: "\<not> schema_enforces_required
            (fold (\<lambda>field s.
                                            if fieldIsVirtual (attrs field) then s
                                            else if \<not> fieldIsPresentationalOnly field
                                            then addFieldSchema field s payload opts False
                                            else s) (block_fields b) (st ! i))"
          by (rule populate)
        show ?thesis
          unfolding Some option.case
          using st new set_update_subset_insert[of st i] by blast
      next
        case False
        then have "st[i := x] = st" for x by (simp add: list_update_beyond)
        then show ?thesis using st by (simp add: Some)
      qed
    qed
  qed (rule p1)
  show ?thesis
    using p2 assms by (simp add: buildGlobalBlockSchemas_def Some Let_def)
qed

text \<open>
  Claim C9.  The base-descriptor routine writes \<^verbatim>\<open>required: false\<close> into every leaf descriptor,
  whatever the field's \<^verbatim>\<open>required\<close> flag is, and no descriptor anywhere in a compiled schema says
  \<^verbatim>\<open>required: true\<close>: not in the schema \<^verbatim>\<open>buildSchema\<close> returns, not after any generator has added
  a field to a schema that had none, and not in the shells of the variant registry.  Between a
  required and an optional field the base descriptor differs at most in its \<^verbatim>\<open>sparse\<close> marker.
\<close>

theorem required_never_enforced:
  "map_of (formatBaseSchema opts field p) ''required'' = Some (Bool False)
   \<and> \<not> schema_enforces_required (buildSchema opts compoundIndexes configFields p payload)
   \<and> (\<not> schema_enforces_required schema \<longrightarrow>
        \<not> schema_enforces_required (addFieldSchema field schema payload opts p))
   \<and> ((\<forall>s \<in> set store. \<not> schema_enforces_required s) \<longrightarrow>
        (\<forall>s \<in> set (snd (buildGlobalBlockSchemas payload opts store)).
           \<not> schema_enforces_required s))
   \<and> filter (\<lambda>kv. fst kv \<noteq> ''sparse'')
         (formatBaseSchema opts (Field ty (a\<lparr>required := True\<rparr>) fs bs refs ts) p)
       = filter (\<lambda>kv. fst kv \<noteq> ''sparse'')
         (formatBaseSchema opts (Field ty (a\<lparr>required := False\<rparr>) fs bs refs ts) p)"
proof (intro conjI impI)
  show "map_of (formatBaseSchema opts field p) ''required'' = Some (Bool False)"
    by (simp add: formatBaseSchema_def Let_def update_conv')
  show "\<not> schema_enforces_required (buildSchema opts compoundIndexes configFields p payload)"
    by (rule never_required_builder(2))
  show "\<not> schema_enforces_required (addFieldSchema field schema payload opts p)"
    if "\<not> schema_enforces_required schema"
    by (rule never_required_builder(1)[OF that])
  show "\<forall>s \<in> set (snd (buildGlobalBlockSchemas payload opts store)).
           \<not> schema_enforces_required s"
    if "\<forall>s \<in> set store. \<not> schema_enforces_required s"
    by (rule not_enforces_store[OF that])
  show "filter (\<lambda>kv. fst kv \<noteq> ''sparse'')
         (formatBaseSchema opts (Field ty (a\<lparr>required := True\<rparr>) fs bs refs ts) p)
       = filter (\<lambda>kv. fst kv \<noteq> ''sparse'')
         (formatBaseSchema opts (Field ty (a\<lparr>required := False\<rparr>) fs bs refs ts) p)"
    by (simp add: formatBaseSchema_def Let_def formatDefaultValue_def fieldShouldBeLocalized_def
          fieldAffectsData_def)
qed

theorem required_never_enforced_witness:
  "\<not> schema_enforces_required
      (addFieldSchema
         (Field ty_text ((named ''title'')\<lparr>required := True\<rparr>) [] [] NoReferences [])
         (new_Schema [] None) bare_payload no_options False)
   \<and> \<not> schema_enforces_required
      (snd (buildGlobalBlockSchemas
         (bare_payload\<lparr>config_blocks :=
            Some [Block ''hero'' [Field ty_text ((named ''title'')\<lparr>required := True\<rparr>) [] []
                                   NoReferences []]]\<rparr>)
         no_options []) ! 0)"
proof -
  have 1: "\<not> schema_enforces_required (new_Schema [] None)" by simp
  have 2: "\<forall>s \<in> set ([] :: schema list). \<not> schema_enforces_required s" by simp
  have 3: "snd (buildGlobalBlockSchemas
         (bare_payload\<lparr>config_blocks :=
            Some [Block ''hero'' [Field ty_text ((named ''title'')\<lparr>required := True\<rparr>) [] []
                                   NoReferences []]]\<rparr>)
         no_options []) \<noteq> []"
    by (simp add: buildGlobalBlockSchemas_def)
  show ?thesis
    using required_never_enforced
      [of no_options "Field ty_text ((named ''title'')\<lparr>required := True\<rparr>) [] [] NoReferences []"
          False "[]" "[]"
          "bare_payload\<lparr>config_blocks :=
            Some [Block ''hero'' [Field ty_text ((named ''title'')\<lparr>required := True\<rparr>) [] []
                                   NoReferences []]]\<rparr>"
          "new_Schema [] None" "[]"] 1 2 3
      required_never_enforced
      [of no_options "Field ty_text ((named ''title'')\<lparr>required := True\<rparr>) [] [] NoReferences []"
          False "[]" "[]" bare_payload "new_Schema [] None" "[]"]
    by (metis nth_mem length_greater_0_conv)
qed

section \<open>The localized flag without a localization configuration\<close>

lemma erase_update_sparse:
  "erase_sparse (Obj (AList.update ''sparse'' v al)) = erase_sparse (Obj al)"
  by (induction al) auto

lemma erase_update_other:
  assumes "k \<noteq> ''sparse''"
  shows "erase_sparse (Obj (AList.update k v al)) =
         Obj (AList.update k (erase_sparse v)
                (map (\<lambda>kv. (fst kv, erase_sparse (snd kv))) (filter (\<lambda>kv. fst kv \<noteq> ''sparse'') al)))"
  using assms by (induction al) auto

lemma erase_update_cong:
  assumes "k \<noteq> ''sparse''"
    and "erase_sparse (Obj al) = erase_sparse (Obj al')"
    and "erase_sparse v = erase_sparse v'"
  shows "erase_sparse (Obj (AList.update k v al)) = erase_sparse (Obj (AList.update k v' al'))"
  using assms(2,3) unfolding erase_update_other[OF assms(1)] by simp

lemma erase_formatBaseSchema:
  assumes "ftype f' = ftype f" and "attrs f' = (attrs f)\<lparr>localized := b\<rparr>"
  shows "erase_sparse (Obj (formatBaseSchema opts f p)) = erase_sparse (Obj (formatBaseSchema opts f' p'))"
proof -
  let ?is_unique = "\<not> disableUnique opts \<and> unique (attrs f)"
  define schema0 where "schema0 = [(''default'', formatDefaultValue (attrs f)),
             (''index'', Bool (index (attrs f) = Some True \<or> ?is_unique \<or> indexSortableFields opts)),
             (''required'', Bool False),
             (''unique'', Bool ?is_unique)]"
  have dv: "formatDefaultValue (attrs f') = formatDefaultValue (attrs f)"
    by (simp add: assms formatDefaultValue_def)
  have shape: "formatBaseSchema opts g q =
      (if hidden (attrs f) then AList.update ''hidden'' (Bool True)
                  (if ?is_unique \<and> (fieldShouldBeLocalized (attrs g) q \<or> draftsEnabled opts \<or>
                 (fieldAffectsData g \<and> ftype g \<noteq> ty_group \<and>
                  ftype g \<noteq> ty_tab \<and> \<not> required (attrs g)))
                   then AList.update ''sparse'' (Bool True) schema0 else schema0)
       else (if ?is_unique \<and> (fieldShouldBeLocalized (attrs g) q \<or> draftsEnabled opts \<or>
                 (fieldAffectsData g \<and> ftype g \<noteq> ty_group \<and>
                  ftype g \<noteq> ty_tab \<and> \<not> required (attrs g)))
             then AList.update ''sparse'' (Bool True) schema0 else schema0))"
    if "attrs g = (attrs f)\<lparr>localized := x\<rparr>" for g q x
    unfolding formatBaseSchema_def Let_def schema0_def
    by (simp add: that formatDefaultValue_def)
  have inner: "erase_sparse (Obj (if c then AList.update ''sparse'' (Bool True) schema0 else schema0))
       = erase_sparse (Obj schema0)" for c
    by (simp add: erase_update_sparse del: erase_sparse.simps(2))
  have outer: "erase_sparse (Obj (if h then AList.update ''hidden'' (Bool True)
                  (if c then AList.update ''sparse'' (Bool True) schema0 else schema0)
       else (if c then AList.update ''sparse'' (Bool True) schema0 else schema0)))
     = erase_sparse (Obj (if h then AList.update ''hidden'' (Bool True) schema0 else schema0))" for c h
  proof (cases h)
    case True
    show ?thesis
      unfolding if_P[OF True]
      by (rule erase_update_cong) (simp_all add: inner del: erase_sparse.simps(2))
  next
    case False
    then show ?thesis using inner by (simp del: erase_sparse.simps(2))
  qed
  have 1: "attrs f = (attrs f)\<lparr>localized := localized (attrs f)\<rparr>" by simp
  show ?thesis unfolding shape[OF 1] shape[OF assms(2)] outer by (rule refl)
qed

lemma erase_schema_add [simp]:
  "schema_erase_sparse (schema_add k d s) = schema_add k (erase_sparse d) (schema_erase_sparse s)"
  by (cases s) (simp add: schema_add_def)

lemma erase_schema_index [simp]:
  "schema_erase_sparse (schema_index fs io s) = schema_index fs io (schema_erase_sparse s)"
  by (cases s) (simp add: schema_index_def)

lemma erase_schema_discriminator [simp]:
  "schema_erase_sparse (schema_discriminator pa sl r s)
     = schema_discriminator pa sl (ref_erase_sparse r) (schema_erase_sparse s)"
  by (cases s) (simp add: schema_discriminator_def)

lemma erase_new_Schema [simp]:
  "schema_erase_sparse (new_Schema fs ro) =
     new_Schema (map (\<lambda>kv. (fst kv, erase_sparse (snd kv))) fs) ro"
  by (simp add: new_Schema_def)

lemma localizeSchema_None [simp]: "localizeSchema a d None p = d"
  by (simp add: localizeSchema_def)

lemma field_name_localized [simp]: "field_name (a\<lparr>localized := b\<rparr>) = field_name a"
  by (simp add: field_name_def)

lemma erase_leaf:
  assumes "ftype f' = ftype f" and "attrs f' = (attrs f)\<lparr>localized := b\<rparr>"
    and "erase_sparse t = erase_sparse t'"
    and "schema_erase_sparse s = schema_erase_sparse s'"
  shows "schema_erase_sparse
           (schema_add (field_name (attrs f))
              (localizeSchema (attrs f) (Obj (AList.update ''type'' t (formatBaseSchema opts f p)))
                 None p) s)
       = schema_erase_sparse
           (schema_add (field_name (attrs f'))
              (localizeSchema (attrs f') (Obj (AList.update ''type'' t' (formatBaseSchema opts f' p')))
                 None p') s')"
proof -
  have "erase_sparse (Obj (AList.update ''type'' t (formatBaseSchema opts f p)))
      = erase_sparse (Obj (AList.update ''type'' t' (formatBaseSchema opts f' p')))"
    by (rule erase_update_cong[OF _ erase_formatBaseSchema[OF assms(1,2)] assms(3)]) simp
  then show ?thesis
    using assms(2,4) by (simp del: erase_sparse.simps(2))
qed

lemma erase_checkbox:
  assumes "localization pl = None" and "ftype f' = ftype f" and "attrs f' = (attrs f)\<lparr>localized := b\<rparr>"
    and "schema_erase_sparse s = schema_erase_sparse s'"
  shows "schema_erase_sparse (checkbox f s pl opts p) = schema_erase_sparse (checkbox f' s' pl opts p')"
  unfolding checkbox_def Let_def assms(1)
  by (rule erase_leaf[OF assms(2,3) _ assms(4)]) (simp add: assms(3))

lemma erase_code:
  assumes "localization pl = None" and "ftype f' = ftype f" and "attrs f' = (attrs f)\<lparr>localized := b\<rparr>"
    and "schema_erase_sparse s = schema_erase_sparse s'"
  shows "schema_erase_sparse (code f s pl opts p) = schema_erase_sparse (code f' s' pl opts p')"
  unfolding code_def Let_def assms(1)
  by (rule erase_leaf[OF assms(2,3) _ assms(4)]) (simp add: assms(3))

lemma erase_date:
  assumes "localization pl = None" and "ftype f' = ftype f" and "attrs f' = (attrs f)\<lparr>localized := b\<rparr>"
    and "schema_erase_sparse s = schema_erase_sparse s'"
  shows "schema_erase_sparse (date f s pl opts p) = schema_erase_sparse (date f' s' pl opts p')"
  unfolding date_def Let_def assms(1)
  by (rule erase_leaf[OF assms(2,3) _ assms(4)]) (simp add: assms(3))

lemma erase_email:
  assumes "localization pl = None" and "ftype f' = ftype f" and "attrs f' = (attrs f)\<lparr>localized := b\<rparr>"
    and "schema_erase_sparse s = schema_erase_sparse s'"
  shows "schema_erase_sparse (email f s pl opts p) = schema_erase_sparse (email f' s' pl opts p')"
  unfolding email_def Let_def assms(1)
  by (rule erase_leaf[OF assms(2,3) _ assms(4)]) (simp add: assms(3))

lemma erase_json:
  assumes "localization pl = None" and "ftype f' = ftype f" and "attrs f' = (attrs f)\<lparr>localized := b\<rparr>"
    and "schema_erase_sparse s = schema_erase_sparse s'"
  shows "schema_erase_sparse (json f s pl opts p) = schema_erase_sparse (json f' s' pl opts p')"
  unfolding json_def Let_def assms(1)
  by (rule erase_leaf[OF assms(2,3) _ assms(4)]) (simp add: assms(3))

lemma erase_number:
  assumes "localization pl = None" and "ftype f' = ftype f" and "attrs f' = (attrs f)\<lparr>localized := b\<rparr>"
    and "schema_erase_sparse s = schema_erase_sparse s'"
  shows "schema_erase_sparse (number f s pl opts p) = schema_erase_sparse (number f' s' pl opts p')"
  unfolding number_def Let_def assms(1)
  by (rule erase_leaf[OF assms(2,3) _ assms(4)]) (simp add: assms(3))

lemma erase_richText:
  assumes "localization pl = None" and "ftype f' = ftype f" and "attrs f' = (attrs f)\<lparr>localized := b\<rparr>"
    and "schema_erase_sparse s = schema_erase_sparse s'"
  shows "schema_erase_sparse (richText f s pl opts p) = schema_erase_sparse (richText f' s' pl opts p')"
  unfolding richText_def Let_def assms(1)
  by (rule erase_leaf[OF assms(2,3) _ assms(4)]) (simp add: assms(3))

lemma erase_text_field:
  assumes "localization pl = None" and "ftype f' = ftype f" and "attrs f' = (attrs f)\<lparr>localized := b\<rparr>"
    and "schema_erase_sparse s = schema_erase_sparse s'"
  shows "schema_erase_sparse (text_field f s pl opts p) = schema_erase_sparse (text_field f' s' pl opts p')"
  unfolding text_field_def Let_def assms(1)
  by (rule erase_leaf[OF assms(2,3) _ assms(4)]) (simp add: assms(3))

lemma erase_textarea:
  assumes "localization pl = None" and "ftype f' = ftype f" and "attrs f' = (attrs f)\<lparr>localized := b\<rparr>"
    and "schema_erase_sparse s = schema_erase_sparse s'"
  shows "schema_erase_sparse (textarea f s pl opts p) = schema_erase_sparse (textarea f' s' pl opts p')"
  unfolding textarea_def Let_def assms(1)
  by (rule erase_leaf[OF assms(2,3) _ assms(4)]) (simp add: assms(3))

lemma erase_typed_base:
  assumes "ftype f' = ftype f" and "attrs f' = (attrs f)\<lparr>localized := b\<rparr>"
  shows "erase_sparse (Obj (AList.update ''type'' t (formatBaseSchema opts f p)))
       = erase_sparse (Obj (AList.update ''type'' t (formatBaseSchema opts f' p')))"
  by (rule erase_update_cong[OF _ erase_formatBaseSchema[OF assms] refl]) simp

lemma erase_radio:
  assumes "localization pl = None" and "ftype f' = ftype f" and "attrs f' = (attrs f)\<lparr>localized := b\<rparr>"
    and "schema_erase_sparse s = schema_erase_sparse s'"
  shows "schema_erase_sparse (radio f s pl opts p) = schema_erase_sparse (radio f' s' pl opts p')"
proof -
  have "erase_sparse (Obj (AList.update ''enum''
              (Arr (map (\<lambda>option. Str (option_value option)) (options (attrs f))))
              (AList.update ''type'' (Type TString) (formatBaseSchema opts f p))))
      = erase_sparse (Obj (AList.update ''enum''
              (Arr (map (\<lambda>option. Str (option_value option)) (options (attrs f))))
              (AList.update ''type'' (Type TString) (formatBaseSchema opts f' p'))))"
    by (rule erase_update_cong[OF _ erase_typed_base[OF assms(2,3)] refl]) simp
  then show ?thesis
    unfolding radio_def Let_def assms(1)
    using assms(3,4) by (simp del: erase_sparse.simps(2))
qed

lemma erase_select:
  assumes "localization pl = None" and "ftype f' = ftype f" and "attrs f' = (attrs f)\<lparr>localized := b\<rparr>"
    and "schema_erase_sparse s = schema_erase_sparse s'"
  shows "schema_erase_sparse (select f s pl opts p) = schema_erase_sparse (select f' s' pl opts p')"
proof -
  have "erase_sparse (Obj (AList.update ''enum'' e
              (AList.update ''type'' (Type TString) (formatBaseSchema opts f p))))
      = erase_sparse (Obj (AList.update ''enum'' e
              (AList.update ''type'' (Type TString) (formatBaseSchema opts f' p'))))" for e
    by (rule erase_update_cong[OF _ erase_typed_base[OF assms(2,3)] refl]) simp
  then show ?thesis
    unfolding select_def Let_def assms(1)
    using assms(3,4) by (simp del: erase_sparse.simps(2))
qed

lemma formatDefaultValue_localized [simp]:
  "formatDefaultValue (a\<lparr>localized := b\<rparr>) = formatDefaultValue a"
  by (simp add: formatDefaultValue_def)

lemma erase_point:
  assumes "localization pl = None" and "ftype f' = ftype f" and "attrs f' = (attrs f)\<lparr>localized := b\<rparr>"
    and "schema_erase_sparse s = schema_erase_sparse s'"
  shows "schema_erase_sparse (point f s pl opts p) = schema_erase_sparse (point f' s' pl opts p')"
proof -
  let ?c0 = "[(''type'', Arr [Type TNumber]), (''default'', formatDefaultValue (attrs f)),
              (''required'', Bool False)]"
  have c: "erase_sparse (Obj (if c then AList.update ''sparse'' (Bool True) ?c0 else ?c0))
        = erase_sparse (Obj ?c0)" for c
    by simp
  have dv: "formatDefaultValue (attrs f') = formatDefaultValue (attrs f)"
    by (simp add: assms(3) formatDefaultValue_def)
  show ?thesis
    unfolding point_def Let_def assms(1)
    using assms(3,4) by simp
qed

lemma getRelationshipValueType_cong:
  "attrs f' = (attrs f)\<lparr>localized := b\<rparr> \<Longrightarrow>
     getRelationshipValueType f' pl = getRelationshipValueType f pl"
  by (simp add: getRelationshipValueType_def)

lemma erase_relationship:
  assumes "localization pl = None" and "ftype f' = ftype f" and "attrs f' = (attrs f)\<lparr>localized := b\<rparr>"
    and "schema_erase_sparse s = schema_erase_sparse s'"
  shows "schema_erase_sparse (relationship f s pl opts p)
       = schema_erase_sparse (relationship f' s' pl opts p')"
proof -
  let ?a = "attrs f"
  define valueType where "valueType = getRelationshipValueType f pl"
  define union_of where "union_of = (\<lambda>base refPath.
            AList.update ''value'' (Obj [(''type'', Type valueType), (''refPath'', Str refPath)])
              (AList.update ''relationTo''
                 (Obj [(''type'', Type TString), (''enum'', relationTo_value (relationTo ?a))])
                 (AList.update ''type'' (Type TMixed)
                    (AList.update ''_id'' (Bool False) base))))"
  define single where "single = (\<lambda>base.
            AList.update ''ref'' (relationTo_value (relationTo ?a))
              (AList.update ''type'' (Type valueType) base))"
  define many where "many = (\<lambda>d. if hasMany ?a
                       then Obj [(''type'', Arr [d]), (''default'', formatDefaultValue ?a)]
                       else d)"
  have eq: "relationship g s0 pl opts q =
      schema_add (field_name ?a)
        (if hasManyRelations (relationTo ?a)
         then many (Obj (union_of (formatBaseSchema opts g q) (field_name ?a @ ''.relationTo'')))
         else many (Obj (single (formatBaseSchema opts g q)))) s0"
    if "attrs g = ?a\<lparr>localized := x\<rparr>" for g s0 q x
    unfolding relationship_def Let_def assms(1) many_def single_def union_of_def valueType_def
    by (simp add: that getRelationshipValueType_cong[OF that])
  have single: "erase_sparse (Obj (single (formatBaseSchema opts f p)))
              = erase_sparse (Obj (single (formatBaseSchema opts f' p')))"
    unfolding single_def
    by (intro erase_update_cong erase_formatBaseSchema[OF assms(2,3)] refl) simp_all
  have union: "erase_sparse (Obj (union_of (formatBaseSchema opts f p) path))
              = erase_sparse (Obj (union_of (formatBaseSchema opts f' p') path))" for path
    unfolding union_of_def
    by (intro erase_update_cong erase_formatBaseSchema[OF assms(2,3)] refl) simp_all
  have many: "erase_sparse (many d) = erase_sparse (many d')"
    if "erase_sparse d = erase_sparse d'" for d d'
    using that unfolding many_def by simp
  have 1: "attrs f = ?a\<lparr>localized := localized ?a\<rparr>" by simp
  show ?thesis
    unfolding eq[OF 1] eq[OF assms(3)]
    using many[OF single] many[OF union] assms(4)
    by (simp del: erase_sparse.simps(2))
qed

lemma erase_upload:
  assumes "localization pl = None" and "ftype f' = ftype f" and "attrs f' = (attrs f)\<lparr>localized := b\<rparr>"
    and "schema_erase_sparse s = schema_erase_sparse s'"
  shows "schema_erase_sparse (upload f s pl opts p) = schema_erase_sparse (upload f' s' pl opts p')"
  unfolding upload_def by (rule erase_relationship[OF assms])

lemma fold_related:
  assumes "\<And>x s s'. x \<in> set xs \<Longrightarrow> R s s' \<Longrightarrow> R (f x s) (g (h x) s')" and "R s s'"
  shows "R (fold f xs s) (fold g (map h xs) s')"
  using assms by (induction xs arbitrary: s s') auto

lemma erase_compound_indexes:
  "schema_erase_sparse s = schema_erase_sparse s' \<Longrightarrow>
     schema_erase_sparse (compound_indexes cis pl opts s)
       = schema_erase_sparse (compound_indexes cis pl opts s')"
  unfolding compound_indexes_def
  by (induction cis arbitrary: s s') (simp_all add: Let_def)

lemma ftype_unlocalize [simp]: "ftype (unlocalize f) = ftype f"
  by (cases f) simp

lemma attrs_unlocalize [simp]: "attrs (unlocalize f) = (attrs f)\<lparr>localized := False\<rparr>"
  by (cases f) simp

lemma fieldAffectsData_unlocalize [simp]: "fieldAffectsData (unlocalize f) = fieldAffectsData f"
  by (simp add: fieldAffectsData_def)

lemma fieldIsPresentationalOnly_unlocalize [simp]:
  "fieldIsPresentationalOnly (unlocalize f) = fieldIsPresentationalOnly f"
  by (simp add: fieldIsPresentationalOnly_def)

lemma fieldIsVirtual_localized [simp]: "fieldIsVirtual (a\<lparr>localized := b\<rparr>) = fieldIsVirtual a"
  by (simp add: fieldIsVirtual_def)

lemma find_map_unlocalize:
  "(\<And>x. P (h x) = P x) \<Longrightarrow> find P (map h xs) = map_option h (find P xs)"
  by (induction xs) auto

lemma filter_map_unlocalize:
  "(\<And>x. P (h x) = P x) \<Longrightarrow> filter P (map h xs) = map h (filter P xs)"
  by (induction xs) auto

lemma blocks_discriminators_None:
  "localization pl = None \<Longrightarrow>
     blocks_discriminators a pl p bta s =
       fold (\<lambda>e. schema_discriminator (field_name a) (fst e) (snd (snd e))) bta s"
  unfolding blocks_discriminators_def
  by (rule arg_cong[where f = "\<lambda>f. fold f bta s"]) (auto simp: fun_eq_iff)

lemma erase_blocks_discriminators:
  assumes "localization pl = None" and "field_name a' = field_name a"
  shows "schema_erase_sparse s = schema_erase_sparse s' \<Longrightarrow>
    map (\<lambda>e. (fst e, ref_erase_sparse (snd (snd e)))) bta
      = map (\<lambda>e. (fst e, ref_erase_sparse (snd (snd e)))) bta' \<Longrightarrow>
    schema_erase_sparse (blocks_discriminators a pl p bta s)
      = schema_erase_sparse (blocks_discriminators a' pl p' bta' s')"
  unfolding blocks_discriminators_None[OF assms(1)] assms(2)
proof (induction bta arbitrary: bta' s s')
  case Nil
  then show ?case by simp
next
  case (Cons e bta)
  then obtain e' bta2 where b: "bta' = e' # bta2" by (cases bta') auto
  have "schema_erase_sparse (schema_discriminator (field_name a) (fst e) (snd (snd e)) s)
      = schema_erase_sparse (schema_discriminator (field_name a) (fst e') (snd (snd e')) s')"
    using Cons.prems by (simp add: b)
  then show ?case
    using Cons.IH[of _ _ bta2] Cons.prems(2) by (simp add: b)
qed

lemma related_blocks_global:
  assumes "snd st = snd st'"
    and "map (\<lambda>e. (fst e, ref_erase_sparse (snd (snd e)))) (fst st)
       = map (\<lambda>e. (fst e, ref_erase_sparse (snd (snd e)))) (fst st')"
  shows "snd (blocks_global pl st) = snd (blocks_global pl st') \<and>
     map (\<lambda>e. (fst e, ref_erase_sparse (snd (snd e)))) (fst (blocks_global pl st))
       = map (\<lambda>e. (fst e, ref_erase_sparse (snd (snd e)))) (fst (blocks_global pl st'))"
proof (cases "config_blocks pl")
  case None
  then show ?thesis using assms by (simp add: blocks_global_def)
next
  case (Some bs)
  let ?R = "\<lambda>st st' :: blocks_to_add. snd st = snd st' \<and>
     map (\<lambda>e. (fst e, ref_erase_sparse (snd (snd e)))) (fst st)
       = map (\<lambda>e. (fst e, ref_erase_sparse (snd (snd e)))) (fst st')"
  let ?step = "\<lambda>block (blocksToAdd, processedSlugs).
                  if slug block \<notin> processedSlugs
                  then (case map_of (globalBlockSchemas pl) (slug block) of
                          Some preBuiltSchema \<Rightarrow>
                            (blocksToAdd @ [(slug block, False, Shell preBuiltSchema)],
                             insert (slug block) processedSlugs)
                        | None \<Rightarrow> (blocksToAdd, processedSlugs))
                  else (blocksToAdd, processedSlugs)"
  have "?R (fold ?step bs st) (fold ?step (map id bs) st')"
    by (rule fold_related[where R = ?R]) (use assms in \<open>auto split: option.splits\<close>)
  then show ?thesis by (simp add: blocks_global_def Some)
qed


lemma fold_children_related:
  assumes "\<And>x s s'. x \<in> set fs \<Longrightarrow> \<not> fieldIsVirtual (attrs x) \<Longrightarrow>
             schema_erase_sparse s = schema_erase_sparse s' \<Longrightarrow>
             schema_erase_sparse (addFieldSchema x s pl opts p)
               = schema_erase_sparse (addFieldSchema (unlocalize x) s' pl opts p')"
    and "schema_erase_sparse s = schema_erase_sparse s'"
  shows "schema_erase_sparse
          (fold (\<lambda>subField s.
             if fieldIsVirtual (attrs subField) then s
             else addFieldSchema subField s pl opts p) fs s)
      = schema_erase_sparse
          (fold (\<lambda>subField s.
             if fieldIsVirtual (attrs subField) then s
             else addFieldSchema subField s pl opts p') (map unlocalize fs) s')"
  using assms
proof (induction fs arbitrary: s s')
  case Nil
  then show ?case by simp
next
  case (Cons x fs)
  have step: "schema_erase_sparse (if fieldIsVirtual (attrs x) then s
             else addFieldSchema x s pl opts p)
      = schema_erase_sparse (if fieldIsVirtual (attrs (unlocalize x)) then s'
             else addFieldSchema (unlocalize x) s' pl opts p')"
    using Cons.prems(1)[of x s s'] Cons.prems(2) by simp
  show ?case
    unfolding list.map fold_Cons comp_apply
    by (rule Cons.IH[OF _ step]) (rule Cons.prems(1), simp_all)
qed

lemma fold_block_fields_related:
  assumes "\<And>x s s'. x \<in> set fs \<Longrightarrow>
             schema_erase_sparse s = schema_erase_sparse s' \<Longrightarrow>
             schema_erase_sparse (addFieldSchema x s pl opts p)
               = schema_erase_sparse (addFieldSchema (unlocalize x) s' pl opts p')"
    and "schema_erase_sparse s = schema_erase_sparse s'"
  shows "schema_erase_sparse
          (fold (\<lambda>blockField s. addFieldSchema blockField s pl opts p) fs s)
      = schema_erase_sparse
          (fold (\<lambda>blockField s. addFieldSchema blockField s pl opts p') (map unlocalize fs) s')"
  using assms
proof (induction fs arbitrary: s s')
  case Nil
  then show ?case by simp
next
  case (Cons x fs)
  have step: "schema_erase_sparse (addFieldSchema x s pl opts p)
      = schema_erase_sparse (addFieldSchema (unlocalize x) s' pl opts p')"
    using Cons.prems(1)[of x s s'] Cons.prems(2) by simp
  show ?case
    unfolding list.map fold_Cons comp_apply
    by (rule Cons.IH[OF _ step]) (rule Cons.prems(1), simp_all)
qed

lemma erase_builder:
  shows "localization pl1 = None \<Longrightarrow> schema_erase_sparse s1 = schema_erase_sparse s1' \<Longrightarrow>
           schema_erase_sparse (addFieldSchema f1 s1 pl1 o1 p1)
             = schema_erase_sparse (addFieldSchema (unlocalize f1) s1' pl1 o1 p1')"
    and "localization pl2 = None \<Longrightarrow>
           schema_erase_sparse (buildSchema o2 cis2 fs2 p2 pl2)
             = schema_erase_sparse (buildSchema o2 cis2 (map unlocalize fs2) p2' pl2)"
    and "localization pl3 = None \<Longrightarrow> schema_erase_sparse s3 = schema_erase_sparse s3' \<Longrightarrow>
           schema_erase_sparse (array f3 s3 pl3 o3 p3)
             = schema_erase_sparse (array (unlocalize f3) s3' pl3 o3 p3')"
    and "localization pl4 = None \<Longrightarrow> schema_erase_sparse s4 = schema_erase_sparse s4' \<Longrightarrow>
           schema_erase_sparse (blocks f4 s4 pl4 o4 p4)
             = schema_erase_sparse (blocks (unlocalize f4) s4' pl4 o4 p4')"
    and "localization pl5 = None \<Longrightarrow> schema_erase_sparse s5 = schema_erase_sparse s5' \<Longrightarrow>
           schema_erase_sparse (collapsible f5 s5 pl5 o5 p5)
             = schema_erase_sparse (collapsible (unlocalize f5) s5' pl5 o5 p5')"
    and "localization pl6 = None \<Longrightarrow> schema_erase_sparse s6 = schema_erase_sparse s6' \<Longrightarrow>
           schema_erase_sparse (group f6 s6 pl6 o6 p6)
             = schema_erase_sparse (group (unlocalize f6) s6' pl6 o6 p6')"
    and "localization pl7 = None \<Longrightarrow> schema_erase_sparse s7 = schema_erase_sparse s7' \<Longrightarrow>
           schema_erase_sparse (row f7 s7 pl7 o7 p7)
             = schema_erase_sparse (row (unlocalize f7) s7' pl7 o7 p7')"
    and "localization pl8 = None \<Longrightarrow> schema_erase_sparse s8 = schema_erase_sparse s8' \<Longrightarrow>
           schema_erase_sparse (tabs f8 s8 pl8 o8 p8)
             = schema_erase_sparse (tabs (unlocalize f8) s8' pl8 o8 p8')"
proof (induction f1 s1 pl1 o1 p1 and o2 cis2 fs2 p2 pl2 and f3 s3 pl3 o3 p3 and f4 s4 pl4 o4 p4
         and f5 s5 pl5 o5 p5 and f6 s6 pl6 o6 p6 and f7 s7 pl7 o7 p7 and f8 s8 pl8 o8 p8
       arbitrary: s1' p1' and p2' and s3' p3' and s4' p4' and s5' p5' and s6' p6' and s7' p7'
         and s8' p8'
       rule: addFieldSchema_buildSchema_array_blocks_collapsible_group_row_tabs.induct)
  case (1 ty a fs bs refs ts schema payload buildSchemaOptions parentIsLocalized)
  let ?f = "Field ty a fs bs refs ts"
  have ft: "ftype (unlocalize ?f) = ftype ?f" by (rule ftype_unlocalize)
  have at: "attrs (unlocalize ?f) = (attrs ?f)\<lparr>localized := False\<rparr>" by (rule attrs_unlocalize)
  have ty: "ftype ?f = ty" by simp
  show ?case
  proof (cases ty)
    case ty_array
    have L: "addFieldSchema ?f schema payload buildSchemaOptions parentIsLocalized
               = array ?f schema payload buildSchemaOptions parentIsLocalized"
      by (simp only: addFieldSchema_unfold field.sel ty_array field_type.case)
    have R: "addFieldSchema (unlocalize ?f) s1' payload buildSchemaOptions p1'
               = array (unlocalize ?f) s1' payload buildSchemaOptions p1'"
      by (simp only: addFieldSchema_unfold ftype_unlocalize field.sel ty_array field_type.case)
    show ?thesis
      unfolding L R by (rule "1.IH"(1)[OF refl ty_array "1.prems"])
  next
    case ty_blocks
    have L: "addFieldSchema ?f schema payload buildSchemaOptions parentIsLocalized
               = blocks ?f schema payload buildSchemaOptions parentIsLocalized"
      by (simp only: addFieldSchema_unfold field.sel ty_blocks field_type.case)
    have R: "addFieldSchema (unlocalize ?f) s1' payload buildSchemaOptions p1'
               = blocks (unlocalize ?f) s1' payload buildSchemaOptions p1'"
      by (simp only: addFieldSchema_unfold ftype_unlocalize field.sel ty_blocks field_type.case)
    show ?thesis
      unfolding L R by (rule "1.IH"(2)[OF refl ty_blocks "1.prems"])
  next
    case ty_collapsible
    have L: "addFieldSchema ?f schema payload buildSchemaOptions parentIsLocalized
               = collapsible ?f schema payload buildSchemaOptions parentIsLocalized"
      by (simp only: addFieldSchema_unfold field.sel ty_collapsible field_type.case)
    have R: "addFieldSchema (unlocalize ?f) s1' payload buildSchemaOptions p1'
               = collapsible (unlocalize ?f) s1' payload buildSchemaOptions p1'"
      by (simp only: addFieldSchema_unfold ftype_unlocalize field.sel ty_collapsible field_type.case)
    show ?thesis
      unfolding L R by (rule "1.IH"(3)[OF refl ty_collapsible "1.prems"])
  next
    case ty_group
    have L: "addFieldSchema ?f schema payload buildSchemaOptions parentIsLocalized
               = group ?f schema payload buildSchemaOptions parentIsLocalized"
      by (simp only: addFieldSchema_unfold field.sel ty_group field_type.case)
    have R: "addFieldSchema (unlocalize ?f) s1' payload buildSchemaOptions p1'
               = group (unlocalize ?f) s1' payload buildSchemaOptions p1'"
      by (simp only: addFieldSchema_unfold ftype_unlocalize field.sel ty_group field_type.case)
    show ?thesis
      unfolding L R by (rule "1.IH"(4)[OF refl ty_group "1.prems"])
  next
    case ty_row
    have L: "addFieldSchema ?f schema payload buildSchemaOptions parentIsLocalized
               = row ?f schema payload buildSchemaOptions parentIsLocalized"
      by (simp only: addFieldSchema_unfold field.sel ty_row field_type.case)
    have R: "addFieldSchema (unlocalize ?f) s1' payload buildSchemaOptions p1'
               = row (unlocalize ?f) s1' payload buildSchemaOptions p1'"
      by (simp only: addFieldSchema_unfold ftype_unlocalize field.sel ty_row field_type.case)
    show ?thesis
      unfolding L R by (rule "1.IH"(5)[OF refl ty_row "1.prems"])
  next
    case ty_tabs
    have L: "addFieldSchema ?f schema payload buildSchemaOptions parentIsLocalized
               = tabs ?f schema payload buildSchemaOptions parentIsLocalized"
      by (simp only: addFieldSchema_unfold field.sel ty_tabs field_type.case)
    have R: "addFieldSchema (unlocalize ?f) s1' payload buildSchemaOptions p1'
               = tabs (unlocalize ?f) s1' payload buildSchemaOptions p1'"
      by (simp only: addFieldSchema_unfold ftype_unlocalize field.sel ty_tabs field_type.case)
    show ?thesis
      unfolding L R by (rule "1.IH"(6)[OF refl ty_tabs "1.prems"])
  qed (simp_all only: addFieldSchema_unfold ftype_unlocalize field.sel field_type.case "1.prems"(2),
       (rule erase_checkbox erase_code erase_date erase_email erase_json erase_number
          erase_point erase_radio erase_relationship erase_richText erase_select
          erase_text_field erase_textarea erase_upload,
        rule "1.prems"(1), rule ftype_unlocalize, rule attrs_unlocalize, rule "1.prems"(2))+)
next
  case (2 buildSchemaOptions compoundIndexes configFields parentIsLocalized payload)
  let ?is_id = "\<lambda>field. fieldAffectsData field \<and> name (attrs field) = Some ''id''"
  let ?F = "\<lambda>q field s.
                    if fieldIsVirtual (attrs field) then s
                    else if \<not> fieldIsPresentationalOnly field
                    then addFieldSchema field s payload buildSchemaOptions q
                    else s"
  define idField where
    "idField = (if \<not> allowIDField buildSchemaOptions then find ?is_id configFields else None)"
  define fields where "fields =
            (case idField of
               Some f \<Rightarrow>
                 [(''_id'',
                   Type (if ftype f = ty_number
                         then (if useBigIntForNumberIDs payload then TBigInt else TNumber)
                         else TString))]
             | None \<Rightarrow> [])"
  define schemaFields where "schemaFields =
            (case idField of
               Some f \<Rightarrow> filter (\<lambda>field. \<not> ?is_id field) configFields
             | None \<Rightarrow> configFields)"
  have L: "buildSchema buildSchemaOptions compoundIndexes configFields parentIsLocalized payload
      = compound_indexes compoundIndexes payload buildSchemaOptions
          (fold (?F parentIsLocalized) schemaFields
             (new_Schema fields (raw_options buildSchemaOptions)))"
    unfolding buildSchema.simps Let_def schemaFields_def fields_def idField_def by (rule refl)
  have is_id: "?is_id (unlocalize x) = ?is_id x" for x by simp
  have found: "find ?is_id (map unlocalize configFields) = map_option unlocalize (find ?is_id configFields)"
    by (rule find_map_unlocalize) (rule is_id)
  have kept: "filter (\<lambda>field. \<not> ?is_id field) (map unlocalize configFields)
            = map unlocalize (filter (\<lambda>field. \<not> ?is_id field) configFields)"
    by (rule filter_map_unlocalize) (simp only: is_id)
  have R: "buildSchema buildSchemaOptions compoundIndexes (map unlocalize configFields) p2' payload
      = compound_indexes compoundIndexes payload buildSchemaOptions
          (fold (?F p2') (map unlocalize schemaFields)
             (new_Schema fields (raw_options buildSchemaOptions)))"
    unfolding buildSchema.simps Let_def found kept schemaFields_def fields_def idField_def
    by (cases "find ?is_id configFields") (simp_all del: map_map)
  have mem: "x \<in> set (case (if \<not> allowIDField buildSchemaOptions then find ?is_id configFields else None) of
               Some f \<Rightarrow> filter (\<lambda>field. \<not> ?is_id field) configFields
             | None \<Rightarrow> configFields)" if "x \<in> set schemaFields" for x
    using that unfolding schemaFields_def idField_def .
  show ?case
    unfolding L R
  proof (rule erase_compound_indexes,
         rule fold_related[where R = "\<lambda>s s'. schema_erase_sparse s = schema_erase_sparse s'"])
    fix x s s'
    assume x: "x \<in> set schemaFields" and E: "schema_erase_sparse s = schema_erase_sparse s'"
    show "schema_erase_sparse (?F parentIsLocalized x s)
        = schema_erase_sparse (?F p2' (unlocalize x) s')"
    proof (cases "fieldIsVirtual (attrs x) \<or> fieldIsPresentationalOnly x")
      case True
      then show ?thesis using E by auto
    next
      case False
      then have nv: "\<not> fieldIsVirtual (attrs x)" and np: "\<not> fieldIsPresentationalOnly x" by auto
      show ?thesis
        using "2.IH"[OF refl refl refl refl refl mem[OF x] nv np "2.prems" E, of p2'] nv np
        by simp
    qed
  qed simp
next

next
  case (3 ty a fs bs refs ts schema payload buildSchemaOptions parentIsLocalized)
  let ?f = "Field ty a fs bs refs ts"
  let ?f' = "Field ty (a\<lparr>localized := False\<rparr>) (map unlocalize fs) (map unlocalize_block bs)
             (unlocalize_references refs) (map unlocalize_tab ts)"
  have sub: "erase_sparse (Arr [Sub (buildSchema
                 \<lparr>allowIDField = True, disableUnique = disableUnique buildSchemaOptions,
                  draftsEnabled = draftsEnabled buildSchemaOptions,
                  indexSortableFields = False, raw_options = Some nested_options\<rparr>
                 [] fs (parentIsLocalized \<or> localized a) payload)])
      = erase_sparse (Arr [Sub (buildSchema
                 \<lparr>allowIDField = True, disableUnique = disableUnique buildSchemaOptions,
                  draftsEnabled = draftsEnabled buildSchemaOptions,
                  indexSortableFields = False, raw_options = Some nested_options\<rparr>
                 [] (map unlocalize fs) (p3' \<or> localized (a\<lparr>localized := False\<rparr>)) payload)])"
    using "3.IH"[OF refl "3.prems"(1)] by simp
  have leafeq: "schema_erase_sparse
           (schema_add (field_name (attrs ?f))
              (localizeSchema (attrs ?f) (Obj (AList.update ''type'' (Arr [Sub (buildSchema
                 \<lparr>allowIDField = True, disableUnique = disableUnique buildSchemaOptions,
                  draftsEnabled = draftsEnabled buildSchemaOptions,
                  indexSortableFields = False, raw_options = Some nested_options\<rparr>
                 [] fs (parentIsLocalized \<or> localized a) payload)])
                 (formatBaseSchema buildSchemaOptions ?f parentIsLocalized)))
                 None parentIsLocalized) schema)
       = schema_erase_sparse
           (schema_add (field_name (attrs ?f'))
              (localizeSchema (attrs ?f') (Obj (AList.update ''type'' (Arr [Sub (buildSchema
                 \<lparr>allowIDField = True, disableUnique = disableUnique buildSchemaOptions,
                  draftsEnabled = draftsEnabled buildSchemaOptions,
                  indexSortableFields = False, raw_options = Some nested_options\<rparr>
                 [] (map unlocalize fs) (p3' \<or> localized (a\<lparr>localized := False\<rparr>)) payload)])
                 (formatBaseSchema buildSchemaOptions ?f' p3')))
                 None p3') s3')"
    by (rule erase_leaf[OF _ _ sub "3.prems"(2)]) simp_all
  show ?case
    unfolding unlocalize.simps array.simps Let_def "3.prems"(1)
    using leafeq unfolding field.sel .
next
  case (4 ty a fs bs refs ts schema payload buildSchemaOptions parentIsLocalized)
  let ?f = "Field ty a fs bs refs ts"
  let ?a' = "a\<lparr>localized := False\<rparr>"
  let ?f' = "Field ty ?a' (map unlocalize fs) (map unlocalize_block bs)
             (unlocalize_references refs) (map unlocalize_tab ts)"
  let ?q = "parentIsLocalized \<or> localized a"
  let ?q' = "p4' \<or> localized ?a'"
  let ?R = "\<lambda>st st' :: blocks_to_add. snd st = snd st' \<and>
     map (\<lambda>e. (fst e, ref_erase_sparse (snd (snd e)))) (fst st)
       = map (\<lambda>e. (fst e, ref_erase_sparse (snd (snd e)))) (fst st')"
  define compile where "compile = (\<lambda>q bfs. fold (\<lambda>blockField s.
                                    addFieldSchema blockField s payload buildSchemaOptions q)
                              bfs (new_Schema [] (Some block_options)))"
  define inline_step :: "bool \<Rightarrow> block \<Rightarrow> blocks_to_add \<Rightarrow> blocks_to_add"
    where "inline_step = (\<lambda>q block (blocksToAdd, processedSlugs).
                    case block of Block sl bfs \<Rightarrow>
                      let blockSchema = compile q bfs
                      in (blocksToAdd @ [(sl, True, Inline blockSchema)],
                          insert sl processedSlugs))"
  define ref_step :: "bool \<Rightarrow> block_ref \<Rightarrow> blocks_to_add \<Rightarrow> blocks_to_add"
    where "ref_step = (\<lambda>q blockRef (blocksToAdd, processedSlugs).
                         case blockRef of
                           BlockRef (Block sl bfs) \<Rightarrow>
                             if sl \<notin> processedSlugs
                             then
                               let blockSchema = compile q bfs
                               in (blocksToAdd @ [(sl, True, Inline blockSchema)],
                                   insert sl processedSlugs)
                             else (blocksToAdd, processedSlugs)
                         | SlugRef sl \<Rightarrow>
                             if sl \<notin> processedSlugs
                             then (case map_of (globalBlockSchemas payload) sl of
                                     Some preBuiltSchema \<Rightarrow>
                                       (blocksToAdd @ [(sl, False, Shell preBuiltSchema)],
                                        insert sl processedSlugs)
                                   | None \<Rightarrow> (blocksToAdd, processedSlugs))
                             else (blocksToAdd, processedSlugs))"
  define step2 where "step2 = (\<lambda>q rfs step1.
            (case rfs of
               NoReferences \<Rightarrow> step1
             | GlobalBlocks \<Rightarrow> blocks_global payload step1
             | References blockRefs \<Rightarrow> fold (ref_step q) blockRefs step1))"
  define field_schema where "field_schema = (\<lambda>g q s0.
            schema_add (field_name (attrs g))
              (localizeSchema (attrs g) (Obj (AList.update ''type''
              (Arr [Sub (new_Schema []
                      (Some [(''_id'', Bool False), (''discriminatorKey'', Str ''blockType'')]))])
              (formatBaseSchema buildSchemaOptions g q)))
                 (localization payload) q) s0)"
  have eq: "blocks (Field ty0 a0 fs0 bs0 refs0 ts0) s0 payload buildSchemaOptions q0
        = blocks_discriminators a0 payload q0
            (fst (step2 (q0 \<or> localized a0) refs0 (fold (inline_step (q0 \<or> localized a0)) bs0 ([], {}))))
            (field_schema (Field ty0 a0 fs0 bs0 refs0 ts0) q0 s0)"
    for ty0 a0 fs0 bs0 refs0 ts0 s0 q0
    unfolding blocks.simps Let_def step2_def inline_step_def ref_step_def compile_def field_schema_def
      field.sel
    by (rule refl)
  have compiled: "schema_erase_sparse (compile ?q bfs)
                = schema_erase_sparse (compile ?q' (map unlocalize bfs))"
    if "\<And>x s s'. x \<in> set bfs \<Longrightarrow> schema_erase_sparse s = schema_erase_sparse s' \<Longrightarrow>
             schema_erase_sparse (addFieldSchema x s payload buildSchemaOptions ?q)
               = schema_erase_sparse (addFieldSchema (unlocalize x) s' payload buildSchemaOptions ?q')"
    for bfs
    unfolding compile_def by (rule fold_block_fields_related[OF that refl])
  have inline: "?R (inline_step ?q b st) (inline_step ?q' (unlocalize_block b) st')"
    if b: "b \<in> set bs" and st: "?R st st'" for b st st'
  proof -
    obtain sl bfs where bl: "b = Block sl bfs" by (cases b)
    obtain blocksToAdd processedSlugs where st1: "st = (blocksToAdd, processedSlugs)" by (cases st)
    obtain blocksToAdd' processedSlugs' where st2: "st' = (blocksToAdd', processedSlugs')"
      by (cases st')
    have c: "schema_erase_sparse (compile ?q bfs)
           = schema_erase_sparse (compile ?q' (map unlocalize bfs))"
      by (rule compiled) (rule "4.IH"(1)[OF refl refl refl b bl _ "4.prems"(1)])
    show ?thesis
      using st c by (simp add: inline_step_def bl st1 st2 Let_def)
  qed
  have r1: "?R (fold (inline_step ?q) bs ([], {}))
               (fold (inline_step ?q') (map unlocalize_block bs) ([], {}))"
    by (rule fold_related[where R = ?R and f = "inline_step ?q" and g = "inline_step ?q'"
           and h = unlocalize_block, OF inline]) simp_all
  have r2: "?R (step2 ?q refs st) (step2 ?q' (unlocalize_references refs) st')"
    if st: "?R st st'"
      and s1: "st = fold (\<lambda>block (blocksToAdd, processedSlugs).
                    case block of Block sl bfs \<Rightarrow>
                      let blockSchema =
                            fold (\<lambda>blockField s.
                                    addFieldSchema blockField s payload buildSchemaOptions
                                      (parentIsLocalized \<or> localized a))
                              bfs (new_Schema [] (Some block_options))
                      in (blocksToAdd @ [(sl, True, Inline blockSchema)],
                          insert sl processedSlugs))
              bs ([], {})" for st st'
  proof (cases refs)
    case NoReferences
    then show ?thesis using st by (simp add: step2_def)
  next
    case GlobalBlocks
    then show ?thesis using related_blocks_global[of st st' payload] st by (simp add: step2_def)
  next
    case (References blockRefs)
    have listed: "?R (ref_step ?q r t) (ref_step ?q' (unlocalize_ref r) t')"
      if r: "r \<in> set blockRefs" and t: "?R t t'" for r t t'
    proof -
      obtain blocksToAdd processedSlugs where t1: "t = (blocksToAdd, processedSlugs)" by (cases t)
      obtain blocksToAdd' processedSlugs' where t2: "t' = (blocksToAdd', processedSlugs')"
        by (cases t')
      show ?thesis
      proof (cases r)
        case (SlugRef sl)
        then show ?thesis using t by (auto simp: ref_step_def t1 t2 split: option.splits)
      next
        case (BlockRef b)
        obtain sl bfs where bl: "b = Block sl bfs" by (cases b)
        have c: "schema_erase_sparse (compile ?q bfs)
               = schema_erase_sparse (compile ?q' (map unlocalize bfs))"
          by (rule compiled)
             (rule "4.IH"(2)[OF refl refl refl s1 References r BlockRef bl _ _ "4.prems"(1),
                 of "{}"], simp_all)
        show ?thesis
          using t c by (simp add: ref_step_def BlockRef bl t1 t2 Let_def)
      qed
    qed
    have "?R (fold (ref_step ?q) blockRefs st) (fold (ref_step ?q') (map unlocalize_ref blockRefs) st')"
      by (rule fold_related[where R = ?R and f = "ref_step ?q" and g = "ref_step ?q'"
             and h = unlocalize_ref, OF listed st])
    then show ?thesis by (simp add: step2_def References)
  qed
  have s1eq: "fold (inline_step ?q) bs ([], {}) = fold (\<lambda>block (blocksToAdd, processedSlugs).
                    case block of Block sl bfs \<Rightarrow>
                      let blockSchema =
                            fold (\<lambda>blockField s.
                                    addFieldSchema blockField s payload buildSchemaOptions
                                      (parentIsLocalized \<or> localized a))
                              bfs (new_Schema [] (Some block_options))
                      in (blocksToAdd @ [(sl, True, Inline blockSchema)],
                          insert sl processedSlugs))
              bs ([], {})"
    unfolding inline_step_def compile_def by (rule refl)
  have fs: "schema_erase_sparse (field_schema ?f parentIsLocalized schema)
          = schema_erase_sparse (field_schema ?f' p4' s4')"
    unfolding field_schema_def "4.prems"(1)
    by (rule erase_leaf[OF _ _ refl "4.prems"(2)]) simp_all
  show ?case
    unfolding unlocalize.simps eq
    by (rule erase_blocks_discriminators[OF "4.prems"(1) _ fs])
       (use r2[OF r1 s1eq] in simp_all)
next
  case (5 ty a fs bs refs ts schema payload buildSchemaOptions parentIsLocalized)
  show ?case
    unfolding unlocalize.simps collapsible.simps
    by (rule fold_children_related[OF "5.IH"[OF _ _ "5.prems"(1)] "5.prems"(2)])
next
  case (6 ty a fs bs refs ts schema payload buildSchemaOptions parentIsLocalized)
  let ?f = "Field ty a fs bs refs ts"
  let ?f' = "Field ty (a\<lparr>localized := False\<rparr>) (map unlocalize fs) (map unlocalize_block bs)
             (unlocalize_references refs) (map unlocalize_tab ts)"
  have fad: "fieldAffectsData ?f' = fieldAffectsData ?f" by (simp add: fieldAffectsData_def)
  show ?case
  proof (cases "fieldAffectsData ?f")
    case True
    have sub: "erase_sparse (Sub (buildSchema
                    \<lparr>allowIDField = False, disableUnique = disableUnique buildSchemaOptions,
                     draftsEnabled = draftsEnabled buildSchemaOptions,
                     indexSortableFields = (indexSortableFields buildSchemaOptions \<and> name a = Some ''version'' \<and>
                draftsEnabled buildSchemaOptions), raw_options = Some nested_options\<rparr>
                    [] fs (parentIsLocalized \<or> localized a) payload))
        = erase_sparse (Sub (buildSchema
                    \<lparr>allowIDField = False, disableUnique = disableUnique buildSchemaOptions,
                     draftsEnabled = draftsEnabled buildSchemaOptions,
                     indexSortableFields = (indexSortableFields buildSchemaOptions \<and> name (a\<lparr>localized := False\<rparr>) = Some ''version'' \<and>
                draftsEnabled buildSchemaOptions), raw_options = Some nested_options\<rparr>
                    [] (map unlocalize fs) (p6' \<or> localized (a\<lparr>localized := False\<rparr>)) payload))"
      using "6.IH"(1)[OF refl True refl refl "6.prems"(1)] by simp
    have leafeq: "schema_erase_sparse
           (schema_add (field_name (attrs ?f))
              (localizeSchema (attrs ?f) (Obj (AList.update ''type'' (Sub (buildSchema
                    \<lparr>allowIDField = False, disableUnique = disableUnique buildSchemaOptions,
                     draftsEnabled = draftsEnabled buildSchemaOptions,
                     indexSortableFields = (indexSortableFields buildSchemaOptions \<and> name a = Some ''version'' \<and>
                draftsEnabled buildSchemaOptions), raw_options = Some nested_options\<rparr>
                    [] fs (parentIsLocalized \<or> localized a) payload))
                 (formatBaseSchema buildSchemaOptions ?f parentIsLocalized)))
                 None parentIsLocalized) schema)
       = schema_erase_sparse
           (schema_add (field_name (attrs ?f'))
              (localizeSchema (attrs ?f') (Obj (AList.update ''type'' (Sub (buildSchema
                    \<lparr>allowIDField = False, disableUnique = disableUnique buildSchemaOptions,
                     draftsEnabled = draftsEnabled buildSchemaOptions,
                     indexSortableFields = (indexSortableFields buildSchemaOptions \<and> name (a\<lparr>localized := False\<rparr>) = Some ''version'' \<and>
                draftsEnabled buildSchemaOptions), raw_options = Some nested_options\<rparr>
                    [] (map unlocalize fs) (p6' \<or> localized (a\<lparr>localized := False\<rparr>)) payload))
                 (formatBaseSchema buildSchemaOptions ?f' p6')))
                 None p6') s6')"
      by (rule erase_leaf[OF _ _ sub "6.prems"(2)]) simp_all
    have T': "fieldAffectsData ?f'" using True fad by simp
    show ?thesis
      unfolding unlocalize.simps group.simps Let_def "6.prems"(1) if_P[OF True] if_P[OF T']
      using leafeq unfolding field.sel .
  next
    case False
    have F': "\<not> fieldAffectsData ?f'" using False fad by simp
    show ?thesis
      unfolding unlocalize.simps group.simps Let_def if_not_P[OF False] if_not_P[OF F']
      by (rule fold_children_related[OF "6.IH"(2)[OF refl False _ _ "6.prems"(1)] "6.prems"(2)])
  qed
next
  case (7 ty a fs bs refs ts schema payload buildSchemaOptions parentIsLocalized)
  show ?case
    unfolding unlocalize.simps row.simps
    by (rule fold_children_related[OF "7.IH"[OF _ _ "7.prems"(1)] "7.prems"(2)])
next
  case (8 ty a fs bs refs ts schema payload buildSchemaOptions parentIsLocalized)
  let ?T = "\<lambda>q tab s.
             case tab of Tab ta tfs \<Rightarrow>
               if name ta \<noteq> None
               then
                 if fieldIsVirtual ta then s
                 else
                   (let baseSchema =
                          [(''type'',
                            Sub (buildSchema
                              \<lparr>allowIDField = False,
                               disableUnique = disableUnique buildSchemaOptions,
                               draftsEnabled = draftsEnabled buildSchemaOptions,
                               indexSortableFields = False,
                               raw_options = Some nested_options\<rparr>
                              [] tfs (q \<or> localized ta) payload))]
                    in schema_add (field_name ta)
                         (localizeSchema ta (Obj baseSchema) (localization payload)
                            q) s)
               else
                 fold (\<lambda>subField s'.
                         if fieldIsVirtual (attrs subField) then s'
                         else addFieldSchema subField s' payload buildSchemaOptions
                                (q \<or> localized ta))
                   tfs s"
  have step: "schema_erase_sparse (?T parentIsLocalized t s)
            = schema_erase_sparse (?T p8' (unlocalize_tab t) s')"
    if t: "t \<in> set ts" and E: "schema_erase_sparse s = schema_erase_sparse s'" for t s s'
  proof -
    obtain ta tfs where tab: "t = Tab ta tfs" by (cases t)
    show ?thesis
    proof (cases "name ta \<noteq> None")
      case True
      show ?thesis
      proof (cases "fieldIsVirtual ta")
        case virt: True
        then show ?thesis using True E by (simp add: tab)
      next
        case False
        have "schema_erase_sparse (buildSchema
                              \<lparr>allowIDField = False,
                               disableUnique = disableUnique buildSchemaOptions,
                               draftsEnabled = draftsEnabled buildSchemaOptions,
                               indexSortableFields = False,
                               raw_options = Some nested_options\<rparr>
                              [] tfs (parentIsLocalized \<or> localized ta) payload)
          = schema_erase_sparse (buildSchema
                              \<lparr>allowIDField = False,
                               disableUnique = disableUnique buildSchemaOptions,
                               draftsEnabled = draftsEnabled buildSchemaOptions,
                               indexSortableFields = False,
                               raw_options = Some nested_options\<rparr>
                              [] (map unlocalize tfs) p8' payload)"
          by (rule "8.IH"(1)[OF t tab True False "8.prems"(1)])
        then show ?thesis
          using True False E by (simp add: tab Let_def "8.prems"(1))
      qed
    next
      case False
      have "schema_erase_sparse (fold (\<lambda>subField s'.
                         if fieldIsVirtual (attrs subField) then s'
                         else addFieldSchema subField s' payload buildSchemaOptions
                                (parentIsLocalized \<or> localized ta))
                   tfs s)
         = schema_erase_sparse (fold (\<lambda>subField s'.
                         if fieldIsVirtual (attrs subField) then s'
                         else addFieldSchema subField s' payload buildSchemaOptions
                                (p8' \<or> localized (ta\<lparr>localized := False\<rparr>)))
                   (map unlocalize tfs) s')"
        by (rule fold_children_related[OF "8.IH"(2)[OF t tab False _ _ "8.prems"(1)] E])
      then show ?thesis using False by (simp add: tab)
    qed
  qed
  show ?case
    unfolding unlocalize.simps tabs.simps
    by (rule fold_related[where R = "\<lambda>s s'. schema_erase_sparse s = schema_erase_sparse s'"
           and f = "?T parentIsLocalized" and g = "?T p8'" and h = unlocalize_tab,
           OF step "8.prems"(2)])
qed

text \<open>
  Claim C5, as amended.  When the configuration has no localization, compiling a field with
  the \<^verbatim>\<open>localized\<close> flag set and compiling it with the flag cleared give schemas that are equal
  once the \<^verbatim>\<open>sparse\<close> markers of the descriptors are left out: the same paths, types, defaults,
  index and unique markers, indexes and discriminators.  This holds for one generator call on
  any schema and for \<^verbatim>\<open>buildSchema\<close> on any field list with the field anywhere in it.
\<close>

theorem localized_flag_without_localization:
  assumes "localization payload = None"
  shows "schema_erase_sparse
           (addFieldSchema (Field ty (a\<lparr>localized := True\<rparr>) fs bs refs ts) schema payload opts p)
       = schema_erase_sparse
           (addFieldSchema (Field ty (a\<lparr>localized := False\<rparr>) fs bs refs ts) schema payload opts p)
     \<and> schema_erase_sparse
           (buildSchema opts compoundIndexes
              (before @ Field ty (a\<lparr>localized := True\<rparr>) fs bs refs ts # after) p payload)
       = schema_erase_sparse
           (buildSchema opts compoundIndexes
              (before @ Field ty (a\<lparr>localized := False\<rparr>) fs bs refs ts # after) p payload)"
proof
  let ?t = "Field ty (a\<lparr>localized := True\<rparr>) fs bs refs ts"
  let ?f = "Field ty (a\<lparr>localized := False\<rparr>) fs bs refs ts"
  have u: "unlocalize ?t = unlocalize ?f" by simp
  have "schema_erase_sparse (addFieldSchema ?t schema payload opts p)
      = schema_erase_sparse (addFieldSchema (unlocalize ?t) schema payload opts p)"
    by (rule erase_builder(1)[OF assms refl])
  also have "\<dots> = schema_erase_sparse (addFieldSchema (unlocalize ?f) schema payload opts p)"
    by (simp only: u)
  also have "\<dots> = schema_erase_sparse (addFieldSchema ?f schema payload opts p)"
    by (rule erase_builder(1)[OF assms refl, symmetric])
  finally show "schema_erase_sparse (addFieldSchema ?t schema payload opts p)
      = schema_erase_sparse (addFieldSchema ?f schema payload opts p)" .
  have m: "map unlocalize (before @ ?t # after) = map unlocalize (before @ ?f # after)" by simp
  have "schema_erase_sparse (buildSchema opts compoundIndexes (before @ ?t # after) p payload)
      = schema_erase_sparse
          (buildSchema opts compoundIndexes (map unlocalize (before @ ?t # after)) p payload)"
    by (rule erase_builder(2)[OF assms])
  also have "\<dots> = schema_erase_sparse
          (buildSchema opts compoundIndexes (map unlocalize (before @ ?f # after)) p payload)"
    by (simp only: m)
  also have "\<dots> = schema_erase_sparse
          (buildSchema opts compoundIndexes (before @ ?f # after) p payload)"
    by (rule erase_builder(2)[OF assms, symmetric])
  finally show "schema_erase_sparse
          (buildSchema opts compoundIndexes (before @ ?t # after) p payload)
      = schema_erase_sparse (buildSchema opts compoundIndexes (before @ ?f # after) p payload)" .
qed

theorem localized_flag_without_localization_witness:
  "schema_erase_sparse
     (buildSchema no_options []
        [Field ty_text ((named ''title'')\<lparr>unique := True, required := True, localized := True\<rparr>)
           [] [] NoReferences []] False bare_payload)
   = schema_erase_sparse
     (buildSchema no_options []
        [Field ty_text ((named ''title'')\<lparr>unique := True, required := True, localized := False\<rparr>)
           [] [] NoReferences []] False bare_payload)"
proof -
  have loc: "localization bare_payload = None" by (simp add: bare_payload_def)
  show ?thesis
    using localized_flag_without_localization
      [OF loc, where opts = no_options and compoundIndexes = "[]" and before = "[]"
          and ty = ty_text
          and a = "(named ''title'')\<lparr>unique := True, required := True\<rparr>"
          and fs = "[]" and bs = "[]" and refs = NoReferences and ts = "[]"
          and after = "[]" and p = False]
    by simp
qed

text \<open>
  Claim C5, as stated, fails: a unique, required text field gets a \<^verbatim>\<open>sparse\<close> marker when it
  is flagged \<^verbatim>\<open>localized\<close> and none when it is not, although there is no localization.
\<close>

theorem localized_flag_sparse_counterexample:
  "buildSchema no_options []
     [Field ty_text ((named ''title'')\<lparr>unique := True, required := True, localized := True\<rparr>)
        [] [] NoReferences []] False bare_payload
   \<noteq> buildSchema no_options []
     [Field ty_text ((named ''title'')\<lparr>unique := True, required := True, localized := False\<rparr>)
        [] [] NoReferences []] False bare_payload"
  by (simp add: builder_simps text_field_def no_options_def named_def empty_attrs_def
        bare_payload_def fieldAffectsData_def fieldIsVirtual_def fieldIsPresentationalOnly_def
        compound_indexes_def new_Schema_def schema_add_def formatBaseSchema_def
        formatDefaultValue_def fieldShouldBeLocalized_def field_name_def)

section \<open>Compiling a field list with a custom identifier\<close>

text \<open>
  Claim C3.  With \<^verbatim>\<open>allowIDField\<close> and \<^verbatim>\<open>disableUnique\<close> false and number identifiers not stored
  as big integers, compiling a number field \<^verbatim>\<open>id\<close> followed by a unique text field \<^verbatim>\<open>title\<close>
  constructs the schema from a field object that holds \<^verbatim>\<open>_id\<close> of type \<^verbatim>\<open>Number\<close> and nothing
  else, and then adds \<^verbatim>\<open>title\<close> to it: the compiled schema has no path \<^verbatim>\<open>id\<close>, and its path
  \<^verbatim>\<open>title\<close> is a string descriptor marked \<^verbatim>\<open>index\<close>, \<^verbatim>\<open>unique\<close> and \<^verbatim>\<open>sparse\<close>.
\<close>

theorem buildSchema_custom_id:
  "buildSchema (opts\<lparr>allowIDField := False, disableUnique := False\<rparr>) []
     [Field ty_number (named ''id'') [] [] NoReferences [],
      Field ty_text ((named ''title'')\<lparr>unique := True\<rparr>) [] [] NoReferences []]
     p (payload\<lparr>useBigIntForNumberIDs := False\<rparr>)
   = addFieldSchema (Field ty_text ((named ''title'')\<lparr>unique := True\<rparr>) [] [] NoReferences [])
       (new_Schema [(''_id'', Type TNumber)] (raw_options opts))
       (payload\<lparr>useBigIntForNumberIDs := False\<rparr>)
       (opts\<lparr>allowIDField := False, disableUnique := False\<rparr>) p
   \<and> addFieldSchema (Field ty_text ((named ''title'')\<lparr>unique := True\<rparr>) [] [] NoReferences [])
       (new_Schema [(''_id'', Type TNumber)] (raw_options opts))
       (payload\<lparr>useBigIntForNumberIDs := False\<rparr>)
       (opts\<lparr>allowIDField := False, disableUnique := False\<rparr>) p
   = Schema (raw_options opts)
       [(''_id'', Type TNumber),
        (''title'',
         Obj [(''default'', Undefined), (''index'', Bool True), (''required'', Bool False),
              (''unique'', Bool True), (''sparse'', Bool True), (''type'', Type TString)])]
       [] []"
  by (simp add: builder_simps text_field_def named_def empty_attrs_def
        fieldAffectsData_def fieldIsVirtual_def fieldIsPresentationalOnly_def
        compound_indexes_def new_Schema_def schema_add_def formatBaseSchema_def
        formatDefaultValue_def fieldShouldBeLocalized_def field_name_def localizeSchema_def
        Let_def split: option.split)

section \<open>Properties of the variant registry\<close>

text \<open>
  Claim C1.  The registry build for the global variants \<^verbatim>\<open>x\<close>, which holds an all-global
  blocks field \<^verbatim>\<open>nested\<close>, and \<^verbatim>\<open>y\<close> returns: it allocates one shell for each of the two at
  the next two free addresses and populates the shell of \<^verbatim>\<open>x\<close> with the path \<^verbatim>\<open>nested\<close>.  The
  discriminators of \<^verbatim>\<open>nested\<close> are the shells that the registry \<^verbatim>\<open>payload.db.globalBlockSchemas\<close>
  held for \<^verbatim>\<open>x\<close> and \<^verbatim>\<open>y\<close> before the build; when that registry addresses shells that exist
  already, none of them is one of the two shells of this build.
\<close>

theorem buildGlobalBlockSchemas_nested_global:
  "buildGlobalBlockSchemas
     (payload\<lparr>config_blocks :=
        Some [Block ''x'' [Field ty_blocks (named ''nested'') [] [] GlobalBlocks []],
              Block ''y'' []]\<rparr>)
     opts store
   = ([(''x'', length store), (''y'', Suc (length store))],
      store @
      [Schema (Some block_options)
         [(''nested'',
           Obj [(''default'', Undefined), (''index'', Bool (indexSortableFields opts)),
                (''required'', Bool False), (''unique'', Bool False),
                (''type'',
                 Arr [Sub (Schema (Some [(''_id'', Bool False),
                                         (''discriminatorKey'', Str ''blockType'')])
                             [] [] [])])])]
         []
         ((case map_of (globalBlockSchemas payload) ''x'' of
             Some shell \<Rightarrow> [(''nested'', ''x'', Shell shell)] | None \<Rightarrow> []) @
          (case map_of (globalBlockSchemas payload) ''y'' of
             Some shell \<Rightarrow> [(''nested'', ''y'', Shell shell)] | None \<Rightarrow> [])),
       Schema (Some block_options) [] [] []])
   \<and> ((\<forall>shell \<in> snd ` set (globalBlockSchemas payload). shell < length store) \<longrightarrow>
        (\<forall>d \<in> set (discriminators
                     (snd (buildGlobalBlockSchemas
                        (payload\<lparr>config_blocks :=
                           Some [Block ''x'' [Field ty_blocks (named ''nested'') [] []
                                               GlobalBlocks []],
                                 Block ''y'' []]\<rparr>)
                        opts store) ! length store)).
           snd (snd d) \<noteq> Shell (length store) \<and> snd (snd d) \<noteq> Shell (Suc (length store))))"
proof -
  let ?pl = "payload\<lparr>config_blocks :=
        Some [Block ''x'' [Field ty_blocks (named ''nested'') [] [] GlobalBlocks []],
              Block ''y'' []]\<rparr>"
  let ?D = "(case map_of (globalBlockSchemas payload) ''x'' of
             Some shell \<Rightarrow> [(''nested'', ''x'', Shell shell)] | None \<Rightarrow> []) @
          (case map_of (globalBlockSchemas payload) ''y'' of
             Some shell \<Rightarrow> [(''nested'', ''y'', Shell shell)] | None \<Rightarrow> [])"
  have eq: "buildGlobalBlockSchemas ?pl opts store
   = ([(''x'', length store), (''y'', Suc (length store))],
      store @
      [Schema (Some block_options)
         [(''nested'',
           Obj [(''default'', Undefined), (''index'', Bool (indexSortableFields opts)),
                (''required'', Bool False), (''unique'', Bool False),
                (''type'',
                 Arr [Sub (Schema (Some [(''_id'', Bool False),
                                         (''discriminatorKey'', Str ''blockType'')])
                             [] [] [])])])]
         [] ?D,
       Schema (Some block_options) [] [] []])"
    by (simp add: buildGlobalBlockSchemas_def builder_simps named_def empty_attrs_def
          fieldAffectsData_def fieldIsVirtual_def fieldIsPresentationalOnly_def
          new_Schema_def schema_add_def schema_discriminator_def formatBaseSchema_def
          formatDefaultValue_def fieldShouldBeLocalized_def field_name_def localizeSchema_def
          blocks_global_def blocks_discriminators_def nth_append list_update_append
          Let_def split: option.split)
  have own: "\<forall>d \<in> set ?D. snd (snd d) \<noteq> Shell (length store) \<and>
                snd (snd d) \<noteq> Shell (Suc (length store))"
    if "\<forall>shell \<in> snd ` set (globalBlockSchemas payload). shell < length store"
  proof -
    have lt: "v < length store" if "map_of (globalBlockSchemas payload) k = Some v" for k v
      using map_of_SomeD[OF that] \<open>\<forall>shell \<in> snd ` set (globalBlockSchemas payload). shell < length store\<close>
      by force
    show ?thesis
      by (auto split: option.splits dest: lt lt[OF sym])
  qed
  show ?thesis
    unfolding eq using own by (simp add: nth_append)
qed

theorem buildGlobalBlockSchemas_nested_global_witness:
  "buildGlobalBlockSchemas
     (bare_payload\<lparr>config_blocks :=
        Some [Block ''x'' [Field ty_blocks (named ''nested'') [] [] GlobalBlocks []],
              Block ''y'' []]\<rparr>)
     no_options []
   = ([(''x'', 0), (''y'', 1)],
      [Schema (Some block_options)
         [(''nested'',
           Obj [(''default'', Undefined), (''index'', Bool False),
                (''required'', Bool False), (''unique'', Bool False),
                (''type'',
                 Arr [Sub (Schema (Some [(''_id'', Bool False),
                                         (''discriminatorKey'', Str ''blockType'')])
                             [] [] [])])])]
         [] [],
       Schema (Some block_options) [] [] []])"
  using buildGlobalBlockSchemas_nested_global[of bare_payload no_options "[]"]
  by (simp add: bare_payload_def no_options_def)

section \<open>Properties of the path map builder\<close>

lemma reference_global_blocks_fold:
  "reference_global_blocks (Some globals) inlineSlugs schemaPath m
   = fold (\<lambda>sl sm.
             if sl \<notin> inlineSlugs
             then (case map_of sm (globalBlockSchemaPath sl) of
                     Some globalBlockSchema \<Rightarrow>
                       AList.update (schemaPath @ ''.'' @ sl) globalBlockSchema sm
                   | None \<Rightarrow> sm)
             else sm)
       (map slug globals) m"
  by (simp add: reference_global_blocks_def fold_map comp_def)

lemma traverse_references_fold:
  "traverse_references env schemaPath inlineSlugs (map SlugRef sls) m
   = Inr (fold (\<lambda>sl sm.
             if sl \<notin> inlineSlugs
             then (case map_of sm (globalBlockSchemaPath sl) of
                     Some globalBlockSchema \<Rightarrow>
                       AList.update (schemaPath @ ''.'' @ sl) globalBlockSchema sm
                   | None \<Rightarrow> sm)
             else sm)
       sls m)"
  by (induction sls arbitrary: m) (simp_all split: option.split)

lemma copy_fold_other:
  assumes "q \<notin> (\<lambda>sl. schemaPath @ ''.'' @ sl) ` set sls"
  shows "map_of (fold (\<lambda>sl sm.
             if sl \<notin> inlineSlugs
             then (case map_of sm (globalBlockSchemaPath sl) of
                     Some globalBlockSchema \<Rightarrow>
                       AList.update (schemaPath @ ''.'' @ sl) globalBlockSchema sm
                   | None \<Rightarrow> sm)
             else sm)
       sls m) q = map_of m q"
  using assms
  by (induction sls arbitrary: m) (auto simp: update_conv' split: option.split)

lemma copy_fold_skipped:
  assumes "\<forall>sl \<in> set sls. \<forall>sl' \<in> G. schemaPath @ ''.'' @ sl \<noteq> globalBlockSchemaPath sl'"
    and "set sls \<subseteq> G"
    and "q \<notin> (\<lambda>sl. schemaPath @ ''.'' @ sl) `
             {sl \<in> set sls. sl \<notin> inlineSlugs \<and> map_of m (globalBlockSchemaPath sl) \<noteq> None}"
  shows "map_of (fold (\<lambda>sl sm.
             if sl \<notin> inlineSlugs
             then (case map_of sm (globalBlockSchemaPath sl) of
                     Some globalBlockSchema \<Rightarrow>
                       AList.update (schemaPath @ ''.'' @ sl) globalBlockSchema sm
                   | None \<Rightarrow> sm)
             else sm)
       sls m) q = map_of m q"
  using assms
proof (induction sls arbitrary: m)
  case Nil
  then show ?case by simp
next
  case (Cons a sls)
  let ?f = "\<lambda>sl sm.
             if sl \<notin> inlineSlugs
             then (case map_of sm (globalBlockSchemaPath sl) of
                     Some globalBlockSchema \<Rightarrow>
                       AList.update (schemaPath @ ''.'' @ sl) globalBlockSchema sm
                   | None \<Rightarrow> sm)
             else sm"
  have same: "map_of (?f a m) (globalBlockSchemaPath sl) = map_of m (globalBlockSchemaPath sl)"
    if "sl \<in> G" for sl
    using Cons.prems(1) that by (auto simp: update_conv' split: option.split)
  have q: "map_of (?f a m) q = map_of m q"
    using Cons.prems(3) by (auto simp: update_conv' split: option.split)
  have "map_of (fold ?f sls (?f a m)) q = map_of (?f a m) q"
  proof (rule Cons.IH)
    show "\<forall>sl \<in> set sls. \<forall>sl' \<in> G. schemaPath @ ''.'' @ sl \<noteq> globalBlockSchemaPath sl'"
      using Cons.prems(1) by simp
    show "set sls \<subseteq> G" using Cons.prems(2) by simp
    have "{sl \<in> set sls. sl \<notin> inlineSlugs \<and> map_of (?f a m) (globalBlockSchemaPath sl) \<noteq> None}
        \<subseteq> {sl \<in> set (a # sls). sl \<notin> inlineSlugs \<and> map_of m (globalBlockSchemaPath sl) \<noteq> None}"
      using same Cons.prems(2) by auto
    then show "q \<notin> (\<lambda>sl. schemaPath @ ''.'' @ sl) `
             {sl \<in> set sls. sl \<notin> inlineSlugs \<and>
                map_of (?f a m) (globalBlockSchemaPath sl) \<noteq> None}"
      using Cons.prems(3) by blast
  qed
  then show ?case using q by simp
qed

lemma copy_fold_copied:
  assumes "\<forall>sl \<in> set sls. \<forall>sl' \<in> G. schemaPath @ ''.'' @ sl \<noteq> globalBlockSchemaPath sl'"
    and "set sls \<subseteq> G"
    and "t \<in> set sls" and "t \<notin> inlineSlugs"
    and "map_of m (globalBlockSchemaPath t) = Some e"
  shows "map_of (fold (\<lambda>sl sm.
             if sl \<notin> inlineSlugs
             then (case map_of sm (globalBlockSchemaPath sl) of
                     Some globalBlockSchema \<Rightarrow>
                       AList.update (schemaPath @ ''.'' @ sl) globalBlockSchema sm
                   | None \<Rightarrow> sm)
             else sm)
       sls m) (schemaPath @ ''.'' @ t) = Some e"
  using assms
proof (induction sls arbitrary: m)
  case Nil
  then show ?case by simp
next
  case (Cons a sls)
  let ?f = "\<lambda>sl sm.
             if sl \<notin> inlineSlugs
             then (case map_of sm (globalBlockSchemaPath sl) of
                     Some globalBlockSchema \<Rightarrow>
                       AList.update (schemaPath @ ''.'' @ sl) globalBlockSchema sm
                   | None \<Rightarrow> sm)
             else sm"
  have same: "map_of (?f a m) (globalBlockSchemaPath sl) = map_of m (globalBlockSchemaPath sl)"
    if "sl \<in> G" for sl
    using Cons.prems(1) that by (auto simp: update_conv' split: option.split)
  show ?case
  proof (cases "t \<in> set sls")
    case True
    have "map_of (fold ?f sls (?f a m)) (schemaPath @ ''.'' @ t) = Some e"
    proof (rule Cons.IH)
      show "\<forall>sl \<in> set sls. \<forall>sl' \<in> G. schemaPath @ ''.'' @ sl \<noteq> globalBlockSchemaPath sl'"
        using Cons.prems(1) by simp
      show "set sls \<subseteq> G" using Cons.prems(2) by simp
      show "t \<in> set sls" by (rule True)
      show "t \<notin> inlineSlugs" by (rule Cons.prems(4))
      show "map_of (?f a m) (globalBlockSchemaPath t) = Some e"
        using same[of t] Cons.prems(2,3,5) by auto
    qed
    then show ?thesis by simp
  next
    case False
    then have ta: "t = a" using Cons.prems(3) by simp
    have "schemaPath @ ''.'' @ t \<notin> (\<lambda>sl. schemaPath @ ''.'' @ sl) ` set sls"
      using False by auto
    then have "map_of (fold ?f sls (?f a m)) (schemaPath @ ''.'' @ t)
             = map_of (?f a m) (schemaPath @ ''.'' @ t)"
      by (rule copy_fold_other)
    also have "\<dots> = Some e"
      using ta Cons.prems(4,5) by (simp add: update_conv')
    finally show ?thesis by simp
  qed
qed

text \<open>
  The two reference arms of a blocks field traverse nothing.  Let no synthetic path
  \<^verbatim>\<open><field path>.<slug>\<close> of a referenced slug be a path under the reserved root.  For every
  referenced slug that is not an inline slug and has an entry under the reserved root when
  the arm runs, the map afterwards holds that same entry at the synthetic path, and every
  other path of the map holds what it held before.
\<close>

lemma referenced_variant_copied:
  assumes "\<forall>g \<in> set globals. \<forall>h \<in> set globals.
             schemaPath @ ''.'' @ slug g \<noteq> globalBlockSchemaPath (slug h)"
  shows "traverse_references env schemaPath inlineSlugs (map (\<lambda>g. SlugRef (slug g)) globals) m
           = Inr (reference_global_blocks (Some globals) inlineSlugs schemaPath m)
       \<and> (\<forall>g \<in> set globals. slug g \<notin> inlineSlugs \<longrightarrow>
             map_of m (globalBlockSchemaPath (slug g)) \<noteq> None \<longrightarrow>
             map_of (reference_global_blocks (Some globals) inlineSlugs schemaPath m)
               (schemaPath @ ''.'' @ slug g)
             = map_of m (globalBlockSchemaPath (slug g)))
       \<and> (\<forall>q. q \<notin> set (map (\<lambda>g. schemaPath @ ''.'' @ slug g)
                           (filter (\<lambda>g. slug g \<notin> inlineSlugs \<and>
                                      map_of m (globalBlockSchemaPath (slug g)) \<noteq> None)
                              globals)) \<longrightarrow>
             map_of (reference_global_blocks (Some globals) inlineSlugs schemaPath m) q
             = map_of m q)"
proof (intro conjI ballI allI impI)
  have nc: "\<forall>sl \<in> set (map slug globals). \<forall>sl' \<in> slug ` set globals.
              schemaPath @ ''.'' @ sl \<noteq> globalBlockSchemaPath sl'"
    using assms by auto
  have sub: "set (map slug globals) \<subseteq> slug ` set globals" by simp
  show "traverse_references env schemaPath inlineSlugs (map (\<lambda>g. SlugRef (slug g)) globals) m
           = Inr (reference_global_blocks (Some globals) inlineSlugs schemaPath m)"
    using traverse_references_fold[of env schemaPath inlineSlugs "map slug globals" m]
    by (simp add: reference_global_blocks_fold comp_def)
  show "map_of (reference_global_blocks (Some globals) inlineSlugs schemaPath m)
               (schemaPath @ ''.'' @ slug g)
             = map_of m (globalBlockSchemaPath (slug g))"
    if g: "g \<in> set globals" and ni: "slug g \<notin> inlineSlugs"
      and ex: "map_of m (globalBlockSchemaPath (slug g)) \<noteq> None" for g
  proof -
    obtain e where e: "map_of m (globalBlockSchemaPath (slug g)) = Some e"
      using ex by auto
    have "slug g \<in> set (map slug globals)" using g by simp
    from copy_fold_copied[OF nc sub this ni e] show ?thesis
      unfolding reference_global_blocks_fold e .
  qed
  show "map_of (reference_global_blocks (Some globals) inlineSlugs schemaPath m) q = map_of m q"
    if "q \<notin> set (map (\<lambda>g. schemaPath @ ''.'' @ slug g)
                       (filter (\<lambda>g. slug g \<notin> inlineSlugs \<and>
                                  map_of m (globalBlockSchemaPath (slug g)) \<noteq> None)
                          globals))" for q
  proof -
    have "q \<notin> (\<lambda>sl. schemaPath @ ''.'' @ sl) `
             {sl \<in> set (map slug globals). sl \<notin> inlineSlugs \<and>
                map_of m (globalBlockSchemaPath sl) \<noteq> None}"
      using that by auto
    from copy_fold_skipped[OF nc sub this] show ?thesis
      unfolding reference_global_blocks_fold .
  qed
qed

text \<open>
  Claim C8.  \<^verbatim>\<open>buildClientFieldSchemaMap\<close> for the global variants \<^verbatim>\<open>x\<close>, which holds an
  all-global blocks field \<^verbatim>\<open>nested\<close>, and \<^verbatim>\<open>y\<close>, and for a collection \<^verbatim>\<open>pages\<close> with an all-global
  blocks field \<^verbatim>\<open>layout\<close>.  Under \<^verbatim>\<open>layout\<close> both global variants are recorded, each with the
  very entry stored under the reserved root, and so is \<^verbatim>\<open>x\<close> under its own field \<^verbatim>\<open>nested\<close>.
  For \<^verbatim>\<open>y\<close> nothing is recorded under \<^verbatim>\<open>nested\<close>, although \<^verbatim>\<open>y\<close> is a global variant: its entry
  is stored under the reserved root only after the fields of \<^verbatim>\<open>x\<close> have been traversed.
\<close>

theorem buildClientFieldSchemaMap_forward_reference:
  assumes "env_blocks env = Some [
      Block ''x'' [Field ty_blocks (named ''nested'') [] [] GlobalBlocks []], Block ''y'' []]"
    and "snd (getFieldPaths env (Field ty_blocks (named ''nested'') [] [] GlobalBlocks []) 0 []
           ''__global_blocks__.x'') = ''__global_blocks__.x.nested''"
    and "snd (getFieldPaths env (Field ty_blocks (named ''layout'') [] [] GlobalBlocks []) 0 []
           ''pages'') = ''pages.layout''"
  shows "buildClientFieldSchemaMap env
           \<lparr>client_blocks = Some [
               Block ''x'' [Field ty_blocks (named ''nested'') [] [] GlobalBlocks []], Block ''y'' []],
            client_collections =
              [\<lparr>collection_slug = ''pages'',
                collection_fields = [Field ty_blocks (named ''layout'') [] [] GlobalBlocks []],
                local_auth = False\<rparr>],
            client_globals = []\<rparr>
           (Some ''pages'') None
         = Inr [(''__global_blocks__.x'', BlockEntry (
             Block ''x'' [Field ty_blocks (named ''nested'') [] [] GlobalBlocks []])),
                (''__global_blocks__.x.nested'',
                 FieldEntry (Field ty_blocks (named ''nested'') [] [] GlobalBlocks [])),
                (''__global_blocks__.x.nested.x'', BlockEntry (
                    Block ''x'' [Field ty_blocks (named ''nested'') [] [] GlobalBlocks []])),
                (''__global_blocks__.y'', BlockEntry (Block ''y'' [])),
                (''pages'', FieldsEntry [Field ty_blocks (named ''layout'') [] [] GlobalBlocks []]),
                (''pages.layout'',
                 FieldEntry (Field ty_blocks (named ''layout'') [] [] GlobalBlocks [])),
                (''pages.layout.x'', BlockEntry (
                    Block ''x'' [Field ty_blocks (named ''nested'') [] [] GlobalBlocks []])),
                (''pages.layout.y'', BlockEntry (Block ''y'' []))]"
proof -
  have named: "name (named n) = Some n" for n
    by (simp add: named_def empty_attrs_def)
  show ?thesis
    using assms
    by (simp add: buildClientFieldSchemaMap_def reference_global_blocks_def
          globalBlockSchemaPath_def named Let_def)
qed

theorem buildClientFieldSchemaMap_forward_reference_witness:
  "map_of
     (case buildClientFieldSchemaMap
             (example_env\<lparr>env_blocks := Some [
                 Block ''x'' [Field ty_blocks (named ''nested'') [] [] GlobalBlocks []], Block ''y'' []]\<rparr>)
             \<lparr>client_blocks = Some [
                 Block ''x'' [Field ty_blocks (named ''nested'') [] [] GlobalBlocks []], Block ''y'' []],
              client_collections =
                [\<lparr>collection_slug = ''pages'',
                  collection_fields = [Field ty_blocks (named ''layout'') [] [] GlobalBlocks []],
                  local_auth = False\<rparr>],
              client_globals = []\<rparr>
             (Some ''pages'') None of
        Inr m \<Rightarrow> m | Inl e \<Rightarrow> [])
     ''__global_blocks__.x.nested.y'' = None
   \<and> map_of
     (case buildClientFieldSchemaMap
             (example_env\<lparr>env_blocks := Some [
                 Block ''x'' [Field ty_blocks (named ''nested'') [] [] GlobalBlocks []], Block ''y'' []]\<rparr>)
             \<lparr>client_blocks = Some [
                 Block ''x'' [Field ty_blocks (named ''nested'') [] [] GlobalBlocks []], Block ''y'' []],
              client_collections =
                [\<lparr>collection_slug = ''pages'',
                  collection_fields = [Field ty_blocks (named ''layout'') [] [] GlobalBlocks []],
                  local_auth = False\<rparr>],
              client_globals = []\<rparr>
             (Some ''pages'') None of
        Inr m \<Rightarrow> m | Inl e \<Rightarrow> [])
     ''__global_blocks__.y'' = Some (BlockEntry (Block ''y'' []))"
proof -
  let ?env = "example_env\<lparr>env_blocks := Some [
      Block ''x'' [Field ty_blocks (named ''nested'') [] [] GlobalBlocks []], Block ''y'' []]\<rparr>"
  have named: "name (named n) = Some n" for n
    by (simp add: named_def empty_attrs_def)
  have 1: "env_blocks ?env = Some [
      Block ''x'' [Field ty_blocks (named ''nested'') [] [] GlobalBlocks []], Block ''y'' []]" by simp
  have 2: "snd (getFieldPaths ?env (Field ty_blocks (named ''nested'') [] [] GlobalBlocks []) 0 []
           ''__global_blocks__.x'') = ''__global_blocks__.x.nested''"
    by (simp add: example_env_def named)
  have 3: "snd (getFieldPaths ?env (Field ty_blocks (named ''layout'') [] [] GlobalBlocks []) 0 []
           ''pages'') = ''pages.layout''"
    by (simp add: example_env_def named)
  show ?thesis
    unfolding buildClientFieldSchemaMap_forward_reference[OF 1 2 3]
    by simp
qed

end
